(* ===== verification/Prelude.thy ===== *)
theory Prelude
  imports Main "HOL-Library.Word"
begin

text \<open>
  Shared vocabulary of the development: names for the machine types of the Rust source,
  the standard-library operations several components use (saturating and checked
  arithmetic, substring search, prefix tests), generic lemmas on lists and maps, and the
  \<open>named_theorems\<close> collections that the component theories fill.
\<close>

section \<open>Machine types\<close>

type_synonym u8 = "8 word"
type_synonym u32 = "32 word"
type_synonym u64 = "64 word"
type_synonym bytes = "u8 list"

section \<open>Collections of facts\<close>

named_theorems batch_simps \<open>unfolding rules of the batching aggregators\<close>

section \<open>Standard-library arithmetic\<close>

definition saturating_sub :: "u64 \<Rightarrow> u64 \<Rightarrow> u64" where
  "saturating_sub a b = (if b \<le> a then a - b else 0)"

definition checked_mul :: "u64 \<Rightarrow> u64 \<Rightarrow> u64 option" where
  "checked_mul a b = (if unat a * unat b < 2 ^ 64 then Some (a * b) else None)"

text \<open>
  A signed 64-bit integer (\<open>i64\<close>) is an integer in its range; the operations of a release build wrap
  around.
\<close>

definition wrap_i64 :: "int \<Rightarrow> int" where
  "wrap_i64 n = signed_take_bit 63 n"

definition i64_sub :: "int \<Rightarrow> int \<Rightarrow> int" where
  "i64_sub a b = wrap_i64 (a - b)"

definition i64_add :: "int \<Rightarrow> int \<Rightarrow> int" where
  "i64_add a b = wrap_i64 (a + b)"

definition i64_abs :: "int \<Rightarrow> int" where
  "i64_abs a = wrap_i64 \<bar>a\<bar>"

definition I64_MAX :: int where
  "I64_MAX = 9223372036854775807"

lemma wrap_i64_id [simp]: "- (2 ^ 63) \<le> n \<Longrightarrow> n < 2 ^ 63 \<Longrightarrow> wrap_i64 n = n"
  by (simp add: wrap_i64_def signed_take_bit_int_eq_self)

lemma unat_saturating_sub: "unat (saturating_sub a b) = unat a - unat b"
  by (auto simp: saturating_sub_def unat_sub word_le_nat_alt)

lemma checked_mul_SomeD:
  assumes "checked_mul a b = Some c"
  shows "unat c = unat a * unat b"
  using assms by (auto simp: checked_mul_def unat_word_ariths split: if_splits)

section \<open>Lists\<close>

text \<open>The last \<open>n\<close> elements of a list: what a bounded FIFO buffer of a history keeps.\<close>

definition lastn :: "nat \<Rightarrow> 'a list \<Rightarrow> 'a list" where
  "lastn n xs = drop (length xs - n) xs"

lemma length_lastn [simp]: "length (lastn n xs) = min n (length xs)"
  by (simp add: lastn_def)

lemma lastn_short [simp]: "length xs \<le> n \<Longrightarrow> lastn n xs = xs"
  by (simp add: lastn_def)

lemma lastn_Nil [simp]: "lastn n [] = []"
  by (simp add: lastn_def)

lemma lastn_lastn_append: "lastn n (lastn n xs @ ys) = lastn n (xs @ ys)"
proof (cases "length xs \<le> n")
  case False
  then have "length xs + length ys - (length xs - n + n) + (length xs - n)
      = length xs + length ys - n"
    by arith
  with False show ?thesis by (simp add: lastn_def)
qed simp

lemma set_lastn_subset: "set (lastn n xs) \<subseteq> set xs"
  by (simp add: lastn_def set_drop_subset)

lemma distinct_lastn: "distinct xs \<Longrightarrow> distinct (lastn n xs)"
  by (simp add: lastn_def)

lemma lastn_snoc_full:
  "length xs = n \<Longrightarrow> 0 < n \<Longrightarrow> lastn n (xs @ [x]) = tl xs @ [x]"
  by (cases xs) (auto simp: lastn_def)

lemma drop_Suc_conv_tl: "drop (Suc n) xs = tl (drop n xs)"
  by (simp add: drop_Suc tl_drop)

section \<open>Interface: a sliding window\<close>

text \<open>
  Several components remember the most recent \<open>cap\<close> items of a stream in a bounded buffer.
  The provider promises what one insertion does to the window; the clients get the window after
  any number of insertions.
\<close>

locale sliding_window =
  fixes push :: "'s \<Rightarrow> 'a \<Rightarrow> 's"
    and window :: "'s \<Rightarrow> 'a list"
    and inv :: "'s \<Rightarrow> bool"
    and cap :: nat
  assumes inv_push: "inv s \<Longrightarrow> inv (push s x)"
    and window_push: "inv s \<Longrightarrow> window (push s x) = lastn cap (window s @ [x])"
begin

lemma inv_pushes: "inv s \<Longrightarrow> inv (fold (\<lambda>x s. push s x) xs s)"
  by (induction xs arbitrary: s) (simp_all add: inv_push)

lemma window_pushes:
  assumes "inv s" and "length (window s) \<le> cap"
  shows "window (fold (\<lambda>x s. push s x) xs s) = lastn cap (window s @ xs)"
proof (induction xs rule: rev_induct)
  case Nil
  from assms show ?case by simp
next
  case (snoc x xs)
  have "inv (fold (\<lambda>x s. push s x) xs s)"
    using assms(1) by (rule inv_pushes)
  then show ?case
    using snoc by (simp add: window_push lastn_lastn_append)
qed

end

end
