(* ===== verification/FlushControl.thy ===== *)
theory FlushControl
  imports Prelude Complex_Main
begin

text \<open>
  The flush controller: \<open>bottlecap/src/lifecycle/invocation_times.rs\<close> (a ring buffer of the
  last twenty invocation times) and \<open>bottlecap/src/lifecycle/flush_control.rs\<close> (the decision
  when to flush). Times are \<open>u64\<close> seconds kept at their width: the release profile of the crate
  does not enable overflow checks, so \<open>-\<close> wraps. The clock is an argument.
\<close>

section \<open>Invocation times\<close>

datatype FlushStrategy =
    Default
  | End
  | Periodically u64
  | EndPeriodically u64
  | Continuously u64

datatype ConcreteFlushStrategy =
    CPeriodically u64
  | CEnd
  | CContinuously u64
  | CEndPeriodically u64

definition TWENTY_SECONDS :: u64 where
  "TWENTY_SECONDS = 20 * 1000"

definition LOOKBACK_COUNT :: nat where
  "LOOKBACK_COUNT = 20"

definition ONE_TWENTY_SECONDS :: real where
  "ONE_TWENTY_SECONDS = 120"

record InvocationTimes =
  times :: "u64 list"
  head :: nat

definition it_new :: InvocationTimes where
  "it_new = \<lparr>times = replicate LOOKBACK_COUNT 0, head = 0\<rparr>"

definition it_add :: "InvocationTimes \<Rightarrow> u64 \<Rightarrow> InvocationTimes" where
  "it_add it timestamp =
     \<lparr>times = (times it)[head it := timestamp], head = (head it + 1) mod LOOKBACK_COUNT\<rparr>"

text \<open>
  The average gap is computed in \<open>f64\<close> by the source. It is compared with \<open>120\<close> and divided
  by \<open>19\<close>; since \<open>120 * 19 = 2280\<close> is exact and the conversion and the division are monotone
  in \<open>f64\<close>, the comparison has the outcome it has over the reals.
\<close>

definition evaluate_concrete_strategy ::
    "InvocationTimes \<Rightarrow> u64 \<Rightarrow> u64 \<Rightarrow> FlushStrategy \<Rightarrow> ConcreteFlushStrategy" where
  "evaluate_concrete_strategy it now flush_timeout flush_strategy =
     (case flush_strategy of
        Periodically p \<Rightarrow> CPeriodically p
      | End \<Rightarrow> CEnd
      | Continuously p \<Rightarrow> CContinuously p
      | EndPeriodically p \<Rightarrow> CEndPeriodically p
      | Default \<Rightarrow>
          (if list_ex (\<lambda>idx. times it ! idx = 0) [head it..<LOOKBACK_COUNT] then CEnd
           else
             let oldest = times it ! head it;
                 elapsed = now - oldest;
                 should_adapt =
                   real (unat elapsed) / real (LOOKBACK_COUNT - 1) < ONE_TWENTY_SECONDS
             in if should_adapt then
                  (if elapsed < flush_timeout then CContinuously TWENTY_SECONDS
                   else CPeriodically TWENTY_SECONDS)
                else CEnd))"

section \<open>Flush control\<close>

record FlushControl =
  last_flush :: u64
  flush_strategy :: FlushStrategy
  invocation_times :: InvocationTimes
  flush_timeout :: u64

datatype FlushDecision = Continuous | Periodic | FlushEnd | Dont

definition fc_new :: "u64 \<Rightarrow> FlushStrategy \<Rightarrow> u64 \<Rightarrow> FlushControl" where
  "fc_new now strategy timeout =
     \<lparr>last_flush = now, flush_strategy = strategy, invocation_times = it_new,
      flush_timeout = timeout\<rparr>"

datatype MissedTickBehavior = Burst | Skip

record Interval =
  period :: u64
  missed_tick_behavior :: MissedTickBehavior

text \<open>
  \<open>tokio::time::interval\<close> panics on a zero period (\<open>None\<close> here) and starts with the
  behaviour \<open>Burst\<close>.
\<close>

definition tokio_interval :: "u64 \<Rightarrow> Interval option" where
  "tokio_interval p = (if p = 0 then None else Some \<lparr>period = p, missed_tick_behavior = Burst\<rparr>)"

definition DEFAULT_FLUSH_INTERVAL :: u64 where
  "DEFAULT_FLUSH_INTERVAL = 60 * 1000"

definition FIFTEEN_MINUTES :: u64 where
  "FIFTEEN_MINUTES = 15 * 60 * 1000"

definition get_flush_interval :: "FlushControl \<Rightarrow> Interval option" where
  "get_flush_interval fc =
     (case flush_strategy fc of
        Default \<Rightarrow>
          map_option (\<lambda>i. i\<lparr>missed_tick_behavior := Skip\<rparr>) (tokio_interval DEFAULT_FLUSH_INTERVAL)
      | Periodically p \<Rightarrow> map_option (\<lambda>i. i\<lparr>missed_tick_behavior := Skip\<rparr>) (tokio_interval p)
      | EndPeriodically p \<Rightarrow> map_option (\<lambda>i. i\<lparr>missed_tick_behavior := Skip\<rparr>) (tokio_interval p)
      | Continuously p \<Rightarrow> map_option (\<lambda>i. i\<lparr>missed_tick_behavior := Skip\<rparr>) (tokio_interval p)
      | End \<Rightarrow> tokio_interval FIFTEEN_MINUTES)"

definition interval_passed :: "FlushControl \<Rightarrow> u64 \<Rightarrow> u64 \<Rightarrow> bool" where
  "interval_passed fc now interval = (now - last_flush fc > interval div 1000)"

definition evaluate_flush_decision :: "FlushControl \<Rightarrow> u64 \<Rightarrow> FlushDecision \<times> FlushControl" where
  "evaluate_flush_decision fc0 now =
     (let fc = fc0\<lparr>invocation_times := it_add (invocation_times fc0) now\<rparr> in
      case evaluate_concrete_strategy (invocation_times fc) now (flush_timeout fc)
             (flush_strategy fc) of
        CPeriodically interval \<Rightarrow>
          (if interval_passed fc now interval then (Periodic, fc\<lparr>last_flush := now\<rparr>)
           else (Dont, fc))
      | CContinuously interval \<Rightarrow>
          (if interval_passed fc now interval then (Continuous, fc\<lparr>last_flush := now\<rparr>)
           else (Dont, fc))
      | CEnd \<Rightarrow> (FlushEnd, fc)
      | CEndPeriodically interval \<Rightarrow>
          (if interval_passed fc now interval then (FlushEnd, fc\<lparr>last_flush := now\<rparr>)
           else (Dont, fc)))"

text \<open>The controller driven by a sequence of invocations, one clock reading each.\<close>

fun run_decisions :: "FlushControl \<Rightarrow> u64 list \<Rightarrow> FlushDecision list \<times> FlushControl" where
  "run_decisions fc [] = ([], fc)"
| "run_decisions fc (now # nows) =
     (let (d, fc') = evaluate_flush_decision fc now;
          (ds, fc'') = run_decisions fc' nows
      in (d # ds, fc''))"

section \<open>The ring buffer as a window on the history\<close>

definition it_inv :: "InvocationTimes \<Rightarrow> bool" where
  "it_inv it \<longleftrightarrow> length (times it) = LOOKBACK_COUNT \<and> head it < LOOKBACK_COUNT"

definition it_window :: "InvocationTimes \<Rightarrow> u64 list" where
  "it_window it = drop (head it) (times it) @ take (head it) (times it)"

definition it_history :: "u64 list \<Rightarrow> InvocationTimes" where
  "it_history hist = fold (\<lambda>t it. it_add it t) hist it_new"

lemma it_inv_new: "it_inv it_new"
  by (simp add: it_inv_def it_new_def LOOKBACK_COUNT_def)

lemma it_inv_add: "it_inv it \<Longrightarrow> it_inv (it_add it t)"
  by (simp add: it_inv_def it_add_def LOOKBACK_COUNT_def)

lemma length_it_window: "it_inv it \<Longrightarrow> length (it_window it) = LOOKBACK_COUNT"
  by (simp add: it_inv_def it_window_def)

lemma it_window_new: "it_window it_new = replicate LOOKBACK_COUNT 0"
  by (simp add: it_window_def it_new_def)

lemma it_window_add:
  assumes "it_inv it"
  shows "it_window (it_add it t) = tl (it_window it) @ [t]"
proof -
  let ?h = "head it" and ?xs = "times it"
  from assms have h: "?h < length ?xs" and len: "length ?xs = LOOKBACK_COUNT"
    by (simp_all add: it_inv_def)
  have tl: "tl (it_window it) = drop (Suc ?h) ?xs @ take ?h ?xs"
    using h by (simp add: it_window_def drop_Suc_conv_tl)
  have upd: "take (Suc ?h) (?xs[?h := t]) = take ?h ?xs @ [t]"
    using h by (simp add: take_Suc_conv_app_nth)
  show ?thesis
  proof (cases "Suc ?h = LOOKBACK_COUNT")
    case True
    with upd tl len show ?thesis
      by (simp add: it_window_def it_add_def)
  next
    case False
    with h len have "head (it_add it t) = Suc ?h"
      by (simp add: it_add_def)
    with upd tl show ?thesis
      by (simp add: it_window_def it_add_def)
  qed
qed

lemma it_history_snoc: "it_history (hist @ [t]) = it_add (it_history hist) t"
  by (simp add: it_history_def)

lemma it_inv_history: "it_inv (it_history hist)"
  by (induction hist rule: rev_induct)
     (simp_all add: it_history_snoc it_inv_add, simp add: it_history_def it_inv_new)

lemma it_head_history: "head (it_history hist) = length hist mod LOOKBACK_COUNT"
proof (induction hist rule: rev_induct)
  case Nil
  then show ?case by (simp add: it_history_def it_new_def)
next
  case (snoc t hist)
  then show ?case by (simp add: it_history_snoc it_add_def mod_simps)
qed

interpretation recent: sliding_window it_add it_window it_inv LOOKBACK_COUNT
proof unfold_locales
  fix it t
  assume inv: "it_inv it"
  then show "it_inv (it_add it t)" by (rule it_inv_add)
  show "it_window (it_add it t) = lastn LOOKBACK_COUNT (it_window it @ [t])"
    using it_window_add [OF inv, of t] length_it_window [OF inv]
    by (simp add: lastn_snoc_full LOOKBACK_COUNT_def)
qed

lemma it_window_history:
  "it_window (it_history hist) = lastn LOOKBACK_COUNT (replicate LOOKBACK_COUNT 0 @ hist)"
  unfolding it_history_def
  by (simp add: recent.window_pushes it_inv_new it_window_new)

lemma it_oldest_history:
  assumes "LOOKBACK_COUNT \<le> length hist"
  shows "times (it_history hist) ! head (it_history hist) = hist ! (length hist - LOOKBACK_COUNT)"
proof -
  let ?it = "it_history hist"
  have inv: "head ?it < length (times ?it)"
    using it_inv_history [of hist] by (simp add: it_inv_def)
  then have "times ?it ! head ?it = it_window ?it ! 0"
    by (simp add: it_window_def nth_append)
  also have "\<dots> = hist ! (length hist - LOOKBACK_COUNT)"
    using assms by (simp add: it_window_history lastn_def nth_append)
  finally show ?thesis .
qed

lemma nth_eq_window:
  assumes "it_inv it" and "head it \<le> idx" and "idx < LOOKBACK_COUNT"
  shows "times it ! idx = it_window it ! (idx - head it)"
proof -
  from assms have "idx - head it < length (times it) - head it"
    unfolding it_inv_def by linarith
  with assms show ?thesis by (simp add: it_inv_def it_window_def nth_append)
qed

lemma buffer_not_full_iff:
  assumes nz: "\<forall>t \<in> set hist. t \<noteq> 0"
  shows "list_ex (\<lambda>idx. times (it_history hist) ! idx = 0) [head (it_history hist)..<LOOKBACK_COUNT]
           \<longleftrightarrow> length hist < LOOKBACK_COUNT" (is "?ex \<longleftrightarrow> _")
proof
  let ?it = "it_history hist"
  assume ?ex
  then obtain idx where idx: "head ?it \<le> idx" "idx < LOOKBACK_COUNT" "times ?it ! idx = 0"
    by (auto simp: list_ex_iff)
  then have zero: "it_window ?it ! (idx - head ?it) = 0"
    using nth_eq_window [OF it_inv_history] by simp
  show "length hist < LOOKBACK_COUNT"
  proof (rule ccontr)
    assume "\<not> length hist < LOOKBACK_COUNT"
    then have full: "it_window ?it = drop (length hist - LOOKBACK_COUNT) hist"
      by (simp add: it_window_history lastn_def)
    have "idx - head ?it < length (it_window ?it)"
      using idx length_it_window [OF it_inv_history, of hist] by simp
    then have "it_window ?it ! (idx - head ?it) \<in> set hist"
      unfolding full by (meson in_set_dropD nth_mem)
    with nz zero show False by simp
  qed
next
  let ?it = "it_history hist"
  assume short: "length hist < LOOKBACK_COUNT"
  then have head: "head ?it = length hist"
    by (simp add: it_head_history)
  have "times ?it ! head ?it = it_window ?it ! 0"
    using nth_eq_window [OF it_inv_history, of hist "head ?it"] short head by simp
  also have "\<dots> = 0"
    using short by (simp add: it_window_history lastn_def nth_append)
  finally show ?ex
    using short head by (auto simp: list_ex_iff)
qed

lemma should_adapt_iff: "real n / real (LOOKBACK_COUNT - 1) < ONE_TWENTY_SECONDS \<longleftrightarrow> n < 2280"
  by (simp add: LOOKBACK_COUNT_def ONE_TWENTY_SECONDS_def divide_less_eq)

section \<open>Properties\<close>

text \<open>
  C21. The adaptive strategy. After any history of (non-zero) invocation times, the default
  strategy flushes at the end of every invocation until twenty invocations were seen; from
  then on it looks at the time since the twentieth most recent one, and it is the periodic or
  the continuous twenty-second strategy exactly when the mean gap is below two minutes
  (\<open>2280 = 19 * 120\<close> seconds), continuous when that whole span is below the flush timeout.
\<close>

theorem default_strategy_adapts:
  assumes "\<forall>t \<in> set hist. t \<noteq> 0"
  shows "evaluate_concrete_strategy (it_history hist) now timeout Default =
    (if length hist < 20 then CEnd
     else let elapsed = now - hist ! (length hist - 20) in
       if unat elapsed < 2280
       then (if elapsed < timeout then CContinuously 20000 else CPeriodically 20000)
       else CEnd)"
proof (cases "length hist < LOOKBACK_COUNT")
  case True
  with buffer_not_full_iff [OF assms] show ?thesis
    by (simp add: evaluate_concrete_strategy_def LOOKBACK_COUNT_def)
next
  case False
  then have "times (it_history hist) ! head (it_history hist) = hist ! (length hist - 20)"
    using it_oldest_history [of hist] by (simp add: LOOKBACK_COUNT_def)
  with False buffer_not_full_iff [OF assms] show ?thesis
    unfolding evaluate_concrete_strategy_def should_adapt_iff
    by (simp add: Let_def TWENTY_SECONDS_def) (simp add: LOOKBACK_COUNT_def)
qed

theorem default_strategy_adapts_witness:
  "evaluate_concrete_strategy (it_history (replicate 20 100)) 130 60 Default = CContinuously 20000"
  using default_strategy_adapts [of "replicate 20 100" 130 60] by simp

text \<open>The decision under each fixed strategy, and what it does to the controller.\<close>

definition strategy_interval :: "FlushStrategy \<Rightarrow> u64 option" where
  "strategy_interval s =
     (case s of Periodically p \<Rightarrow> Some p | EndPeriodically p \<Rightarrow> Some p
      | Continuously p \<Rightarrow> Some p | End \<Rightarrow> None | Default \<Rightarrow> None)"

lemma decision_interval_strategy:
  assumes "strategy_interval (flush_strategy fc) = Some p"
  shows "(fst (evaluate_flush_decision fc now) \<noteq> Dont \<longleftrightarrow> now - last_flush fc > p div 1000)
    \<and> last_flush (snd (evaluate_flush_decision fc now)) =
        (if now - last_flush fc > p div 1000 then now else last_flush fc)"
  using assms
  by (cases "flush_strategy fc")
     (simp_all add: strategy_interval_def evaluate_flush_decision_def interval_passed_def
        evaluate_concrete_strategy_def Let_def)

lemma decision_keeps_strategy:
  "flush_strategy (snd (evaluate_flush_decision fc now)) = flush_strategy fc"
  "flush_timeout (snd (evaluate_flush_decision fc now)) = flush_timeout fc"
  by (simp_all add: evaluate_flush_decision_def Let_def split: ConcreteFlushStrategy.splits)

definition flush_times :: "FlushControl \<Rightarrow> u64 list \<Rightarrow> u64 list" where
  "flush_times fc nows =
     map snd (filter (\<lambda>(d, _). d \<noteq> Dont) (zip (fst (run_decisions fc nows)) nows))"

lemma flush_times_Nil: "flush_times fc [] = []"
  by (simp add: flush_times_def)

lemma flush_times_Cons:
  "flush_times fc (now # nows) =
     (if fst (evaluate_flush_decision fc now) \<noteq> Dont then [now] else [])
       @ flush_times (snd (evaluate_flush_decision fc now)) nows"
  by (simp add: flush_times_def split_beta Let_def)

lemmas flush_times_simps = flush_times_Nil flush_times_Cons

lemma sub_gt_imp_spaced:
  fixes a b :: u64
  assumes "a \<le> b" and "b - a > w"
  shows "unat a + unat w < unat b"
  using assms by (metis add.commute less_diff_conv unat_sub word_less_nat_alt)

lemma flush_times_spaced_from:
  assumes "strategy_interval (flush_strategy fc) = Some p"
    and "sorted (last_flush fc # nows)"
  shows "sorted_wrt (\<lambda>a b. unat a + unat (p div 1000) < unat b) (last_flush fc # flush_times fc nows)"
  using assms
proof (induction nows arbitrary: fc)
  case Nil
  then show ?case by (simp add: flush_times_simps)
next
  case (Cons now nows)
  let ?fc' = "snd (evaluate_flush_decision fc now)"
  note dec = decision_interval_strategy [OF Cons.prems(1), of now]
  have strat: "strategy_interval (flush_strategy ?fc') = Some p"
    using Cons.prems(1) by (simp add: decision_keeps_strategy)
  show ?case
  proof (cases "now - last_flush fc > p div 1000")
    case True
    with dec have lf: "last_flush ?fc' = now" and flush: "fst (evaluate_flush_decision fc now) \<noteq> Dont"
      by simp_all
    have "sorted (last_flush ?fc' # nows)"
      using Cons.prems(2) lf by simp
    with Cons.IH [OF strat] lf
    have tail: "sorted_wrt (\<lambda>a b. unat a + unat (p div 1000) < unat b) (now # flush_times ?fc' nows)"
      by simp
    have gap: "unat (last_flush fc) + unat (p div 1000) < unat now"
      using sub_gt_imp_spaced True Cons.prems(2) by simp
    from tail gap flush show ?thesis
      by (auto simp: flush_times_simps)
  next
    case False
    with dec have lf: "last_flush ?fc' = last_flush fc" and "fst (evaluate_flush_decision fc now) = Dont"
      by simp_all
    moreover have "sorted (last_flush ?fc' # nows)"
      using Cons.prems(2) lf by simp
    ultimately show ?thesis
      using Cons.IH [OF strat] by (simp add: flush_times_simps)
  qed
qed

text \<open>
  C22. Throttling. Under a strategy with an interval, a controller driven by a clock that never
  goes back flushes at most once per interval: any two flushes of a run, and the first one and
  the start of the controller, are more than \<open>interval / 1000\<close> seconds apart.
\<close>

theorem flushes_are_spaced:
  assumes "strategy_interval strategy = Some p"
    and "sorted (start # nows)"
  shows "sorted_wrt (\<lambda>a b. unat a + unat (p div 1000) < unat b)
           (start # flush_times (fc_new start strategy timeout) nows)"
  using flush_times_spaced_from [of "fc_new start strategy timeout" p nows] assms
  by (simp add: fc_new_def)

theorem flushes_are_spaced_witness:
  "sorted_wrt (\<lambda>a b. unat a + unat (20000 div 1000 :: u64) < unat b)
     (100 # flush_times (fc_new 100 (Periodically 20000) 60) [110, 121, 130, 142])"
  by (rule flushes_are_spaced) (simp_all add: strategy_interval_def)

lemma interval_div_small: "unat ((p :: u64) div 1000) < 2 ^ 63"
proof -
  have "unat p < 2 ^ 64"
    using unsigned_less [of p, where ?'a = nat] by simp
  then show ?thesis by (simp add: unat_div)
qed

text \<open>
  A clock that steps back. If the wall clock reads up to \<open>2 ^ 63\<close> seconds earlier than the
  last flush, the subtraction wraps to a huge elapsed time, so the controller flushes at once
  and takes the new reading as its reference: a backward step never silences a strategy with an
  interval.
\<close>

theorem backward_clock_flushes:
  assumes "strategy_interval (flush_strategy fc) = Some p"
    and "now < last_flush fc"
    and "unat (last_flush fc) - unat now \<le> 2 ^ 63"
  shows "fst (evaluate_flush_decision fc now) \<noteq> Dont
    \<and> last_flush (snd (evaluate_flush_decision fc now)) = now"
proof -
  have "unat (now - last_flush fc) = 2 ^ 64 - (unat (last_flush fc) - unat now)"
    using assms(2) unsigned_less [of "last_flush fc", where ?'a = nat]
    by (auto simp: unat_sub_if' word_less_nat_alt)
  then have "unat (p div 1000) < unat (now - last_flush fc)"
    using assms(3) interval_div_small [of p] by simp
  then have "now - last_flush fc > p div 1000"
    by (simp only: word_less_nat_alt)
  with decision_interval_strategy [OF assms(1), of now]
  show ?thesis by simp
qed

theorem backward_clock_flushes_witness:
  "fst (evaluate_flush_decision (fc_new 100 (Continuously 20000) 60) 90) \<noteq> Dont
   \<and> last_flush (snd (evaluate_flush_decision (fc_new 100 (Continuously 20000) 60) 90)) = 90"
proof -
  let ?fc = "fc_new 100 (Continuously 20000) 60"
  have h: "strategy_interval (flush_strategy ?fc) = Some 20000" "90 < last_flush ?fc"
    "unat (last_flush ?fc) - unat (90 :: u64) \<le> 2 ^ 63"
    by (simp_all add: fc_new_def strategy_interval_def)
  show ?thesis using backward_clock_flushes [OF h] by simp
qed

text \<open>
  The flush timer. Building it panics exactly when the configured interval is zero; when it
  does not, its period is the configured one (a minute for the default strategy, fifteen minutes,
  the longest a function can run, when flushing only at the end).
\<close>

theorem flush_interval_total:
  "get_flush_interval fc =
     (case strategy_interval (flush_strategy fc) of
        Some p \<Rightarrow> (if p = 0 then None else Some \<lparr>period = p, missed_tick_behavior = Skip\<rparr>)
      | None \<Rightarrow>
          (if flush_strategy fc = End then Some \<lparr>period = 900000, missed_tick_behavior = Burst\<rparr>
           else Some \<lparr>period = 60000, missed_tick_behavior = Skip\<rparr>))"
  by (cases "flush_strategy fc")
     (simp_all add: get_flush_interval_def strategy_interval_def tokio_interval_def
        DEFAULT_FLUSH_INTERVAL_def FIFTEEN_MINUTES_def)

end
