(* ===== verification/SpanDedup.thy ===== *)
theory SpanDedup
  imports Prelude
begin

text \<open>
  Span deduplication: \<open>bottlecap/src/traces/span_dedup.rs\<close> (a fixed-size FIFO cache of span
  keys, a hash set with a queue in insertion order) and the service loop of
  \<open>bottlecap/src/traces/span_dedup_service.rs\<close>, which answers the requests of its channel one at
  a time in the order they were sent.
\<close>

section \<open>The deduper\<close>

record DedupKey =
  dk_trace_id :: u64
  dk_span_id :: u64

record Deduper =
  seen :: "DedupKey set"
  order :: "DedupKey list"
  capacity :: nat

definition DEFAULT_CAPACITY :: nat where
  "DEFAULT_CAPACITY = 100"

definition deduper_new :: "nat \<Rightarrow> Deduper" where
  "deduper_new c = \<lparr>seen = {}, order = [], capacity = c\<rparr>"

definition evict_oldest :: "Deduper \<Rightarrow> Deduper" where
  "evict_oldest d =
     (if capacity d \<le> length (order d) then
        (case order d of
           [] \<Rightarrow> d
         | oldest # rest \<Rightarrow> d\<lparr>seen := seen d - {oldest}, order := rest\<rparr>)
      else d)"

definition add_key :: "Deduper \<Rightarrow> DedupKey \<Rightarrow> Deduper" where
  "add_key d key =
     (let d' = evict_oldest d in d'\<lparr>seen := insert key (seen d'), order := order d' @ [key]\<rparr>)"

definition check_and_add :: "Deduper \<Rightarrow> DedupKey \<Rightarrow> bool \<times> Deduper" where
  "check_and_add d key = (if key \<in> seen d then (False, d) else (True, add_key d key))"

section \<open>The service\<close>

text \<open>
  The commands of the channel in the order they were received. A failed answer (the requester
  stopped waiting) changes nothing in the deduper, so a command is its key.
\<close>

fun dedup_service_run :: "Deduper \<Rightarrow> DedupKey list \<Rightarrow> bool list \<times> Deduper" where
  "dedup_service_run d [] = ([], d)"
| "dedup_service_run d (key # keys) =
     (let (was_added, d') = check_and_add d key;
          (answers, d'') = dedup_service_run d' keys
      in (was_added # answers, d''))"

section \<open>Invariant\<close>

definition dedup_inv :: "Deduper \<Rightarrow> bool" where
  "dedup_inv d \<longleftrightarrow>
     seen d = set (order d) \<and> distinct (order d) \<and> length (order d) \<le> max 1 (capacity d)"

lemma dedup_inv_new: "dedup_inv (deduper_new c)"
  by (simp add: dedup_inv_def deduper_new_def)

lemma capacity_evict_oldest [simp]: "capacity (evict_oldest d) = capacity d"
  by (simp add: evict_oldest_def split: list.split)

lemma capacity_add_key [simp]: "capacity (add_key d key) = capacity d"
  by (simp add: add_key_def Let_def)

lemma order_add_key:
  assumes "length (order d) \<le> max 1 (capacity d)"
  shows "order (add_key d key) = lastn (max 1 (capacity d)) (order d @ [key])"
proof (cases "capacity d \<le> length (order d)")
  case False
  then show ?thesis by (simp add: add_key_def evict_oldest_def Let_def)
next
  case True
  show ?thesis
  proof (cases "order d")
    case Nil
    with True show ?thesis by (simp add: add_key_def evict_oldest_def Let_def)
  next
    case (Cons oldest rest)
    with True assms have "length (order d) = max 1 (capacity d)" by auto
    with Cons True show ?thesis
      using lastn_snoc_full [of "order d" "max 1 (capacity d)" key]
      by (simp add: add_key_def evict_oldest_def Let_def)
  qed
qed

lemma evict_oldest_inv:
  assumes "dedup_inv d"
  shows "seen (evict_oldest d) = set (order (evict_oldest d))
    \<and> distinct (order (evict_oldest d))
    \<and> set (order (evict_oldest d)) \<subseteq> set (order d)"
proof (cases "capacity d \<le> length (order d) \<and> order d \<noteq> []")
  case False
  then have "evict_oldest d = d"
    by (auto simp: evict_oldest_def)
  with assms show ?thesis by (simp add: dedup_inv_def)
next
  case True
  then obtain oldest rest where ord: "order d = oldest # rest"
    by (auto simp: neq_Nil_conv)
  with True have "evict_oldest d = d\<lparr>seen := seen d - {oldest}, order := rest\<rparr>"
    by (simp add: evict_oldest_def)
  moreover have "seen d = insert oldest (set rest)" "oldest \<notin> set rest" "distinct rest"
    using assms ord by (simp_all add: dedup_inv_def)
  ultimately show ?thesis using ord by auto
qed

lemma dedup_inv_add_key:
  assumes "dedup_inv d" and "key \<notin> seen d"
  shows "dedup_inv (add_key d key)"
proof -
  have "length (order (add_key d key)) \<le> max 1 (capacity d)"
    using assms(1) by (simp add: dedup_inv_def order_add_key)
  moreover have "key \<notin> set (order (evict_oldest d))"
    using assms evict_oldest_inv by (auto simp: dedup_inv_def)
  ultimately show ?thesis
    using evict_oldest_inv [OF assms(1)] by (simp add: dedup_inv_def add_key_def Let_def)
qed

lemma dedup_inv_check_and_add: "dedup_inv d \<Longrightarrow> dedup_inv (snd (check_and_add d key))"
  by (simp add: check_and_add_def dedup_inv_add_key)

interpretation dedup: sliding_window add_key order
    "\<lambda>d. capacity d = c \<and> length (order d) \<le> max 1 c" "max 1 c" for c
  by unfold_locales (simp_all add: order_add_key)

section \<open>The cache as the recent part of the accepted keys\<close>

fun accepted :: "bool list \<Rightarrow> DedupKey list \<Rightarrow> DedupKey list" where
  "accepted (True # as) (k # ks) = k # accepted as ks"
| "accepted (False # as) (k # ks) = accepted as ks"
| "accepted _ _ = []"

lemma length_dedup_service_run [simp]: "length (fst (dedup_service_run d keys)) = length keys"
  by (induction keys arbitrary: d) (simp_all add: split_beta Let_def)

lemma capacity_dedup_service_run [simp]: "capacity (snd (dedup_service_run d keys)) = capacity d"
  by (induction keys arbitrary: d) (simp_all add: split_beta Let_def check_and_add_def)

lemma dedup_inv_run: "dedup_inv d \<Longrightarrow> dedup_inv (snd (dedup_service_run d keys))"
  by (induction keys arbitrary: d) (simp_all add: split_beta Let_def dedup_inv_check_and_add)

lemma dedup_run_as_pushes:
  "snd (dedup_service_run d keys) =
     fold (\<lambda>k d. add_key d k) (accepted (fst (dedup_service_run d keys)) keys) d"
  by (induction keys arbitrary: d) (simp_all add: split_beta Let_def check_and_add_def)

lemma order_dedup_run:
  "order (snd (dedup_service_run (deduper_new c) keys)) =
     lastn (max 1 c) (accepted (fst (dedup_service_run (deduper_new c) keys)) keys)"
proof -
  have "order (fold (\<lambda>k d. add_key d k) ks (deduper_new c)) = lastn (max 1 c) ks" for ks
    using dedup.window_pushes [of "deduper_new c" c ks] by (simp add: deduper_new_def)
  then show ?thesis by (subst dedup_run_as_pushes)
qed

section \<open>Properties\<close>

text \<open>
  C5. Deduplication. In any sequence of requests served from a fresh deduper, a key is answered
  \<open>true\<close> (the span is new) exactly when it is not among the last \<open>max 1 capacity\<close> keys
  answered \<open>true\<close> before it.
\<close>

theorem dedup_answers_recent:
  fixes c :: nat and keys :: "DedupKey list" and key :: DedupKey
  defines "d \<equiv> snd (dedup_service_run (deduper_new c) keys)"
    and "log \<equiv> accepted (fst (dedup_service_run (deduper_new c) keys)) keys"
  shows "fst (check_and_add d key) \<longleftrightarrow> key \<notin> set (lastn (max 1 c) log)"
proof -
  have "seen d = set (order d)"
    using dedup_inv_run [OF dedup_inv_new] by (simp add: d_def dedup_inv_def)
  then show ?thesis
    by (simp add: check_and_add_def d_def log_def order_dedup_run)
qed

text \<open>
  The cache stays consistent and bounded: whatever is requested, the set and the queue hold
  the same keys, each once, and never more than \<open>max 1 capacity\<close> of them.
\<close>

theorem dedup_cache_bounded:
  "dedup_inv (snd (dedup_service_run (deduper_new c) keys))
   \<and> card (seen (snd (dedup_service_run (deduper_new c) keys))) \<le> max 1 c"
proof -
  let ?d = "snd (dedup_service_run (deduper_new c) keys)"
  have inv: "dedup_inv ?d"
    by (rule dedup_inv_run) (rule dedup_inv_new)
  have "capacity ?d = c"
    by (simp add: deduper_new_def)
  with inv have "length (order ?d) \<le> max 1 c" and "card (seen ?d) \<le> length (order ?d)"
    by (auto simp: dedup_inv_def card_length)
  with inv show ?thesis by linarith
qed

end
