(* ===== verification/Batching.thy ===== *)
theory Batching
  imports Prelude
begin

text \<open>
  The interface of the batching aggregators. An aggregator is a FIFO queue from which
  \<open>get_batch\<close> cuts a prefix and renders it as one batch. The aggregator services
  (\<open>logs/aggregator_service.rs\<close>, \<open>traces/trace_aggregator_service.rs\<close>) answer a flush by calling
  \<open>get_batch\<close> until a batch comes back empty. The locale \<open>batcher\<close> states what every aggregator
  promises of one call; the locale \<open>live_batcher\<close> adds that a call on a non-empty queue makes
  progress. The flush loop is proved to end, to lose nothing and to reorder nothing for every
  \<open>batcher\<close>, and to empty the queue for every \<open>live_batcher\<close>.
\<close>

section \<open>The flush loop\<close>

partial_function (option) drain_batches ::
    "('s \<Rightarrow> 'b \<times> 's) \<Rightarrow> ('b \<Rightarrow> bool) \<Rightarrow> 's \<Rightarrow> ('b list \<times> 's) option" where
  "drain_batches get_batch is_empty s =
     (let b = fst (get_batch s); s' = snd (get_batch s)
      in if is_empty b then Some ([], s')
         else Option.bind (drain_batches get_batch is_empty s')
                (\<lambda>r. Some (b # fst r, snd r)))"

lemma drain_batches_empty:
  "is_empty (fst (get_batch s)) \<Longrightarrow>
     drain_batches get_batch is_empty s = Some ([], snd (get_batch s))"
  by (subst drain_batches.simps) simp

lemma drain_batches_step:
  assumes "\<not> is_empty (fst (get_batch s))"
    and "drain_batches get_batch is_empty (snd (get_batch s)) = Some (bs, s'')"
  shows "drain_batches get_batch is_empty s = Some (fst (get_batch s) # bs, s'')"
  using assms by (subst drain_batches.simps) simp

section \<open>What an aggregator promises\<close>

locale batcher =
  fixes get_batch :: "'s \<Rightarrow> 'b \<times> 's"
    and is_empty :: "'b \<Rightarrow> bool"
    and render :: "'a list \<Rightarrow> 'b"
    and pending :: "'s \<Rightarrow> 'a list"
    and inv :: "'s \<Rightarrow> bool"
    and ok :: "'a list \<Rightarrow> bool"
  assumes inv_get_batch: "inv s \<Longrightarrow> inv (snd (get_batch s))"
    and batch_is_prefix: "inv s \<Longrightarrow>
      \<exists>xs. fst (get_batch s) = render xs \<and> xs @ pending (snd (get_batch s)) = pending s \<and> ok xs"
    and empty_render: "is_empty (render xs) \<longleftrightarrow> xs = []"
begin

lemma drain_conserves:
  assumes "inv s"
  shows "\<exists>gs s'. drain_batches get_batch is_empty s = Some (map render gs, s') \<and> inv s'
    \<and> concat gs @ pending s' = pending s \<and> (\<forall>g \<in> set gs. g \<noteq> [] \<and> ok g)
    \<and> (\<exists>t. inv t \<and> pending t = pending s' \<and> fst (get_batch t) = render [])"
  using assms
proof (induction "length (pending s)" arbitrary: s rule: less_induct)
  case less
  let ?s' = "snd (get_batch s)"
  have inv': "inv ?s'"
    using less.prems by (rule inv_get_batch)
  obtain xs where xs: "fst (get_batch s) = render xs" "xs @ pending ?s' = pending s" "ok xs"
    using batch_is_prefix [OF less.prems] by blast
  show ?case
  proof (cases "xs = []")
    case True
    with xs have "drain_batches get_batch is_empty s = Some (map render [], ?s')"
      by (simp add: drain_batches_empty empty_render)
    moreover have "concat [] @ pending ?s' = pending s" "\<forall>g \<in> set []. g \<noteq> [] \<and> ok g"
      "fst (get_batch s) = render []" "pending s = pending ?s'"
      using True xs by simp_all
    ultimately show ?thesis using inv' less.prems by blast
  next
    case False
    with xs have "length (pending ?s') < length (pending s)"
      by (metis append_eq_append_conv2 append_self_conv2 length_append less_add_same_cancel2
          length_greater_0_conv)
    from less.hyps [OF this inv'] obtain gs s'' where
      rec: "drain_batches get_batch is_empty ?s' = Some (map render gs, s'')" "inv s''"
        "concat gs @ pending s'' = pending ?s'" "\<forall>g \<in> set gs. g \<noteq> [] \<and> ok g"
        "\<exists>t. inv t \<and> pending t = pending s'' \<and> fst (get_batch t) = render []"
      by blast
    have "drain_batches get_batch is_empty s = Some (map render (xs # gs), s'')"
      using drain_batches_step [OF _ rec(1)] False xs(1) by (simp add: empty_render)
    moreover have "concat (xs # gs) @ pending s'' = pending s"
      using rec(3) xs(2) by simp
    moreover have "\<forall>g \<in> set (xs # gs). g \<noteq> [] \<and> ok g"
      using rec(4) xs(3) False by simp
    ultimately show ?thesis using rec by blast
  qed
qed

end

locale live_batcher = batcher +
  assumes get_batch_progress: "inv s \<Longrightarrow> pending s \<noteq> [] \<Longrightarrow> fst (get_batch s) \<noteq> render []"
begin

lemma drain_delivers_all:
  assumes "inv s"
  shows "\<exists>gs s'. drain_batches get_batch is_empty s = Some (map render gs, s') \<and> inv s'
    \<and> concat gs = pending s \<and> pending s' = [] \<and> (\<forall>g \<in> set gs. g \<noteq> [] \<and> ok g)"
proof -
  obtain gs s' t where r: "drain_batches get_batch is_empty s = Some (map render gs, s')" "inv s'"
      "concat gs @ pending s' = pending s" "\<forall>g \<in> set gs. g \<noteq> [] \<and> ok g" "inv t" "pending t = pending s'"
      "fst (get_batch t) = render []"
    using drain_conserves [OF assms] by blast
  with get_batch_progress have "pending s' = []" by metis
  with r show ?thesis by auto
qed

end

end
