(* ===== verification/Aggregators.thy ===== *)
theory Aggregators
  imports Batching
begin

text \<open>
  The aggregators of the trace side: \<open>bottlecap/src/traces/trace_aggregator.rs\<close> with its service
  \<open>trace_aggregator_service.rs\<close>, \<open>proxy_aggregator.rs\<close> and \<open>stats_aggregator.rs\<close>. Types of the
  trace library that the aggregators only store (\<open>SendDataBuilder\<close>, \<open>ClientStatsPayload\<close>, header
  maps) are type parameters. The answer of the stats concentrator is an argument of the stats
  aggregator's \<open>get_batch\<close>.
\<close>

section \<open>Trace aggregator\<close>

record 'g OwnedTracerHeaderTags =
  lang :: string
  lang_version :: string
  lang_interpreter :: string
  lang_vendor :: string
  tracer_version :: string
  container_id :: string
  generic :: 'g

record ('b, 'g) SendDataBuilderInfo =
  builder :: 'b
  payload_size :: nat
  header_tags :: "'g OwnedTracerHeaderTags"

record ('b, 'g) TraceAggregator =
  ta_queue :: "('b, 'g) SendDataBuilderInfo list"
  ta_max_content_size_bytes :: nat
  ta_buffer :: "('b, 'g) SendDataBuilderInfo list"

definition TRACE_MAX_CONTENT_SIZE_BYTES :: nat where
  "TRACE_MAX_CONTENT_SIZE_BYTES = 12000000"

definition ta_new :: "nat \<Rightarrow> ('b, 'g) TraceAggregator" where
  "ta_new m = \<lparr>ta_queue = [], ta_max_content_size_bytes = m, ta_buffer = []\<rparr>"

definition ta_add ::
    "('b, 'g) TraceAggregator \<Rightarrow> ('b, 'g) SendDataBuilderInfo \<Rightarrow> ('b, 'g) TraceAggregator" where
  "ta_add ta p = ta\<lparr>ta_queue := ta_queue ta @ [p]\<rparr>"

text \<open>The loop of \<open>get_batch\<close>: the size so far, the queue and the buffer.\<close>

fun ta_fill ::
    "nat \<Rightarrow> nat \<Rightarrow> ('b, 'g) SendDataBuilderInfo list \<Rightarrow> ('b, 'g) SendDataBuilderInfo list
      \<Rightarrow> ('b, 'g) SendDataBuilderInfo list \<times> ('b, 'g) SendDataBuilderInfo list" where
  "ta_fill m batch_size [] buffer = ([], buffer)"
| "ta_fill m batch_size (p # queue) buffer =
     (if \<not> batch_size < m then (p # queue, buffer)
      else if batch_size + payload_size p > m then
        (if buffer = [] then (queue, buffer @ [p]) else (p # queue, buffer))
      else ta_fill m (batch_size + payload_size p) queue (buffer @ [p]))"

definition ta_get_batch ::
    "('b, 'g) TraceAggregator \<Rightarrow> ('b, 'g) SendDataBuilderInfo list \<times> ('b, 'g) TraceAggregator" where
  "ta_get_batch ta =
     (let (queue, buffer) = ta_fill (ta_max_content_size_bytes ta) 0 (ta_queue ta) (ta_buffer ta)
      in (buffer, ta\<lparr>ta_queue := queue, ta_buffer := []\<rparr>))"

definition ta_clear :: "('b, 'g) TraceAggregator \<Rightarrow> ('b, 'g) TraceAggregator" where
  "ta_clear ta = ta\<lparr>ta_queue := []\<rparr>"

section \<open>Trace aggregator service\<close>

datatype ('b, 'g) TraceCommand =
    InsertPayload "('b, 'g) SendDataBuilderInfo"
  | TraceGetBatches
  | Clear
  | TraceShutdown

definition ta_get_batches ::
    "('b, 'g) TraceAggregator \<Rightarrow>
      (('b, 'g) SendDataBuilderInfo list list \<times> ('b, 'g) TraceAggregator) option" where
  "ta_get_batches = drain_batches ta_get_batch (\<lambda>b. b = [])"

text \<open>
  The service loop over the commands of its channel; the result collects the answers sent for the
  \<open>GetBatches\<close> commands. \<open>None\<close> would be an answer that is never produced. Whether the receiver
  of an answer still listens only decides if an error is logged.
\<close>

fun trace_service_run ::
    "('b, 'g) TraceAggregator \<Rightarrow> ('b, 'g) TraceCommand list \<Rightarrow>
      (('b, 'g) SendDataBuilderInfo list list list \<times> ('b, 'g) TraceAggregator) option" where
  "trace_service_run ta [] = Some ([], ta)"
| "trace_service_run ta (InsertPayload p # cs) = trace_service_run (ta_add ta p) cs"
| "trace_service_run ta (TraceGetBatches # cs) =
     Option.bind (ta_get_batches ta)
       (\<lambda>r. Option.bind (trace_service_run (snd r) cs) (\<lambda>r'. Some (fst r # fst r', snd r')))"
| "trace_service_run ta (Clear # cs) = trace_service_run (ta_clear ta) cs"
| "trace_service_run ta (TraceShutdown # cs) = Some ([], ta)"

section \<open>Proxy aggregator\<close>

record ('h, 'b) ProxyRequest =
  pr_headers :: 'h
  pr_body :: 'b
  target_url :: string

record ('h, 'b) ProxyAggregator =
  pa_queue :: "('h, 'b) ProxyRequest list"

definition pa_add ::
    "('h, 'b) ProxyAggregator \<Rightarrow> ('h, 'b) ProxyRequest \<Rightarrow> ('h, 'b) ProxyAggregator" where
  "pa_add pa r = pa\<lparr>pa_queue := pa_queue pa @ [r]\<rparr>"

definition pa_get_batch ::
    "('h, 'b) ProxyAggregator \<Rightarrow> ('h, 'b) ProxyRequest list \<times> ('h, 'b) ProxyAggregator" where
  "pa_get_batch pa = (pa_queue pa, pa\<lparr>pa_queue := []\<rparr>)"

definition pa_clear :: "('h, 'b) ProxyAggregator \<Rightarrow> ('h, 'b) ProxyAggregator" where
  "pa_clear pa = pa\<lparr>pa_queue := []\<rparr>"

section \<open>Stats aggregator\<close>

record 'p StatsAggregator =
  sa_queue :: "'p list"
  sa_max_content_size_bytes :: nat
  sa_buffer :: "'p list"

definition STATS_MAX_CONTENT_SIZE_BYTES :: nat where
  "STATS_MAX_CONTENT_SIZE_BYTES = 3 * 1024 * 1024"

definition sa_new :: "nat \<Rightarrow> 'p StatsAggregator" where
  "sa_new m = \<lparr>sa_queue = [], sa_max_content_size_bytes = m, sa_buffer = []\<rparr>"

definition sa_add :: "'p StatsAggregator \<Rightarrow> 'p \<Rightarrow> 'p StatsAggregator" where
  "sa_add sa p = sa\<lparr>sa_queue := sa_queue sa @ [p]\<rparr>"

text \<open>
  \<open>size_of_val(&payload)\<close> is the size of the struct \<open>ClientStatsPayload\<close>, a compile-time
  constant (\<open>sz\<close>) that does not depend on the strings and vectors the payload owns.
\<close>

fun sa_fill :: "nat \<Rightarrow> nat \<Rightarrow> nat \<Rightarrow> 'p list \<Rightarrow> 'p list \<Rightarrow> 'p list \<times> 'p list" where
  "sa_fill sz m batch_size [] buffer = ([], buffer)"
| "sa_fill sz m batch_size (p # queue) buffer =
     (if \<not> batch_size < m then (p # queue, buffer)
      else if batch_size + sz > m then (p # queue, buffer)
      else sa_fill sz m (batch_size + sz) queue (buffer @ [p]))"

definition sa_get_batch ::
    "nat \<Rightarrow> ('e + 'p option) \<Rightarrow> 'p StatsAggregator \<Rightarrow> 'p list \<times> 'p StatsAggregator" where
  "sa_get_batch sz flushed sa =
     (let queue = (case flushed of
                     Inr (Some stats) \<Rightarrow> sa_queue sa @ [stats]
                   | Inr None \<Rightarrow> sa_queue sa
                   | Inl e \<Rightarrow> sa_queue sa);
          (queue', buffer) = sa_fill sz (sa_max_content_size_bytes sa) 0 queue (sa_buffer sa)
      in (buffer, sa\<lparr>sa_queue := queue', sa_buffer := []\<rparr>))"

section \<open>Trace aggregator: laws\<close>

definition batch_bytes :: "('b, 'g) SendDataBuilderInfo list \<Rightarrow> nat" where
  "batch_bytes b = sum_list (map payload_size b)"

definition ta_inv :: "nat \<Rightarrow> ('b, 'g) TraceAggregator \<Rightarrow> bool" where
  "ta_inv m ta \<longleftrightarrow> ta_buffer ta = [] \<and> ta_max_content_size_bytes ta = m \<and> 0 < m"

definition trace_batch_ok :: "nat \<Rightarrow> ('b, 'g) SendDataBuilderInfo list \<Rightarrow> bool" where
  "trace_batch_ok m b \<longleftrightarrow> batch_bytes b \<le> m \<or> length b = 1"

lemma ta_fill_splits:
  assumes "ta_fill m n queue buffer = (queue', buffer')"
  shows "\<exists>xs. buffer' = buffer @ xs \<and> xs @ queue' = queue"
  using assms
proof (induction m n queue buffer rule: ta_fill.induct)
  case (2 m n p queue buffer)
  then show ?case
    by (auto split: if_splits)
qed auto

lemma ta_fill_size:
  assumes "ta_fill m n queue buffer = (queue', buffer')"
    and "n = batch_bytes buffer" and "n \<le> m"
  shows "trace_batch_ok m buffer'"
  using assms
proof (induction m n queue buffer rule: ta_fill.induct)
  case (1 m n buffer)
  then show ?case by (simp add: trace_batch_ok_def)
next
  case (2 m n p queue buffer)
  then show ?case
    by (auto simp: trace_batch_ok_def batch_bytes_def split: if_splits)
qed

lemma ta_fill_progress:
  assumes "0 < m" and "queue \<noteq> []"
  shows "snd (ta_fill m 0 queue []) \<noteq> []"
proof -
  obtain p rest where q: "queue = p # rest"
    using assms(2) by (cases queue) auto
  show ?thesis
  proof (cases "payload_size p > m")
    case True
    with q assms(1) show ?thesis by simp
  next
    case False
    obtain q' b' where fill: "ta_fill m (payload_size p) rest [p] = (q', b')"
      by (cases "ta_fill m (payload_size p) rest [p]")
    with ta_fill_splits [OF fill] have "b' \<noteq> []" by auto
    with q False assms(1) fill show ?thesis by simp
  qed
qed

interpretation traces: live_batcher ta_get_batch "\<lambda>b. b = []" "\<lambda>xs. xs" ta_queue "ta_inv m"
    "trace_batch_ok m" for m
proof unfold_locales
  fix ta :: "('a, 'b) TraceAggregator"
  assume inv: "ta_inv m ta"
  obtain q b where fill: "ta_fill (ta_max_content_size_bytes ta) 0 (ta_queue ta) (ta_buffer ta) = (q, b)"
    by (cases "ta_fill (ta_max_content_size_bytes ta) 0 (ta_queue ta) (ta_buffer ta)")
  then have get: "ta_get_batch ta = (b, ta\<lparr>ta_queue := q, ta_buffer := []\<rparr>)"
    by (simp add: ta_get_batch_def)
  from inv have fill': "ta_fill m 0 (ta_queue ta) [] = (q, b)"
    using fill by (simp add: ta_inv_def)
  show "ta_inv m (snd (ta_get_batch ta))"
    using inv by (simp add: get ta_inv_def)
  show "\<exists>xs. fst (ta_get_batch ta) = xs \<and> xs @ ta_queue (snd (ta_get_batch ta)) = ta_queue ta
      \<and> trace_batch_ok m xs"
    using ta_fill_splits [OF fill'] ta_fill_size [OF fill'] by (simp add: get batch_bytes_def)
  assume "ta_queue ta \<noteq> []"
  then show "fst (ta_get_batch ta) \<noteq> []"
    using ta_fill_progress [of m "ta_queue ta"] inv fill' by (simp add: get ta_inv_def)
qed simp

text \<open>
  What the service promises: a first-in first-out queue that an answer empties.
\<close>

fun fifo_run :: "('b, 'g) SendDataBuilderInfo list \<Rightarrow> ('b, 'g) TraceCommand list \<Rightarrow>
    ('b, 'g) SendDataBuilderInfo list list \<times> ('b, 'g) SendDataBuilderInfo list" where
  "fifo_run q [] = ([], q)"
| "fifo_run q (InsertPayload p # cs) = fifo_run (q @ [p]) cs"
| "fifo_run q (TraceGetBatches # cs) = (let (ans, q') = fifo_run [] cs in (q # ans, q'))"
| "fifo_run q (Clear # cs) = fifo_run [] cs"
| "fifo_run q (TraceShutdown # cs) = ([], q)"

lemma ta_inv_new: "0 < m \<Longrightarrow> ta_inv m (ta_new m)"
  by (simp add: ta_inv_def ta_new_def)

lemma ta_inv_add: "ta_inv m ta \<Longrightarrow> ta_inv m (ta_add ta p)"
  by (simp add: ta_inv_def ta_add_def)

lemma ta_inv_clear: "ta_inv m ta \<Longrightarrow> ta_inv m (ta_clear ta)"
  by (simp add: ta_inv_def ta_clear_def)

lemma ta_get_batches_drains:
  assumes "ta_inv m ta"
  obtains gs ta' where "ta_get_batches ta = Some (gs, ta')" "ta_inv m ta'" "concat gs = ta_queue ta"
    "ta_queue ta' = []" "\<forall>g \<in> set gs. trace_batch_ok m g"
  using traces.drain_delivers_all [OF assms] by (auto simp: ta_get_batches_def)

lemma trace_service_simulates:
  assumes "ta_inv m ta"
  shows "\<exists>answers ta'. trace_service_run ta cs = Some (answers, ta') \<and> ta_inv m ta'
    \<and> fifo_run (ta_queue ta) cs = (map concat answers, ta_queue ta')
    \<and> (\<forall>batches \<in> set answers. \<forall>g \<in> set batches. trace_batch_ok m g)"
  using assms
proof (induction ta cs rule: trace_service_run.induct)
  case (1 ta)
  then show ?case by simp
next
  case (2 ta p cs)
  then show ?case
    using ta_inv_add [of m ta p] by (auto simp: ta_add_def)
next
  case (3 ta cs)
  from 3(2) obtain gs ta' where get: "ta_get_batches ta = Some (gs, ta')" "ta_inv m ta'"
      "concat gs = ta_queue ta" "ta_queue ta' = []" "\<forall>g \<in> set gs. trace_batch_ok m g"
    by (rule ta_get_batches_drains)
  with 3(1) [of "(gs, ta')"] obtain answers ta'' where
    "trace_service_run ta' cs = Some (answers, ta'')" "ta_inv m ta''"
    "fifo_run [] cs = (map concat answers, ta_queue ta'')"
    "\<forall>batches \<in> set answers. \<forall>g \<in> set batches. trace_batch_ok m g"
    by auto
  with get show ?case by (auto intro!: exI [of _ "gs # answers"])
next
  case (4 ta cs)
  then show ?case
    using ta_inv_clear [of m ta] by (auto simp: ta_clear_def)
next
  case (5 ta cs)
  then show ?case by simp
qed

text \<open>
  C1. The trace aggregator service refines a first-in first-out queue: for every sequence of
  commands it answers every \<open>GetBatches\<close>, the concatenation of the batches of each answer is
  exactly what was inserted and neither delivered nor cleared before, in insertion order, and every
  batch is within the size cap unless it is a single oversized payload. The service never gets
  stuck on an oversized payload.
\<close>

theorem trace_service_refines_fifo:
  assumes "0 < m"
  shows "\<exists>answers ta'. trace_service_run (ta_new m) cs = Some (answers, ta')
    \<and> fifo_run [] cs = (map concat answers, ta_queue ta')
    \<and> (\<forall>batches \<in> set answers. \<forall>g \<in> set batches. batch_bytes g \<le> m \<or> length g = 1)"
proof -
  have "ta_inv m (ta_new m)" using assms by (rule ta_inv_new)
  from trace_service_simulates [OF this, of cs] show ?thesis
    by (auto simp: trace_batch_ok_def ta_new_def)
qed

definition sample_payload :: "nat \<Rightarrow> (unit, unit) SendDataBuilderInfo" where
  "sample_payload n = \<lparr>builder = (), payload_size = n,
     header_tags = \<lparr>lang = [], lang_version = [], lang_interpreter = [], lang_vendor = [],
       tracer_version = [], container_id = [], generic = ()\<rparr>\<rparr>"

theorem trace_service_refines_fifo_witness:
  "0 < (10::nat) \<and> (\<exists>answers ta'.
      trace_service_run (ta_new 10)
        [InsertPayload (sample_payload 4), InsertPayload (sample_payload 90),
         InsertPayload (sample_payload 5), TraceGetBatches] = Some (answers, ta')
      \<and> map concat answers = [[sample_payload 4, sample_payload 90, sample_payload 5]]
      \<and> ta_queue ta' = [])"
proof -
  let ?cs = "[InsertPayload (sample_payload 4), InsertPayload (sample_payload 90),
    InsertPayload (sample_payload 5), TraceGetBatches]"
  obtain answers ta' where "trace_service_run (ta_new 10) ?cs = Some (answers, ta')"
    "fifo_run [] ?cs = (map concat answers, ta_queue ta')"
    using trace_service_refines_fifo [of 10 ?cs] by auto
  then show ?thesis by auto
qed

section \<open>Proxy aggregator: laws\<close>

interpretation proxied: live_batcher pa_get_batch "\<lambda>b. b = []" "\<lambda>xs. xs" pa_queue "\<lambda>pa. True"
    "\<lambda>b. True"
  by unfold_locales (auto simp: pa_get_batch_def)

lemma pa_get_batch_empties [simp]:
  "fst (pa_get_batch pa) = pa_queue pa" "pa_queue (snd (pa_get_batch pa)) = []"
  by (simp_all add: pa_get_batch_def)

section \<open>Stats aggregator: laws\<close>

lemma sa_fill_take:
  assumes "0 < sz" and "k * sz \<le> m"
  shows "sa_fill sz m (k * sz) queue buffer
    = (drop (m div sz - k) queue, buffer @ take (m div sz - k) queue)"
  using assms(2)
proof (induction queue arbitrary: k buffer)
  case Nil
  then show ?case by simp
next
  case (Cons p queue)
  have k: "k \<le> m div sz"
    using Cons.prems assms(1) by (simp add: less_eq_div_iff_mult_less_eq)
  show ?case
  proof (cases "k * sz + sz > m")
    case True
    then have "m div sz < Suc k"
      using assms(1) by (simp add: div_less_iff_less_mult)
    with k have "m div sz = k" by simp
    with True show ?thesis by simp
  next
    case False
    then have "Suc k * sz \<le> m" by simp
    moreover from this have "Suc k \<le> m div sz"
      using assms(1) by (simp only: less_eq_div_iff_mult_less_eq)
    then have "m div sz - k = Suc (m div sz - Suc k)" by simp
    ultimately show ?thesis
      using Cons.IH [of "Suc k" "buffer @ [p]"] False assms(1) by (simp add: add.commute)
  qed
qed

text \<open>
  A stats batch is the first \<open>max div size_of(ClientStatsPayload)\<close> payloads of the queue,
  the concentrator's answer included, whatever the payloads contain: the content-size cap is a cap
  on the number of payloads. What is not in the batch stays queued in order.
\<close>

theorem stats_batch_counts_payloads:
  assumes "0 < sz" and "sa_buffer sa = []"
    and "queue = sa_queue sa @ (case flushed of Inr (Some stats) \<Rightarrow> [stats] | _ \<Rightarrow> [])"
  shows "sa_get_batch sz flushed sa
    = (take (sa_max_content_size_bytes sa div sz) queue,
       sa\<lparr>sa_queue := drop (sa_max_content_size_bytes sa div sz) queue\<rparr>)"
proof -
  have "(case flushed of Inr (Some stats) \<Rightarrow> sa_queue sa @ [stats] | Inr None \<Rightarrow> sa_queue sa
      | Inl e \<Rightarrow> sa_queue sa) = queue"
    using assms(3) by (simp split: sum.split option.split)
  then show ?thesis
    using sa_fill_take [of sz 0 "sa_max_content_size_bytes sa" queue "[]"] assms(1,2)
    by (simp add: sa_get_batch_def Let_def)
qed

theorem stats_batch_counts_payloads_witness:
  "sa_get_batch 352 (Inr (Some ''c'') :: nat + string option)
     (sa_add (sa_add (sa_new 704) ''a'') ''b'')
   = ([''a'', ''b''], (sa_new 704)\<lparr>sa_queue := [''c'']\<rparr>)"
proof -
  let ?sa = "sa_add (sa_add (sa_new 704) ''a'') ''b''"
  have "sa_get_batch 352 (Inr (Some ''c'') :: nat + string option) ?sa
     = (take (sa_max_content_size_bytes ?sa div 352) [''a'', ''b'', ''c''],
        ?sa\<lparr>sa_queue := drop (sa_max_content_size_bytes ?sa div 352) [''a'', ''b'', ''c'']\<rparr>)"
    by (rule stats_batch_counts_payloads) (simp_all add: sa_add_def sa_new_def)
  then show ?thesis by (simp add: sa_add_def sa_new_def)
qed

end
