(* ===== verification/LogsAggregator.thy ===== *)
theory LogsAggregator
  imports Batching
begin

text \<open>
  The logs aggregator, \<open>bottlecap/src/logs/aggregator.rs\<close>, and its service,
  \<open>bottlecap/src/logs/aggregator_service.rs\<close>. A log is a serialised JSON object; only its bytes
  matter here, so logs and batches are byte lists.
\<close>

section \<open>Data and operations\<close>

definition LOGS_MAX_CONTENT_SIZE_BYTES :: nat where
  "LOGS_MAX_CONTENT_SIZE_BYTES = 5 * 1024 * 1024"

definition MAX_LOG_SIZE_BYTES :: nat where
  "MAX_LOG_SIZE_BYTES = 1024 * 1024"

definition MAX_BATCH_ENTRIES_SIZE :: nat where
  "MAX_BATCH_ENTRIES_SIZE = 1000"

record LogsAggregator =
  messages :: "bytes list"
  max_batch_entries_size :: nat
  la_max_content_size_bytes :: nat
  max_log_size_bytes :: nat
  la_buffer :: bytes

definition la_new :: "nat \<Rightarrow> nat \<Rightarrow> nat \<Rightarrow> LogsAggregator" where
  "la_new entries content log_size =
     \<lparr>messages = [], max_batch_entries_size = entries, la_max_content_size_bytes = content,
      max_log_size_bytes = log_size, la_buffer = []\<rparr>"

definition la_default :: LogsAggregator where
  "la_default = la_new MAX_BATCH_ENTRIES_SIZE LOGS_MAX_CONTENT_SIZE_BYTES MAX_LOG_SIZE_BYTES"

fun la_add_batch :: "LogsAggregator \<Rightarrow> bytes list \<Rightarrow> LogsAggregator" where
  "la_add_batch la [] = la"
| "la_add_batch la (log # logs) = la_add_batch (la\<lparr>messages := messages la @ [log]\<rparr>) logs"

text \<open>
  The \<open>for\<close> loop of \<open>get_batch\<close>: the entries still allowed, the messages and the buffer. The bytes
  91, 44 and 93 are the opening bracket, the comma and the closing bracket.
\<close>

fun la_fill :: "nat \<Rightarrow> nat \<Rightarrow> bytes list \<Rightarrow> bytes \<Rightarrow> bytes list \<times> bytes" where
  "la_fill m 0 msgs buffer = (msgs, buffer)"
| "la_fill m (Suc n) [] buffer = ([], buffer)"
| "la_fill m (Suc n) (log # msgs) buffer =
     (if length buffer + length log > m then (log # msgs, buffer)
      else la_fill m n msgs (buffer @ log @ [44]))"

definition la_get_batch :: "LogsAggregator \<Rightarrow> bytes \<times> LogsAggregator" where
  "la_get_batch la =
     (let (msgs, buffer) = la_fill (la_max_content_size_bytes la) (max_batch_entries_size la)
                             (messages la) (la_buffer la @ [91]);
          buffer = (if length buffer > 1 then butlast buffer @ [93] else butlast buffer)
      in (buffer, la\<lparr>messages := msgs, la_buffer := []\<rparr>))"

datatype LogsCommand =
    InsertBatch "bytes list"
  | LogsGetBatches
  | LogsShutdown

definition la_get_batches :: "LogsAggregator \<Rightarrow> (bytes list \<times> LogsAggregator) option" where
  "la_get_batches = drain_batches la_get_batch (\<lambda>b. b = [])"

fun logs_service_run ::
    "LogsAggregator \<Rightarrow> LogsCommand list \<Rightarrow> (bytes list list \<times> LogsAggregator) option" where
  "logs_service_run la [] = Some ([], la)"
| "logs_service_run la (InsertBatch logs # cs) = logs_service_run (la_add_batch la logs) cs"
| "logs_service_run la (LogsGetBatches # cs) =
     Option.bind (la_get_batches la)
       (\<lambda>r. Option.bind (logs_service_run (snd r) cs) (\<lambda>r'. Some (fst r # fst r', snd r')))"
| "logs_service_run la (LogsShutdown # cs) = Some ([], la)"

section \<open>Laws\<close>

text \<open>The JSON array of a list of logs; no logs give no bytes at all.\<close>

fun commas :: "bytes list \<Rightarrow> bytes" where
  "commas [] = []"
| "commas [log] = log"
| "commas (log # logs) = log @ [44] @ commas logs"

definition json_array :: "bytes list \<Rightarrow> bytes" where
  "json_array logs = (if logs = [] then [] else [91] @ commas logs @ [93])"

definition fits :: "nat \<Rightarrow> bytes \<Rightarrow> bool" where
  "fits m log \<longleftrightarrow> Suc (length log) \<le> m"

definition la_inv :: "nat \<Rightarrow> nat \<Rightarrow> LogsAggregator \<Rightarrow> bool" where
  "la_inv entries m la \<longleftrightarrow> la_buffer la = [] \<and> max_batch_entries_size la = entries
     \<and> la_max_content_size_bytes la = m"

definition logs_batch_ok :: "nat \<Rightarrow> nat \<Rightarrow> bytes list \<Rightarrow> bool" where
  "logs_batch_ok entries m g \<longleftrightarrow> length g \<le> entries \<and> length (json_array g) \<le> Suc m"

lemma commas_terminated: "logs \<noteq> [] \<Longrightarrow> concat (map (\<lambda>l. l @ [44]) logs) = commas logs @ [44]"
  by (induction logs rule: commas.induct) auto

lemma length_commas_ge: "log \<in> set logs \<Longrightarrow> length log \<le> length (commas logs)"
  by (induction logs rule: commas.induct) auto

lemma la_fill_splits:
  assumes "la_fill m n msgs buffer = (msgs', buffer')"
  shows "\<exists>xs. buffer' = buffer @ concat (map (\<lambda>l. l @ [44]) xs) \<and> xs @ msgs' = msgs \<and> length xs \<le> n
    \<and> (xs = [] \<or> length buffer' \<le> Suc m)"
  using assms
proof (induction m n msgs buffer rule: la_fill.induct)
  case (3 m n log msgs buffer)
  show ?case
  proof (cases "length buffer + length log > m")
    case True
    with 3(2) show ?thesis by (intro exI [of _ "[]"]) simp
  next
    case False
    with 3(2) have "la_fill m n msgs (buffer @ log @ [44]) = (msgs', buffer')" by simp
    from 3(1) [OF False this] obtain xs where xs:
      "buffer' = (buffer @ log @ [44]) @ concat (map (\<lambda>l. l @ [44]) xs)" "xs @ msgs' = msgs"
      "length xs \<le> n" "xs = [] \<or> length buffer' \<le> Suc m"
      by blast
    then have "length buffer' \<le> Suc m"
      using False by (cases "xs = []") simp_all
    with xs(1-3) show ?thesis
      by (intro exI [of _ "log # xs"]) simp
  qed
qed auto

lemma la_fill_progress:
  assumes "fits m log" and "0 < n"
  shows "fst (la_fill m n (log # msgs) [91]) \<noteq> log # msgs"
proof -
  obtain k where k: "n = Suc k" using assms(2) by (cases n) auto
  obtain ms b where fill: "la_fill m k msgs ([91] @ log @ [44]) = (ms, b)"
    by (cases "la_fill m k msgs ([91] @ log @ [44])")
  from la_fill_splits [OF fill] have "length ms \<le> length msgs" by auto
  moreover have "fst (la_fill m n (log # msgs) [91]) = ms"
    using fill k assms(1) by (simp add: fits_def)
  ultimately show ?thesis by auto
qed

lemma la_get_batch_prefix:
  assumes "la_inv entries m la"
  shows "\<exists>xs. fst (la_get_batch la) = json_array xs
    \<and> xs @ messages (snd (la_get_batch la)) = messages la \<and> logs_batch_ok entries m xs"
proof -
  obtain ms b where fill: "la_fill m entries (messages la) [91] = (ms, b)"
    by (cases "la_fill m entries (messages la) [91]")
  from la_fill_splits [OF this] obtain xs where xs:
    "b = [91] @ concat (map (\<lambda>l. l @ [44]) xs)" "xs @ ms = messages la" "length xs \<le> entries"
    "xs = [] \<or> length b \<le> Suc m"
    by auto
  have get: "la_get_batch la = (if length b > 1 then butlast b @ [93] else butlast b,
      la\<lparr>messages := ms, la_buffer := []\<rparr>)"
    using assms fill by (simp add: la_get_batch_def la_inv_def)
  have "(if length b > 1 then butlast b @ [93] else butlast b) = json_array xs"
  proof (cases "xs = []")
    case True
    with xs(1) show ?thesis by (simp add: json_array_def)
  next
    case False
    then have "b = [91] @ commas xs @ [44]"
      using xs(1) commas_terminated [OF False] by simp
    with False show ?thesis by (simp add: json_array_def butlast_append)
  qed
  moreover have "length (json_array xs) \<le> Suc m"
    using xs(1,4) commas_terminated [of xs] by (auto simp: json_array_def)
  ultimately show ?thesis
    using xs(2,3) by (auto simp: get logs_batch_ok_def)
qed

interpretation logs: batcher la_get_batch "\<lambda>b. b = []" json_array messages "la_inv entries m"
    "logs_batch_ok entries m" for entries m
proof unfold_locales
  fix la
  assume inv: "la_inv entries m la"
  then show "la_inv entries m (snd (la_get_batch la))"
    by (simp add: la_get_batch_def la_inv_def Let_def split: prod.split)
  from inv show "\<exists>xs. fst (la_get_batch la) = json_array xs
    \<and> xs @ messages (snd (la_get_batch la)) = messages la \<and> logs_batch_ok entries m xs"
    by (rule la_get_batch_prefix)
qed (simp add: json_array_def)

lemma la_get_batch_stops:
  assumes "la_inv entries m la" and "fst (la_get_batch la) = []" and "0 < entries"
  shows "messages la = [] \<or> \<not> fits m (hd (messages la))"
proof (rule ccontr)
  assume "\<not> ?thesis"
  then obtain log msgs where m: "messages la = log # msgs" "fits m log"
    by (cases "messages la") auto
  obtain xs where xs: "fst (la_get_batch la) = json_array xs"
    "xs @ messages (snd (la_get_batch la)) = messages la"
    using la_get_batch_prefix [OF assms(1)] by blast
  with assms(2) have "messages (snd (la_get_batch la)) = messages la"
    by (simp add: json_array_def split: if_splits)
  moreover have "messages (snd (la_get_batch la)) = fst (la_fill m entries (messages la) [91])"
    using assms(1) by (simp add: la_get_batch_def la_inv_def Let_def split: prod.split)
  ultimately show False
    using la_fill_progress [OF m(2) assms(3)] m(1) by simp
qed

lemma ok_batch_fits:
  assumes "logs_batch_ok entries m g" and "log \<in> set g"
  shows "fits m log"
  using assms length_commas_ge [OF assms(2)]
  by (cases "g = []") (auto simp: logs_batch_ok_def json_array_def fits_def)

lemma takeWhile_prefix:
  assumes "xs @ ys = zs" and "\<forall>x \<in> set xs. P x" and "ys = [] \<or> \<not> P (hd ys)"
  shows "xs = takeWhile P zs \<and> ys = dropWhile P zs"
proof -
  have "takeWhile P ys = []" "dropWhile P ys = ys"
    using assms(3) by (cases ys; auto)+
  with assms(1,2) show ?thesis by auto
qed

lemma la_get_batches_exact:
  assumes "la_inv entries m la" and "0 < entries"
  shows "\<exists>gs la'. la_get_batches la = Some (map json_array gs, la') \<and> la_inv entries m la'
    \<and> concat gs = takeWhile (fits m) (messages la)
    \<and> messages la' = dropWhile (fits m) (messages la)
    \<and> (\<forall>g \<in> set gs. g \<noteq> [] \<and> logs_batch_ok entries m g)"
proof -
  obtain gs la' t where r: "la_get_batches la = Some (map json_array gs, la')" "la_inv entries m la'"
      "concat gs @ messages la' = messages la" "\<forall>g \<in> set gs. g \<noteq> [] \<and> logs_batch_ok entries m g"
      "la_inv entries m t" "messages t = messages la'" "fst (la_get_batch t) = json_array []"
    using logs.drain_conserves [OF assms(1)] by (auto simp: la_get_batches_def)
  have "messages la' = [] \<or> \<not> fits m (hd (messages la'))"
    using la_get_batch_stops [OF r(5) _ assms(2)] r(6,7) by (simp add: json_array_def)
  moreover have "\<forall>log \<in> set (concat gs). fits m log"
    using r(4) ok_batch_fits by auto
  ultimately have "concat gs = takeWhile (fits m) (messages la)
      \<and> messages la' = dropWhile (fits m) (messages la)"
    using takeWhile_prefix [OF r(3)] by blast
  with r(1,2,4) show ?thesis by blast
qed

section \<open>The service against its specification\<close>

text \<open>
  The specification: a first-in first-out queue whose answers stop at the first log that does not
  fit an empty batch.
\<close>

fun fitting_fifo_run :: "nat \<Rightarrow> bytes list \<Rightarrow> LogsCommand list \<Rightarrow> bytes list list \<times> bytes list" where
  "fitting_fifo_run m q [] = ([], q)"
| "fitting_fifo_run m q (InsertBatch logs # cs) = fitting_fifo_run m (q @ logs) cs"
| "fitting_fifo_run m q (LogsGetBatches # cs) =
     (let (ans, q') = fitting_fifo_run m (dropWhile (fits m) q) cs
      in (takeWhile (fits m) q # ans, q'))"
| "fitting_fifo_run m q (LogsShutdown # cs) = ([], q)"

lemma la_add_batch_eq: "la_add_batch la logs = la\<lparr>messages := messages la @ logs\<rparr>"
  by (induction la logs rule: la_add_batch.induct) simp_all

lemma la_inv_add_batch: "la_inv entries m la \<Longrightarrow> la_inv entries m (la_add_batch la logs)"
  by (simp add: la_inv_def la_add_batch_eq)

lemma la_inv_new: "la_inv entries m (la_new entries m sz)"
  by (simp add: la_inv_def la_new_def)

lemma logs_service_simulates:
  assumes "la_inv entries m la" and "0 < entries"
  shows "\<exists>answers la'. logs_service_run la cs = Some (map (map json_array) answers, la')
    \<and> fitting_fifo_run m (messages la) cs = (map concat answers, messages la')
    \<and> (\<forall>batches \<in> set answers. \<forall>g \<in> set batches. g \<noteq> [] \<and> logs_batch_ok entries m g)"
  using assms(1)
proof (induction la cs rule: logs_service_run.induct)
  case (1 la)
  then show ?case by simp
next
  case (2 la logs cs)
  then show ?case
    using la_inv_add_batch [of entries m la logs] by (auto simp: la_add_batch_eq)
next
  case (3 la cs)
  obtain gs la' where get: "la_get_batches la = Some (map json_array gs, la')" "la_inv entries m la'"
      "concat gs = takeWhile (fits m) (messages la)"
      "messages la' = dropWhile (fits m) (messages la)"
      "\<forall>g \<in> set gs. g \<noteq> [] \<and> logs_batch_ok entries m g"
    using la_get_batches_exact [OF 3(2) assms(2)] by blast
  with 3(1) [of "(map json_array gs, la')"] obtain answers la'' where
    "logs_service_run la' cs = Some (map (map json_array) answers, la'')"
    "fitting_fifo_run m (messages la') cs = (map concat answers, messages la'')"
    "\<forall>batches \<in> set answers. \<forall>g \<in> set batches. g \<noteq> [] \<and> logs_batch_ok entries m g"
    by auto
  with get show ?case by (intro exI [of _ "gs # answers"] exI [of _ la'']) auto
next
  case (4 la cs)
  then show ?case by simp
qed

lemma fitting_fifo_blocked:
  assumes "\<not> fits m big"
  shows "\<exists>k q'. fitting_fifo_run m (big # q) cs = (replicate k [], big # q')"
proof (induction cs arbitrary: q)
  case Nil
  then show ?case by (intro exI [of _ 0]) simp
next
  case (Cons c cs)
  show ?case
  proof (cases c)
    case LogsGetBatches
    from Cons.IH [of q] obtain k q' where
      "fitting_fifo_run m (big # q) cs = (replicate k [], big # q')" by blast
    with LogsGetBatches assms show ?thesis by (intro exI [of _ "Suc k"]) simp
  next
    case LogsShutdown
    then show ?thesis by (intro exI [of _ 0]) simp
  qed (use Cons.IH in simp)
qed



text \<open>
  C31. Head-of-line blocking: a log that does not fit an empty batch is put back at the front of the
  queue by every \<open>get_batch\<close>, so once it is at the front, every later answer of the service is empty
  whatever is inserted behind it, and nothing behind it is ever sent.
\<close>

theorem oversized_log_blocks_queue:
  assumes "0 < entries" and "m < length big + 1"
  shows "\<exists>k la' rest. logs_service_run (la_new entries m sz) (InsertBatch (big # logs) # cs)
      = Some (replicate k [], la') \<and> messages la' = big # rest"
proof -
  have "\<not> fits m big" using assms(2) by (simp add: fits_def)
  then obtain k q' where spec: "fitting_fifo_run m (big # logs) cs = (replicate k [], big # q')"
    using fitting_fifo_blocked by blast
  have inv: "la_inv entries m (la_add_batch (la_new entries m sz) (big # logs))"
    by (intro la_inv_add_batch la_inv_new)
  have msgs: "messages (la_add_batch (la_new entries m sz) (big # logs)) = big # logs"
    by (simp add: la_add_batch_eq la_new_def)
  from logs_service_simulates [OF inv assms(1), of cs] obtain answers la' where r:
    "logs_service_run (la_add_batch (la_new entries m sz) (big # logs)) cs
       = Some (map (map json_array) answers, la')"
    "fitting_fifo_run m (big # logs) cs = (map concat answers, messages la')"
    "\<forall>batches \<in> set answers. \<forall>g \<in> set batches. g \<noteq> []"
    unfolding msgs by blast
  from r(2) spec have c: "map concat answers = replicate k []" and q: "messages la' = big # q'"
    by simp_all
  have "batches = []" if "batches \<in> set answers" for batches
  proof -
    from that c have "concat batches = []"
      by (metis in_set_replicate image_eqI list.set_map)
    with r(3) that show ?thesis by (cases batches) auto
  qed
  then have "map (map json_array) answers = replicate (length answers) []"
    by (intro replicate_eqI) auto
  with r(1) q show ?thesis by auto
qed

theorem oversized_log_blocks_queue_witness:
  "\<exists>k la' rest. logs_service_run (la_new 2 4 4)
      [InsertBatch [[1, 2, 3, 4], [5]], LogsGetBatches, InsertBatch [[6]], LogsGetBatches]
    = Some (replicate k [], la') \<and> messages la' = [1, 2, 3, 4] # rest"
  by (rule oversized_log_blocks_queue) simp_all

text \<open>
  The content cap is exceeded by one byte in the extreme case: a log that together with the
  opening bracket fills the cap exactly gives a batch one byte longer than the cap.
\<close>

theorem logs_batch_one_byte_over:
  assumes "Suc (length log) = m" and "0 < entries"
  shows "fst (la_get_batch (la_add_batch (la_new entries m sz) [log])) = [91] @ log @ [93]
    \<and> length (fst (la_get_batch (la_add_batch (la_new entries m sz) [log]))) = Suc m"
proof -
  obtain k where "entries = Suc k" using assms(2) by (cases entries) auto
  with assms(1) show ?thesis
    by (cases k) (auto simp: la_get_batch_def la_new_def butlast_append)
qed

theorem logs_batch_one_byte_over_witness:
  "length (fst (la_get_batch (la_add_batch (la_new 1 4 4) [[7, 8, 9]]))) = 5"
  using logs_batch_one_byte_over [of "[7, 8, 9]" 4 1 4] by simp

end
