(* ===== verification/Stitch.thy ===== *)
theory Stitch
  imports Prelude "HOL-Library.Sublist"
begin

text \<open>
  The telemetry listener and the reassembly of telemetry payloads that hold a log record cut into
  pieces: \<open>bottlecap/src/extension/telemetry/stitch.rs\<close> and \<open>listener.rs\<close>. A byte is a \<open>char\<close>
  (256 values), so a body is a \<open>string\<close>. The two uses of \<open>serde_json::from_slice\<close> are parameters:
  \<open>pe\<close> parses a body as a list of telemetry events and classifies its error, \<open>pv\<close> parses a
  value that is then ignored (\<open>None\<close> is success, \<open>Some e\<close> the error with its position). Times are
  in nanoseconds; the clock readings of one call are one argument.
\<close>

section \<open>Constants and data\<close>

definition MAX_FRAGMENT_BYTES :: nat where
  "MAX_FRAGMENT_BYTES = 4 * 1024 * 1024"

definition FRAGMENT_TTL :: nat where
  "FRAGMENT_TTL = 1000000000"

definition RECORD_KEY :: string where
  "RECORD_KEY = ''\"record\":''"

definition FRAMING :: string where
  "FRAMING = ''}]''"

definition EVENT_START :: string where
  "EVENT_START = ''{\"time\":\"''"

definition PIECE_TYPES :: "string list" where
  "PIECE_TYPES = [''\"type\":\"function\",\"record\":'', ''\"type\":\"extension\",\"record\":'']"

definition MAX_ENVELOPE_BYTES :: nat where
  "MAX_ENVELOPE_BYTES = 128"

definition MAX_SEAMS :: nat where
  "MAX_SEAMS = 64"

datatype 'e Stitch = Complete 'e | Pending | Discarded

record Fragment =
  fragment_body :: string
  received :: nat

record Event =
  ev_envelope :: string
  ev_value :: string
  ev_kind :: "string option"

datatype Record = Whole | Cut | Broken

text \<open>What the sources read of a \<open>serde_json::Error\<close>, and the outcome of parsing a body.\<close>

record json_error =
  is_eof :: bool
  error_line :: nat
  error_column :: nat

datatype 'e parsed = Parsed 'e | DataError | OtherError

section \<open>Slices\<close>

definition strip_prefix :: "string \<Rightarrow> string \<Rightarrow> string option" where
  "strip_prefix p xs = (if prefix p xs then Some (drop (length p) xs) else None)"

definition strip_suffix :: "string \<Rightarrow> string \<Rightarrow> string option" where
  "strip_suffix p xs = (if suffix p xs then Some (take (length xs - length p) xs) else None)"

text \<open>The needles of the sources are never empty (\<open>windows(0)\<close> would panic).\<close>

fun find_bytes :: "string \<Rightarrow> string \<Rightarrow> nat option" where
  "find_bytes [] needle = None"
| "find_bytes (b # bs) needle =
     (if prefix needle (b # bs) then Some 0 else map_option Suc (find_bytes bs needle))"

section \<open>Events of a payload\<close>

definition envelope :: "string \<Rightarrow> (nat \<times> string option) option" where
  "envelope event =
     (let window = take (min (length event) MAX_ENVELOPE_BYTES) event
      in Option.bind (strip_prefix EVENT_START window) (\<lambda>fields.
         Option.bind (find_bytes fields RECORD_KEY) (\<lambda>i.
           let len = i + length RECORD_KEY;
               fields = take len fields
           in if list_ex (\<lambda>b. b = CHR ''{'' \<or> b = CHR ''}'') fields then None
              else Some (length EVENT_START + len, find (\<lambda>tail. suffix tail fields) PIECE_TYPES))))"

fun split_at_next_event :: "string \<Rightarrow> (string \<times> string) option" where
  "split_at_next_event [] = None"
| "split_at_next_event (b # bs) =
     (case Option.bind (strip_prefix ''},'' (b # bs))
             (\<lambda>next_ev. map_option (\<lambda>_. ([], next_ev)) (envelope next_ev)) of
        Some r \<Rightarrow> Some r
      | None \<Rightarrow> map_option (\<lambda>(val, next_ev). (b # val, next_ev)) (split_at_next_event bs))"

lemma split_at_next_event_splits:
  "split_at_next_event bs = Some (val, next_ev) \<Longrightarrow> bs = val @ ''},'' @ next_ev"
proof (induction bs arbitrary: val)
  case (Cons b bs)
  then show ?case
    by (fastforce simp: strip_prefix_def bind_eq_Some_conv prefix_def split: option.splits if_splits)
qed simp

function split_loop :: "string \<Rightarrow> Event list option" where
  "split_loop rest =
     (case envelope rest of
        None \<Rightarrow> None
      | Some ek \<Rightarrow>
          (case split_at_next_event (drop (fst ek) rest) of
             None \<Rightarrow> Some [\<lparr>ev_envelope = take (fst ek) rest, ev_value = drop (fst ek) rest,
                            ev_kind = snd ek\<rparr>]
           | Some vn \<Rightarrow>
               map_option ((#) \<lparr>ev_envelope = take (fst ek) rest, ev_value = fst vn,
                                ev_kind = snd ek\<rparr>)
                 (split_loop (snd vn))))"
  by pat_completeness auto
termination
proof (relation "measure length")
  fix rest ek vn
  assume "split_at_next_event (drop (fst ek) rest) = Some vn"
  then have "drop (fst ek) rest = fst vn @ ''},'' @ snd vn"
    using split_at_next_event_splits [of _ "fst vn" "snd vn"] by simp
  then have "length (snd vn) < length (drop (fst ek) rest)" by simp
  then show "(snd vn, rest) \<in> measure length" by simp
qed simp

declare split_loop.simps [simp del]

definition split_events :: "string \<Rightarrow> Event list option" where
  "split_events body =
     Option.bind (strip_prefix ''['' body) (\<lambda>r. Option.bind (strip_suffix FRAMING r) split_loop)"

definition push_event :: "string \<Rightarrow> string \<Rightarrow> string \<Rightarrow> string" where
  "push_event payload env val =
     payload @ [if payload = [] then CHR ''['' else CHR '',''] @ env @ val @ ''}''"

section \<open>Record values\<close>

definition error_offset :: "string \<Rightarrow> json_error \<Rightarrow> nat" where
  "error_offset body e =
     (let newlines = filter (\<lambda>i. body ! i = CHR 0x0A) [0..<length body];
          line_start = (if error_line e \<le> 1 then 0
                        else if error_line e - 2 < length newlines
                             then newlines ! (error_line e - 2) + 1 else 0)
      in line_start + (error_column e - 1))"

definition parse_record :: "(string \<Rightarrow> json_error option) \<Rightarrow> string \<Rightarrow> Record" where
  "parse_record pv val =
     (case pv val of
        None \<Rightarrow> Whole
      | Some e \<Rightarrow> if is_eof e \<or> error_offset val e + 1 \<ge> length val then Cut else Broken)"

text \<open>
  The loop of \<open>drop_seams\<close>: the payload rebuilt so far, the record cut short with its pieces joined
  so far, and the number of seams. \<open>None\<close> is the early \<open>return false\<close>, which leaves the body as it was.
\<close>

fun seam_loop ::
    "(string \<Rightarrow> json_error option) \<Rightarrow> string \<Rightarrow> (Event \<times> string) option \<Rightarrow> nat \<Rightarrow> Event list
      \<Rightarrow> (string \<times> (Event \<times> string) option) option" where
  "seam_loop pv joined pending seam_count [] = Some (joined, pending)"
| "seam_loop pv joined None seam_count (event # events) =
     (case parse_record pv (ev_value event) of
        Whole \<Rightarrow> seam_loop pv (push_event joined (ev_envelope event) (ev_value event)) None seam_count events
      | Cut \<Rightarrow> if ev_kind event \<noteq> None
               then seam_loop pv joined (Some (event, ev_value event)) seam_count events else None
      | Broken \<Rightarrow> None)"
| "seam_loop pv joined (Some (rec, val)) seam_count (event # events) =
     (if ev_kind event \<noteq> ev_kind rec then
        (if parse_record pv (ev_value event) \<noteq> Whole then None
         else seam_loop pv (push_event joined (ev_envelope event) (ev_value event)) (Some (rec, val))
                seam_count events)
      else if seam_count = MAX_SEAMS then None
      else (case parse_record pv (val @ ev_value event) of
              Whole \<Rightarrow> seam_loop pv (push_event joined (ev_envelope rec) (val @ ev_value event)) None
                         (seam_count + 1) events
            | Cut \<Rightarrow> seam_loop pv joined (Some (rec, val @ ev_value event)) (seam_count + 1) events
            | Broken \<Rightarrow> None))"

definition drop_seams :: "(string \<Rightarrow> json_error option) \<Rightarrow> string \<Rightarrow> bool \<times> string" where
  "drop_seams pv body =
     (case split_events body of
        None \<Rightarrow> (False, body)
      | Some events \<Rightarrow>
          (case seam_loop pv [] None 0 events of
             None \<Rightarrow> (False, body)
           | Some (joined, None) \<Rightarrow> (False, joined @ '']'')
           | Some (joined, Some (rec, val)) \<Rightarrow> (True, push_event joined (ev_envelope rec) val @ '']'')))"

section \<open>The fragment buffer\<close>

definition parse_or_hold ::
    "(string \<Rightarrow> 'e parsed) \<Rightarrow> (string \<Rightarrow> json_error option) \<Rightarrow> nat \<Rightarrow> Fragment option \<Rightarrow> string
      \<Rightarrow> 'e Stitch \<times> Fragment option" where
  "parse_or_hold pe pv now slot body =
     (case pe body of
        Parsed events \<Rightarrow> (Complete events, slot)
      | DataError \<Rightarrow> (Discarded, slot)
      | OtherError \<Rightarrow>
          (let (ends_cut, body) = drop_seams pv body
           in if ends_cut \<and> length body \<le> MAX_FRAGMENT_BYTES
              then (Pending, Some \<lparr>fragment_body = body, received = now\<rparr>)
              else (case pe body of Parsed events \<Rightarrow> (Complete events, slot) | _ \<Rightarrow> (Discarded, slot))))"

definition resumed_bytes :: "string \<Rightarrow> string option" where
  "resumed_bytes body =
     Option.bind (strip_prefix ''['' body) (\<lambda>event.
       (case envelope event of
          Some (len, Some kind) \<Rightarrow> if len \<le> length event then Some (drop len event) else None
        | _ \<Rightarrow> None))"

definition join :: "Fragment \<Rightarrow> string \<Rightarrow> string" where
  "join fragment resumed =
     (if suffix FRAMING (fragment_body fragment)
      then take (length (fragment_body fragment) - length FRAMING) (fragment_body fragment)
      else fragment_body fragment) @ resumed"

definition stitch ::
    "(string \<Rightarrow> 'e parsed) \<Rightarrow> (string \<Rightarrow> json_error option) \<Rightarrow> nat \<Rightarrow> Fragment option \<Rightarrow> string
      \<Rightarrow> 'e Stitch \<times> Fragment option" where
  "stitch pe pv now slot body =
     (let slot = (case slot of
                    Some held \<Rightarrow> if now - received held > FRAGMENT_TTL then None else Some held
                  | None \<Rightarrow> None)
      in case slot of
           None \<Rightarrow> parse_or_hold pe pv now None body
         | Some head \<Rightarrow>
             (case resumed_bytes body of
                None \<Rightarrow> parse_or_hold pe pv now None body
              | Some resumed \<Rightarrow>
                  (case parse_or_hold pe pv now None (join head resumed) of
                     (Discarded, slot) \<Rightarrow> parse_or_hold pe pv now slot body
                   | stitched \<Rightarrow> stitched)))"

section \<open>The listener\<close>

text \<open>
  The channel to the logs agent accepts \<open>room\<close> more events before its receiver closes. The
  handler answers 200, or 503 when a send fails.
\<close>

fun send_events :: "nat \<Rightarrow> 'e list \<Rightarrow> 'e list \<times> nat" where
  "send_events room [] = ([], 200)"
| "send_events 0 (e # es) = ([], 503)"
| "send_events (Suc room) (e # es) = (let (sent, code) = send_events room es in (e # sent, code))"

definition handle ::
    "(string \<Rightarrow> 'e list parsed) \<Rightarrow> (string \<Rightarrow> json_error option) \<Rightarrow> nat \<Rightarrow> nat \<Rightarrow> Fragment option
      \<Rightarrow> string option \<Rightarrow> ('e list \<times> nat) \<times> Fragment option" where
  "handle pe pv now room slot request =
     (case request of
        None \<Rightarrow> (([], 500), slot)
      | Some body \<Rightarrow>
          (case pe body of
             Parsed events \<Rightarrow> (send_events room events, slot)
           | _ \<Rightarrow> (case stitch pe pv now slot body of
                      (Complete events, slot) \<Rightarrow> (send_events room events, slot)
                    | (Pending, slot) \<Rightarrow> (([], 200), slot)
                    | (Discarded, slot) \<Rightarrow> (([], 200), slot))))"

section \<open>Envelopes\<close>

lemma find_bytes_bound: "find_bytes xs needle = Some i \<Longrightarrow> i + length needle \<le> length xs"
  by (induction xs arbitrary: i) (auto split: if_splits dest: prefix_length_le)

lemma prefix_append_long: "length p \<le> length xs \<Longrightarrow> prefix p (xs @ ys) \<longleftrightarrow> prefix p xs"
  by (auto simp: prefix_append)

lemma find_bytes_append:
  "find_bytes xs needle = Some i \<Longrightarrow> find_bytes (xs @ ys) needle = Some i"
proof (induction xs arbitrary: i)
  case (Cons b bs)
  show ?case
  proof (cases "prefix needle (b # bs)")
    case True
    moreover from this have "prefix needle (b # bs @ ys)"
      using prefix_prefix [of needle "b # bs" ys] by simp
    ultimately show ?thesis using Cons.prems by simp
  next
    case False
    with Cons.prems obtain j where j: "find_bytes bs needle = Some j" "i = Suc j" by auto
    from find_bytes_bound [OF j(1)] have "length needle \<le> length (b # bs)" by simp
    then have "\<not> prefix needle ((b # bs) @ ys)"
      using False prefix_append_long by blast
    with Cons.IH [OF j(1)] j(2) show ?thesis by simp
  qed
qed simp

lemma find_bytes_take:
  assumes "needle \<noteq> []"
  shows "find_bytes xs needle = Some i \<Longrightarrow> find_bytes (take (i + length needle) xs) needle = Some i"
proof (induction xs arbitrary: i)
  case (Cons b bs)
  show ?case
  proof (cases "prefix needle (b # bs)")
    case True
    then obtain zs where "b # bs = needle @ zs" by (auto simp: prefix_def)
    moreover from True Cons.prems have "i = 0" by simp
    ultimately show ?thesis
      using assms by (cases needle) (auto simp: prefix_def)
  next
    case False
    with Cons.prems obtain j where j: "find_bytes bs needle = Some j" "i = Suc j" by auto
    have "\<not> prefix needle (take (i + length needle) (b # bs))"
      using False take_is_prefix prefix_order.trans by blast
    with Cons.IH [OF j(1)] j(2) show ?thesis by simp
  qed
qed simp

lemma RECORD_KEY_nonempty [simp]: "RECORD_KEY \<noteq> []"
  by (simp add: RECORD_KEY_def)

lemma take_min_length: "take (min (length xs) n) xs = take n xs"
  by (cases "length xs \<le> n") (simp_all add: min_def)

lemma envelope_SomeE:
  assumes "envelope e = Some (len, kind)"
  obtains flds i where "take MAX_ENVELOPE_BYTES e = EVENT_START @ flds"
    "find_bytes flds RECORD_KEY = Some i" "len = length EVENT_START + (i + length RECORD_KEY)"
    "\<not> list_ex (\<lambda>b. b = CHR ''{'' \<or> b = CHR ''}'') (take (i + length RECORD_KEY) flds)"
    "kind = find (\<lambda>tail. suffix tail (take (i + length RECORD_KEY) flds)) PIECE_TYPES"
  using assms that
  by (auto simp: envelope_def Let_def strip_prefix_def bind_eq_Some_conv prefix_def take_min_length
      split: if_splits)

lemma envelope_SomeI:
  assumes "take MAX_ENVELOPE_BYTES e = EVENT_START @ flds"
    "find_bytes flds RECORD_KEY = Some i"
    "\<not> list_ex (\<lambda>b. b = CHR ''{'' \<or> b = CHR ''}'') (take (i + length RECORD_KEY) flds)"
  shows "envelope e = Some (length EVENT_START + (i + length RECORD_KEY),
    find (\<lambda>tail. suffix tail (take (i + length RECORD_KEY) flds)) PIECE_TYPES)"
  using assms by (simp add: envelope_def Let_def strip_prefix_def take_min_length)

lemma envelope_bounds:
  assumes "envelope e = Some (len, kind)"
  shows "len \<le> length e" "len \<le> MAX_ENVELOPE_BYTES" "prefix EVENT_START e"
proof -
  from assms obtain flds i where f: "take MAX_ENVELOPE_BYTES e = EVENT_START @ flds"
    "find_bytes flds RECORD_KEY = Some i" "len = length EVENT_START + (i + length RECORD_KEY)"
    by (rule envelope_SomeE)
  then have "len \<le> length (take MAX_ENVELOPE_BYTES e)"
    using find_bytes_bound [OF f(2)] by simp
  then show "len \<le> length e" "len \<le> MAX_ENVELOPE_BYTES" by simp_all
  show "prefix EVENT_START e"
    using f(1) by (metis append_take_drop_id append_assoc prefixI)
qed

text \<open>An envelope is recognised by its own bytes only.\<close>

lemma envelope_take:
  assumes "envelope e = Some (len, kind)"
  shows "envelope (take len e) = Some (len, kind)"
proof -
  from assms obtain flds i where f: "take MAX_ENVELOPE_BYTES e = EVENT_START @ flds"
    "find_bytes flds RECORD_KEY = Some i" "len = length EVENT_START + (i + length RECORD_KEY)"
    "\<not> list_ex (\<lambda>b. b = CHR ''{'' \<or> b = CHR ''}'') (take (i + length RECORD_KEY) flds)"
    "kind = find (\<lambda>tail. suffix tail (take (i + length RECORD_KEY) flds)) PIECE_TYPES"
    by (rule envelope_SomeE)
  have "take MAX_ENVELOPE_BYTES (take len e) = take len (take MAX_ENVELOPE_BYTES e)"
    by (simp add: min.commute)
  also have "\<dots> = EVENT_START @ take (i + length RECORD_KEY) flds"
    by (simp add: f(1,3))
  finally have "envelope (take len e) = Some (length EVENT_START + (i + length RECORD_KEY),
      find (\<lambda>tail. suffix tail (take (i + length RECORD_KEY) (take (i + length RECORD_KEY) flds))) PIECE_TYPES)"
    by (rule envelope_SomeI) (use f find_bytes_take [OF RECORD_KEY_nonempty f(2)] in simp_all)
  then show ?thesis using f(3,5) by simp
qed

lemma envelope_append:
  assumes "envelope e = Some (len, kind)"
  shows "envelope (take len e @ rest) = Some (len, kind)"
proof -
  from envelope_take [OF assms] obtain flds i where f:
    "take MAX_ENVELOPE_BYTES (take len e) = EVENT_START @ flds"
    "find_bytes flds RECORD_KEY = Some i" "len = length EVENT_START + (i + length RECORD_KEY)"
    "\<not> list_ex (\<lambda>b. b = CHR ''{'' \<or> b = CHR ''}'') (take (i + length RECORD_KEY) flds)"
    "kind = find (\<lambda>tail. suffix tail (take (i + length RECORD_KEY) flds)) PIECE_TYPES"
    by (rule envelope_SomeE)
  have len: "length (take len e) = len" "len \<le> MAX_ENVELOPE_BYTES"
    using envelope_bounds [OF assms] by simp_all
  let ?rest = "take (MAX_ENVELOPE_BYTES - len) rest"
  have "take MAX_ENVELOPE_BYTES (take len e @ rest) = EVENT_START @ flds @ ?rest"
    using f(1) len by simp
  moreover have "take (i + length RECORD_KEY) (flds @ ?rest) = take (i + length RECORD_KEY) flds"
    using find_bytes_bound [OF f(2)] by simp
  ultimately have "envelope (take len e @ rest) = Some (length EVENT_START + (i + length RECORD_KEY),
      find (\<lambda>tail. suffix tail (take (i + length RECORD_KEY) flds)) PIECE_TYPES)"
    using envelope_SomeI [of "take len e @ rest" "flds @ ?rest" i]
      find_bytes_append [OF f(2), of ?rest] f(4) by (simp del: take_append)
  then show ?thesis using f(3,5) by simp
qed

section \<open>Splitting and rebuilding\<close>

text \<open>
  A payload written from its events, and the events a payload can be split into again: an envelope
  that is recognised as such, and a value in which no event boundary appears.
\<close>

fun payload_body :: "Event list \<Rightarrow> string" where
  "payload_body [] = []"
| "payload_body [e] = ev_envelope e @ ev_value e"
| "payload_body (e # es) = ev_envelope e @ ev_value e @ ''},'' @ payload_body es"

definition payload :: "Event list \<Rightarrow> string" where
  "payload es = ''['' @ payload_body es @ FRAMING"

definition opened :: "Event list \<Rightarrow> string" where
  "opened es = (if es = [] then [] else ''['' @ payload_body es @ ''}'')"

definition wf_envelope :: "Event \<Rightarrow> bool" where
  "wf_envelope e \<longleftrightarrow> envelope (ev_envelope e) = Some (length (ev_envelope e), ev_kind e)"

definition seam_free :: "string \<Rightarrow> bool" where
  "seam_free v \<longleftrightarrow> \<not> sublist (''},'' @ EVENT_START) v"

definition wf_event :: "Event \<Rightarrow> bool" where
  "wf_event e \<longleftrightarrow> wf_envelope e \<and> seam_free (ev_value e)"

lemma payload_body_Cons:
  "es \<noteq> [] \<Longrightarrow> payload_body (e # es) = ev_envelope e @ ev_value e @ ''},'' @ payload_body es"
  by (cases es) simp_all

lemma payload_body_snoc:
  "es \<noteq> [] \<Longrightarrow> payload_body (es @ [e]) = payload_body es @ ''},'' @ ev_envelope e @ ev_value e"
  by (induction es rule: payload_body.induct) (simp_all add: payload_body_Cons)

lemma payload_body_append:
  "es \<noteq> [] \<Longrightarrow> fs \<noteq> [] \<Longrightarrow> payload_body (es @ fs) = payload_body es @ ''},'' @ payload_body fs"
  by (induction es rule: payload_body.induct) (simp_all add: payload_body_Cons)

lemma payload_opened: "es \<noteq> [] \<Longrightarrow> payload es = opened es @ '']''"
  by (simp add: payload_def opened_def FRAMING_def)

lemma opened_Nil [simp]: "opened [] = []"
  by (simp add: opened_def)

lemma push_event_opened:
  "push_event (opened es) (ev_envelope e) (ev_value e) = opened (es @ [e])"
  by (cases "es = []") (simp_all add: push_event_def opened_def payload_body_snoc)

lemma envelope_wf_append:
  "wf_envelope e \<Longrightarrow> envelope (ev_envelope e @ rest) = Some (length (ev_envelope e), ev_kind e)"
  using envelope_append [of "ev_envelope e" "length (ev_envelope e)" "ev_kind e" rest]
  by (simp add: wf_envelope_def)

lemma prefix_before_stop:
  assumes "prefix p (xs @ z # zs)" and "z \<notin> set p"
  shows "prefix p xs"
  using assms by (auto simp: prefix_append prefix_Cons)

lemma strip_prefix_SomeD: "strip_prefix p xs = Some ys \<Longrightarrow> xs = p @ ys"
  by (auto simp: strip_prefix_def prefix_def split: if_splits)

lemma split_at_next_event_stop:
  assumes "seam_free v" and "rest = [] \<or> (\<exists>next_ev. rest = ''},'' @ next_ev \<and> envelope next_ev \<noteq> None)"
  shows "split_at_next_event (v @ rest) = (if rest = [] then None else Some (v, drop 2 rest))"
  using assms(1)
proof (induction v)
  case Nil
  from assms(2) show ?case by (auto simp: strip_prefix_def)
next
  case (Cons b bs)
  have free: "seam_free bs"
    using Cons.prems unfolding seam_free_def by (metis sublist_Cons_right)
  have "envelope next_ev = None" if eq: "b # bs @ rest = ''},'' @ next_ev" for next_ev
  proof (rule ccontr)
    assume "envelope next_ev \<noteq> None"
    then have start: "prefix EVENT_START next_ev"
      using envelope_bounds(3) by fastforce
    obtain cs where cs: "bs = CHR '','' # cs" "next_ev = cs @ rest"
      using eq assms(2) by (cases bs) auto
    have "prefix EVENT_START cs"
      using start cs(2) assms(2) prefix_before_stop [of EVENT_START cs "CHR ''}''"]
      by (auto simp: EVENT_START_def)
    with eq cs(1) have "prefix (''},'' @ EVENT_START) (b # bs)" by simp
    with Cons.prems show False
      unfolding seam_free_def using prefix_imp_sublist by blast
  qed
  then have "Option.bind (strip_prefix ''},'' (b # bs @ rest))
      (\<lambda>next_ev. map_option (\<lambda>_. ([] :: string, next_ev)) (envelope next_ev)) = None"
    by (auto dest!: strip_prefix_SomeD split: bind_split)
  with Cons.IH [OF free] show ?case by (cases "rest = []") simp_all
qed

lemma split_loop_payload_body:
  "es \<noteq> [] \<Longrightarrow> \<forall>e \<in> set es. wf_event e \<Longrightarrow> split_loop (payload_body es) = Some es"
proof (induction es rule: payload_body.induct)
  case (2 e)
  then have "split_at_next_event (ev_value e) = None"
    using split_at_next_event_stop [of "ev_value e" "[]"] by (simp add: wf_event_def)
  with 2 show ?case
    by (simp add: split_loop.simps [of "ev_envelope e @ ev_value e"] envelope_wf_append wf_event_def)
next
  case (3 e f fs)
  let ?rest = "payload_body (f # fs)"
  have "envelope ?rest \<noteq> None"
    using 3(3) envelope_wf_append [of f] by (cases fs) (auto simp: wf_event_def)
  then have "split_at_next_event (ev_value e @ ''},'' @ ?rest) = Some (ev_value e, ?rest)"
    using split_at_next_event_stop [of "ev_value e" "''},'' @ ?rest"] 3(3) by (simp add: wf_event_def)
  moreover have "split_loop ?rest = Some (f # fs)"
    using 3 by simp
  ultimately show ?case
    using 3(3) envelope_wf_append [of e "ev_value e @ ''},'' @ ?rest"]
    by (subst split_loop.simps) (simp add: wf_event_def)
qed simp

lemma split_events_payload:
  assumes "es \<noteq> []" and "\<forall>e \<in> set es. wf_event e"
  shows "split_events (payload es) = Some es"
  using split_loop_payload_body [OF assms]
  by (simp add: split_events_def payload_def strip_prefix_def strip_suffix_def suffix_def)

lemma split_loop_rebuild:
  "split_loop rest = Some es \<Longrightarrow> es \<noteq> [] \<and> payload_body es = rest \<and> (\<forall>e \<in> set es. wf_envelope e)"
proof (induction rest arbitrary: es rule: split_loop.induct)
  case (1 rest)
  from 1(2) obtain len kind where env: "envelope rest = Some (len, kind)"
    by (subst (asm) split_loop.simps) (auto split: option.splits)
  let ?e = "\<lambda>v. \<lparr>ev_envelope = take len rest, ev_value = v, ev_kind = kind\<rparr>"
  have wf: "wf_envelope (?e v)" for v
    using envelope_take [OF env] envelope_bounds(1) [OF env] by (simp add: wf_envelope_def)
  show ?case
  proof (cases "split_at_next_event (drop len rest)")
    case None
    with 1(2) env have "es = [?e (drop len rest)]"
      by (subst (asm) split_loop.simps) simp
    with wf show ?thesis by simp
  next
    case (Some vn)
    with 1(2) env obtain fs where fs: "split_loop (snd vn) = Some fs" "es = ?e (fst vn) # fs"
      by (subst (asm) split_loop.simps) auto
    from 1(1) [OF env, of vn fs] Some fs(1)
    have IH: "fs \<noteq> []" "payload_body fs = snd vn" "\<forall>e \<in> set fs. wf_envelope e" by simp_all
    have "drop len rest = fst vn @ ''},'' @ snd vn"
      using Some split_at_next_event_splits [of _ "fst vn" "snd vn"] by simp
    then have "payload_body es = take len rest @ drop len rest"
      using fs(2) IH(1,2) by (simp add: payload_body_Cons)
    with fs(2) IH wf show ?thesis by simp
  qed
qed

lemma split_events_rebuild:
  assumes "split_events body = Some es"
  shows "es \<noteq> [] \<and> payload es = body \<and> (\<forall>e \<in> set es. wf_envelope e)"
proof -
  from assms obtain r where r: "body = ''['' @ r @ FRAMING" "split_loop r = Some es"
    by (auto simp: split_events_def strip_prefix_def strip_suffix_def bind_eq_Some_conv prefix_def
        suffix_def split: if_splits)
  with split_loop_rebuild [OF r(2)] show ?thesis by (simp add: payload_def)
qed

text \<open>
  C9. Splitting a payload and writing its events back is the identity in both directions: whatever
  \<open>split_events\<close> returns rebuilds to the body byte for byte, and a payload written from well-formed
  events (recognisable envelopes, no event boundary inside a value) splits into exactly them.
\<close>

theorem split_events_roundtrip:
  "(split_events body = Some es \<longrightarrow> es \<noteq> [] \<and> payload es = body)
    \<and> (es \<noteq> [] \<and> (\<forall>e \<in> set es. wf_event e) \<longrightarrow> split_events (payload es) = Some es)"
  using split_events_rebuild split_events_payload by blast

definition sample_event :: "string \<Rightarrow> string \<Rightarrow> Event" where
  "sample_event kind v = \<lparr>ev_envelope = ''{\"time\":\"t\",\"type\":\"'' @ kind @ ''\",\"record\":'',
     ev_value = v,
     ev_kind = find (\<lambda>tail. suffix tail (''\"type\":\"'' @ kind @ ''\",\"record\":'')) PIECE_TYPES\<rparr>"

lemma sample_events_wf:
  "wf_event (sample_event ''function'' ''{\"a\":1'')"
  "wf_event (sample_event ''function'' ''5}'')"
  "wf_event (sample_event ''platform.start'' ''{}'')"
  by code_simp+

theorem split_events_roundtrip_witness:
  "split_events (payload [sample_event ''function'' ''{\"a\":1'', sample_event ''platform.start'' ''{}''])
     = Some [sample_event ''function'' ''{\"a\":1'', sample_event ''platform.start'' ''{}'']"
  using split_events_roundtrip [of "[]"
      "[sample_event ''function'' ''{\"a\":1'', sample_event ''platform.start'' ''{}'']"]
    sample_events_wf by simp

section \<open>Dropping seams\<close>

definition whole :: "(string \<Rightarrow> json_error option) \<Rightarrow> Event \<Rightarrow> bool" where
  "whole pv e \<longleftrightarrow> parse_record pv (ev_value e) = Whole"

text \<open>The pieces of a cut record among the events that follow it, and the other events.\<close>

definition pieces :: "string option \<Rightarrow> Event list \<Rightarrow> Event list" where
  "pieces kind es = filter (\<lambda>e. ev_kind e = kind) es"

definition others :: "string option \<Rightarrow> Event list \<Rightarrow> Event list" where
  "others kind es = filter (\<lambda>e. ev_kind e \<noteq> kind) es"

definition joined_value :: "Event list \<Rightarrow> string" where
  "joined_value es = concat (map ev_value es)"

text \<open>Every non-empty run of pieces read so far still leaves the record cut short.\<close>

fun stays_cut :: "(string \<Rightarrow> json_error option) \<Rightarrow> string \<Rightarrow> Event list \<Rightarrow> bool" where
  "stays_cut pv val [] = True"
| "stays_cut pv val (p # ps) =
     (parse_record pv (val @ ev_value p) = Cut \<and> stays_cut pv (val @ ev_value p) ps)"

lemma joined_value_simps [simp]:
  "joined_value [] = []" "joined_value (e # es) = ev_value e @ joined_value es"
  by (simp_all add: joined_value_def)

lemma seam_loop_whole:
  "\<forall>e \<in> set es. whole pv e \<Longrightarrow>
    seam_loop pv (opened js) None n (es @ fs) = seam_loop pv (opened (js @ es)) None n fs"
  by (induction es arbitrary: js) (simp_all add: whole_def push_event_opened)

lemma seam_loop_pieces:
  assumes "\<forall>e \<in> set (others (ev_kind r) es). whole pv e"
    and "stays_cut pv val (pieces (ev_kind r) es)"
    and "n + length (pieces (ev_kind r) es) \<le> MAX_SEAMS"
  shows "seam_loop pv (opened js) (Some (r, val)) n (es @ fs)
    = seam_loop pv (opened (js @ others (ev_kind r) es))
        (Some (r, val @ joined_value (pieces (ev_kind r) es)))
        (n + length (pieces (ev_kind r) es)) fs"
  using assms
proof (induction es arbitrary: js val n)
  case Nil
  then show ?case by (simp add: pieces_def others_def)
next
  case (Cons e es)
  show ?case
  proof (cases "ev_kind e = ev_kind r")
    case True
    have "seam_loop pv (opened js) (Some (r, val @ ev_value e)) (Suc n) (es @ fs)
      = seam_loop pv (opened (js @ others (ev_kind r) es))
          (Some (r, (val @ ev_value e) @ joined_value (pieces (ev_kind r) es)))
          (Suc n + length (pieces (ev_kind r) es)) fs"
      by (rule Cons.IH) (use Cons.prems True in \<open>simp_all add: pieces_def others_def\<close>)
    with Cons.prems True show ?thesis by (simp add: pieces_def others_def)
  next
    case False
    have "seam_loop pv (opened (js @ [e])) (Some (r, val)) n (es @ fs)
      = seam_loop pv (opened ((js @ [e]) @ others (ev_kind r) es))
          (Some (r, val @ joined_value (pieces (ev_kind r) es)))
          (n + length (pieces (ev_kind r) es)) fs"
      by (rule Cons.IH) (use Cons.prems False in \<open>simp_all add: pieces_def others_def\<close>)
    with Cons.prems False show ?thesis
      by (simp add: pieces_def others_def whole_def push_event_opened)
  qed
qed

text \<open>The events of a cut record: whole events, the first piece, further pieces among other events.\<close>

definition cut_events :: "(string \<Rightarrow> json_error option) \<Rightarrow> Event list \<Rightarrow> Event \<Rightarrow> Event list \<Rightarrow> bool" where
  "cut_events pv pre p mid \<longleftrightarrow>
     (\<forall>e \<in> set pre. whole pv e) \<and> ev_kind p \<noteq> None \<and> parse_record pv (ev_value p) = Cut
     \<and> (\<forall>e \<in> set (others (ev_kind p) mid). whole pv e)
     \<and> stays_cut pv (ev_value p) (pieces (ev_kind p) mid)"

definition joined_event :: "Event \<Rightarrow> Event list \<Rightarrow> Event" where
  "joined_event p mid = p\<lparr>ev_value := ev_value p @ joined_value (pieces (ev_kind p) mid)\<rparr>"

lemma seam_loop_cut:
  assumes "cut_events pv pre p mid" and "length (pieces (ev_kind p) mid) \<le> MAX_SEAMS"
  shows "seam_loop pv [] None 0 (pre @ p # mid @ fs)
    = seam_loop pv (opened (pre @ others (ev_kind p) mid))
        (Some (p, ev_value (joined_event p mid))) (length (pieces (ev_kind p) mid)) fs"
  using seam_loop_whole [of pre pv "[]" 0 "p # mid @ fs"]
    seam_loop_pieces [of p mid pv "ev_value p" 0 pre fs] assms
  by (auto simp: cut_events_def joined_event_def)

lemma drop_seams_ends_cut:
  assumes "cut_events pv pre p mid" and "length (pieces (ev_kind p) mid) \<le> MAX_SEAMS"
    and "\<forall>e \<in> set (pre @ p # mid). wf_event e"
  shows "drop_seams pv (payload (pre @ p # mid))
    = (True, payload (pre @ others (ev_kind p) mid @ [joined_event p mid]))"
proof -
  let ?js = "pre @ others (ev_kind p) mid" and ?j = "joined_event p mid"
  have "split_events (payload (pre @ p # mid)) = Some (pre @ p # mid)"
    using assms(3) by (intro split_events_payload) auto
  moreover have "seam_loop pv [] None 0 (pre @ p # mid) = Some (opened ?js, Some (p, ev_value ?j))"
    using seam_loop_cut [OF assms(1,2), of "[]"] by simp
  moreover have "push_event (opened ?js) (ev_envelope p) (ev_value ?j) = opened (?js @ [?j])"
    using push_event_opened [of ?js ?j] by (simp add: joined_event_def)
  ultimately show ?thesis
    by (simp add: drop_seams_def payload_opened)
qed

text \<open>
  C8. A record cut into pieces inside one payload is put together: whole events before it, its first
  piece, further pieces with whole events of other types between them, a last piece that completes
  the record, and whole events after it give the payload in which the record is one event again,
  placed after the events that interrupted it, and nothing is held.
\<close>

theorem pieces_in_one_payload_joined:
  assumes "cut_events pv pre p mid" and "length (pieces (ev_kind p) mid) < MAX_SEAMS"
    and "ev_kind q = ev_kind p"
    and "parse_record pv (ev_value (joined_event p mid) @ ev_value q) = Whole"
    and "\<forall>e \<in> set post. whole pv e"
    and "\<forall>e \<in> set (pre @ p # mid @ q # post). wf_event e"
  shows "drop_seams pv (payload (pre @ p # mid @ q # post))
    = (False, payload (pre @ others (ev_kind p) mid
        @ (p\<lparr>ev_value := ev_value (joined_event p mid) @ ev_value q\<rparr>) # post))"
proof -
  let ?js = "pre @ others (ev_kind p) mid"
  let ?j = "p\<lparr>ev_value := ev_value (joined_event p mid) @ ev_value q\<rparr>"
  have "split_events (payload (pre @ p # mid @ q # post)) = Some (pre @ p # mid @ q # post)"
    using assms(6) by (intro split_events_payload) auto
  moreover have push: "push_event (opened ?js) (ev_envelope p) (ev_value ?j) = opened (?js @ [?j])"
    using push_event_opened [of ?js ?j] by simp
  have "seam_loop pv [] None 0 (pre @ p # mid @ q # post)
      = seam_loop pv (opened (?js @ [?j])) None (Suc (length (pieces (ev_kind p) mid))) post"
    using seam_loop_cut [OF assms(1), of "q # post"] assms(2-4) push by simp
  moreover have "\<dots> = Some (opened ((?js @ [?j]) @ post), None)"
    using seam_loop_whole [OF assms(5), of "?js @ [?j]" _ "[]"] by simp
  ultimately show ?thesis
    by (simp add: drop_seams_def payload_opened)
qed

text \<open>A value parser for the witnesses: a value is complete when it ends in a closing brace.\<close>

definition brace_parser :: "string \<Rightarrow> json_error option" where
  "brace_parser v = (if suffix ''}'' v then None
     else Some \<lparr>is_eof = True, error_line = 1, error_column = length v\<rparr>)"

lemma sample_values:
  "parse_record brace_parser ''{\"a\":1'' = Cut" "parse_record brace_parser ''{\"a\":15}'' = Whole"
  "parse_record brace_parser ''{}'' = Whole"
  by code_simp+

lemma sample_event_simps [simp]:
  "ev_value (sample_event k v) = v"
  "ev_kind (sample_event ''function'' v) = Some ''\"type\":\"function\",\"record\":''"
  "ev_kind (sample_event ''platform.start'' v) = None"
  by (simp add: sample_event_def) code_simp+

theorem pieces_in_one_payload_joined_witness:
  "drop_seams brace_parser (payload [sample_event ''function'' ''{\"a\":1'',
       sample_event ''platform.start'' ''{}'', sample_event ''function'' ''5}''])
   = (False, payload [sample_event ''platform.start'' ''{}'', sample_event ''function'' ''{\"a\":15}''])"
proof -
  let ?p = "sample_event ''function'' ''{\"a\":1''" and ?o = "sample_event ''platform.start'' ''{}''"
    and ?q = "sample_event ''function'' ''5}''"
  have pcs: "pieces (ev_kind ?p) [?o] = []" and oth: "others (ev_kind ?p) [?o] = [?o]"
    by (simp_all add: pieces_def others_def)
  have cut: "cut_events brace_parser [] ?p [?o]"
    unfolding cut_events_def pcs oth by (simp add: whole_def sample_values)
  have j: "?p\<lparr>ev_value := ev_value (joined_event ?p [?o]) @ ev_value ?q\<rparr>
      = sample_event ''function'' ''{\"a\":15}''"
    unfolding joined_event_def pcs by (simp add: sample_event_def)
  have "drop_seams brace_parser (payload ([] @ ?p # [?o] @ ?q # []))
    = (False, payload ([] @ others (ev_kind ?p) [?o]
        @ (?p\<lparr>ev_value := ev_value (joined_event ?p [?o]) @ ev_value ?q\<rparr>) # []))"
    by (rule pieces_in_one_payload_joined [OF cut])
      (use sample_events_wf sample_values in \<open>simp_all add: pieces_def joined_event_def MAX_SEAMS_def\<close>)
  then show ?thesis unfolding oth j by simp
qed

section \<open>Stitching across payloads\<close>

text \<open>
  One post: its arrival time and its events. \<open>stitch_run\<close> is the buffer over a sequence of posts
  that failed to parse on their own.
\<close>

fun stitch_run ::
    "(string \<Rightarrow> 'e parsed) \<Rightarrow> (string \<Rightarrow> json_error option) \<Rightarrow> Fragment option \<Rightarrow> (nat \<times> string) list
      \<Rightarrow> 'e Stitch list \<times> Fragment option" where
  "stitch_run pe pv slot [] = ([], slot)"
| "stitch_run pe pv slot ((now, body) # posts) =
     (let (r, slot') = stitch pe pv now slot body;
          (rs, slot'') = stitch_run pe pv slot' posts
      in (r # rs, slot''))"

lemma resumed_bytes_payload:
  assumes "wf_envelope e" and "ev_kind e \<noteq> None"
  shows "resumed_bytes (payload (e # rest)) = Some (ev_value e
    @ (if rest = [] then [] else ''},'' @ payload_body rest) @ FRAMING)"
proof -
  have body: "payload (e # rest) = CHR ''['' # ev_envelope e @ ev_value e
      @ (if rest = [] then [] else ''},'' @ payload_body rest) @ FRAMING"
    by (cases rest) (simp_all add: payload_def)
  obtain k where "ev_kind e = Some k" using assms(2) by auto
  then show ?thesis
    unfolding body by (simp add: resumed_bytes_def strip_prefix_def envelope_wf_append assms(1))
qed

lemma join_payload:
  "join \<lparr>fragment_body = payload (pre @ [p]), received = t\<rparr>
      (v @ (if rest = [] then [] else ''},'' @ payload_body rest) @ FRAMING)
    = payload (pre @ p\<lparr>ev_value := ev_value p @ v\<rparr> # rest)"
proof -
  let ?p' = "p\<lparr>ev_value := ev_value p @ v\<rparr>"
  have body: "payload_body (pre @ [?p']) = payload_body (pre @ [p]) @ v"
    by (cases "pre = []") (simp_all add: payload_body_snoc)
  have "payload_body (pre @ ?p' # rest) = payload_body (pre @ [p]) @ v
      @ (if rest = [] then [] else ''},'' @ payload_body rest)"
    using body payload_body_append [of "pre @ [?p']" rest] by simp
  moreover have "suffix FRAMING (payload (pre @ [p]))"
    by (simp add: payload_def suffix_def)
  ultimately show ?thesis
    by (simp add: join_def payload_def)
qed

lemma stitch_resumes:
  assumes "wf_envelope q" and "ev_kind q \<noteq> None" and "now - t \<le> FRAGMENT_TTL"
    and "pe (payload (pre @ p\<lparr>ev_value := ev_value p @ ev_value q\<rparr> # rest)) = r"
  shows "r = Parsed events \<Longrightarrow>
      stitch pe pv now (Some \<lparr>fragment_body = payload (pre @ [p]), received = t\<rparr>) (payload (q # rest))
        = (Complete events, None)"
    and "r = OtherError \<Longrightarrow> rest = [] \<Longrightarrow>
      drop_seams pv (payload (pre @ [p\<lparr>ev_value := ev_value p @ ev_value q\<rparr>]))
        = (True, payload (pre @ [p\<lparr>ev_value := ev_value p @ ev_value q\<rparr>])) \<Longrightarrow>
      length (payload (pre @ [p\<lparr>ev_value := ev_value p @ ev_value q\<rparr>])) \<le> MAX_FRAGMENT_BYTES \<Longrightarrow>
      stitch pe pv now (Some \<lparr>fragment_body = payload (pre @ [p]), received = t\<rparr>) (payload [q])
        = (Pending, Some \<lparr>fragment_body = payload (pre @ [p\<lparr>ev_value := ev_value p @ ev_value q\<rparr>]),
             received = now\<rparr>)"
  using assms resumed_bytes_payload [OF assms(1,2)] join_payload [of pre p t "ev_value q" rest]
  by (simp_all add: stitch_def parse_or_hold_def)

lemma stitch_opens:
  assumes "\<forall>e \<in> set (pre @ [p]). wf_event e" and "\<forall>e \<in> set pre. whole pv e"
    and "ev_kind p \<noteq> None" and "parse_record pv (ev_value p) = Cut"
    and "pe (payload (pre @ [p])) = OtherError"
    and "length (payload (pre @ [p])) \<le> MAX_FRAGMENT_BYTES"
  shows "stitch pe pv now None (payload (pre @ [p]))
    = (Pending, Some \<lparr>fragment_body = payload (pre @ [p]), received = now\<rparr>)"
proof -
  have "cut_events pv pre p []"
    using assms(2-4) by (simp add: cut_events_def pieces_def others_def)
  from drop_seams_ends_cut [OF this] assms(1)
  have "drop_seams pv (payload (pre @ [p])) = (True, payload (pre @ [p]))"
    by (simp add: pieces_def others_def joined_event_def)
  with assms(5,6) show ?thesis by (simp add: stitch_def parse_or_hold_def)
qed

definition extend :: "Event \<Rightarrow> Event \<Rightarrow> Event" where
  "extend p q = p\<lparr>ev_value := ev_value p @ ev_value q\<rparr>"

text \<open>A payload that ends on a cut piece, and does not exceed the ceiling.\<close>

definition holdable ::
    "(string \<Rightarrow> 'e parsed) \<Rightarrow> (string \<Rightarrow> json_error option) \<Rightarrow> Event list \<Rightarrow> Event \<Rightarrow> bool" where
  "holdable pe pv pre p \<longleftrightarrow>
     (\<forall>e \<in> set (pre @ [p]). wf_event e) \<and> (\<forall>e \<in> set pre. whole pv e)
     \<and> ev_kind p \<noteq> None \<and> parse_record pv (ev_value p) = Cut
     \<and> pe (payload (pre @ [p])) = OtherError \<and> length (payload (pre @ [p])) \<le> MAX_FRAGMENT_BYTES"

text \<open>Further posts of one piece each that arrive in time and leave the record cut.\<close>

fun continues ::
    "(string \<Rightarrow> 'e parsed) \<Rightarrow> (string \<Rightarrow> json_error option) \<Rightarrow> Event list \<Rightarrow> Event \<Rightarrow> nat
      \<Rightarrow> (nat \<times> Event) list \<Rightarrow> bool" where
  "continues pe pv pre p t [] = True"
| "continues pe pv pre p t ((t', q) # posts) =
     (t' - t \<le> FRAGMENT_TTL \<and> wf_envelope q \<and> ev_kind q \<noteq> None
      \<and> holdable pe pv pre (extend p q) \<and> continues pe pv pre (extend p q) t' posts)"

fun last_arrival :: "nat \<Rightarrow> (nat \<times> Event) list \<Rightarrow> nat" where
  "last_arrival t [] = t"
| "last_arrival t ((t', q) # posts) = last_arrival t' posts"

definition extend_all :: "Event \<Rightarrow> (nat \<times> Event) list \<Rightarrow> Event" where
  "extend_all p posts = fold (\<lambda>(t, q) p. extend p q) posts p"

lemma holdable_drop_seams:
  "holdable pe pv pre p \<Longrightarrow> drop_seams pv (payload (pre @ [p])) = (True, payload (pre @ [p]))"
  using drop_seams_ends_cut [of pv pre p "[]"]
  by (simp add: holdable_def cut_events_def pieces_def others_def joined_event_def)

lemma stitch_run_resumes:
  assumes "continues pe pv pre p t posts" and "wf_envelope q" and "ev_kind q \<noteq> None"
    and "t' - last_arrival t posts \<le> FRAGMENT_TTL"
    and "pe (payload (pre @ extend (extend_all p posts) q # rest)) = Parsed events"
  shows "stitch_run pe pv (Some \<lparr>fragment_body = payload (pre @ [p]), received = t\<rparr>)
      (map (\<lambda>(t, e). (t, payload [e])) posts @ [(t', payload (q # rest))])
    = (replicate (length posts) Pending @ [Complete events], None)"
  using assms(1,4,5)
proof (induction posts arbitrary: p t)
  case Nil
  then have "stitch pe pv t' (Some \<lparr>fragment_body = payload (pre @ [p]), received = t\<rparr>)
      (payload (q # rest)) = (Complete events, None)"
    using stitch_resumes(1) [of q t' t pe pre p rest "Parsed events" events pv] assms(2,3)
    by (simp add: extend_def extend_all_def)
  then show ?case by simp
next
  case (Cons te posts)
  obtain u e where te: "te = (u, e)" by (cases te)
  have hold: "holdable pe pv pre (extend p e)" using Cons.prems(1) te by simp
  have "stitch pe pv u (Some \<lparr>fragment_body = payload (pre @ [p]), received = t\<rparr>) (payload [e])
      = (Pending, Some \<lparr>fragment_body = payload (pre @ [extend p e]), received = u\<rparr>)"
    using stitch_resumes(2) [of e u t pe pre p "[]" OtherError pv] Cons.prems(1) te
      holdable_drop_seams [OF hold] hold by (simp add: extend_def holdable_def)
  moreover have "stitch_run pe pv (Some \<lparr>fragment_body = payload (pre @ [extend p e]), received = u\<rparr>)
      (map (\<lambda>(t, e). (t, payload [e])) posts @ [(t', payload (q # rest))])
    = (replicate (length posts) Pending @ [Complete events], None)"
    by (rule Cons.IH) (use Cons.prems te in \<open>simp_all add: extend_all_def\<close>)
  ultimately show ?case by (simp add: te)
qed

text \<open>
  C3. A record cut across any number of posts is delivered as if it had never been cut: the post
  that ends on its first piece and every further post that carries one more piece are held, and the
  post that completes the record gives exactly the events of the payload in which the record and
  the rest of the batch are whole, with nothing left in the buffer.
\<close>

theorem split_delivery_equals_whole_delivery:
  assumes "holdable pe pv pre p" and "continues pe pv pre p t posts"
    and "wf_envelope q" and "ev_kind q \<noteq> None" and "t' - last_arrival t posts \<le> FRAGMENT_TTL"
    and "pe (payload (pre @ extend (extend_all p posts) q # rest)) = Parsed events"
  shows "stitch_run pe pv None ((t, payload (pre @ [p]))
      # map (\<lambda>(t, e). (t, payload [e])) posts @ [(t', payload (q # rest))])
    = (replicate (Suc (length posts)) Pending @ [Complete events], None)"
  using stitch_opens [of pre p pv pe t] stitch_run_resumes [OF assms(2-6)] assms(1)
  by (simp add: holdable_def)

text \<open>An event parser for the witness: it accepts only bodies without a cut record.\<close>

definition sample_parser :: "string \<Rightarrow> nat parsed" where
  "sample_parser body = (if suffix ''}}]'' body then Parsed (length body) else OtherError)"

theorem split_delivery_equals_whole_delivery_witness:
  "stitch_run sample_parser brace_parser None
     [(0, payload [sample_event ''function'' ''{\"a\":1'']),
      (9, payload [sample_event ''function'' ''5}'', sample_event ''platform.start'' ''{}''])]
   = ([Pending, Complete (length (payload [sample_event ''function'' ''{\"a\":15}'',
         sample_event ''platform.start'' ''{}'']))], None)"
proof -
  let ?p = "sample_event ''function'' ''{\"a\":1''" and ?q = "sample_event ''function'' ''5}''"
    and ?o = "sample_event ''platform.start'' ''{}''"
  have "sample_parser (payload [?p]) = OtherError" by code_simp
  moreover have "length (payload [?p]) \<le> MAX_FRAGMENT_BYTES"
    by (simp add: payload_def sample_event_def FRAMING_def MAX_FRAGMENT_BYTES_def)
  ultimately have hold: "holdable sample_parser brace_parser [] ?p"
    using sample_events_wf sample_values by (simp add: holdable_def)
  have ext: "extend ?p ?q = sample_event ''function'' ''{\"a\":15}''"
    by (simp add: extend_def sample_event_def)
  have parsed: "sample_parser (payload [extend ?p ?q, ?o]) = Parsed (length (payload [extend ?p ?q, ?o]))"
    unfolding ext sample_parser_def by (simp add: payload_def sample_event_def FRAMING_def suffix_def)
  show ?thesis
    using split_delivery_equals_whole_delivery
      [of sample_parser brace_parser "[]" ?p 0 "[]" ?q 9 "[?o]" "length (payload [extend ?p ?q, ?o])"]
      hold parsed sample_events_wf ext by (simp add: FRAGMENT_TTL_def wf_event_def extend_all_def)
qed

section \<open>What the buffer can hold\<close>

lemma parse_or_hold_slot:
  assumes "parse_or_hold pe pv now None body = (r, slot)"
  shows "(r = Pending \<longleftrightarrow> slot \<noteq> None) \<and> (\<forall>f. slot = Some f \<longrightarrow>
    length (fragment_body f) \<le> MAX_FRAGMENT_BYTES \<and> received f = now)"
  using assms
  by (auto simp: parse_or_hold_def split: parsed.splits prod.splits if_splits)

lemma stitch_is_parse_or_hold: "\<exists>b. stitch pe pv now slot body = parse_or_hold pe pv now None b"
proof (cases "\<exists>head resumed. slot = Some head \<and> now - received head \<le> FRAGMENT_TTL
    \<and> resumed_bytes body = Some resumed")
  case True
  then obtain head resumed where h: "slot = Some head" "now - received head \<le> FRAGMENT_TTL"
    "resumed_bytes body = Some resumed" by blast
  obtain r s where rs: "parse_or_hold pe pv now None (join head resumed) = (r, s)"
    by (cases "parse_or_hold pe pv now None (join head resumed)")
  show ?thesis
  proof (cases "r = Discarded")
    case True
    with parse_or_hold_slot [OF rs] have "s = None" by simp
    with h rs True show ?thesis by (intro exI [of _ body]) (simp add: stitch_def)
  next
    case False
    with h rs show ?thesis
      by (intro exI [of _ "join head resumed"]) (cases r; simp add: stitch_def)
  qed
next
  case False
  then have "stitch pe pv now slot body = parse_or_hold pe pv now None body"
    by (cases slot; cases "resumed_bytes body") (simp_all add: stitch_def not_le)
  then show ?thesis by blast
qed

text \<open>
  C37. The buffer holds a fragment after a call exactly when the call answered \<open>Pending\<close>; a held
  fragment never exceeds the ceiling and carries the time of that call, and a fragment older than
  its time to live has no influence on the call.
\<close>

theorem stitch_holds_bounded:
  "(case stitch pe pv now slot body of (r, slot') \<Rightarrow>
      (r = Pending \<longleftrightarrow> slot' \<noteq> None) \<and> (\<forall>f. slot' = Some f \<longrightarrow>
        length (fragment_body f) \<le> MAX_FRAGMENT_BYTES \<and> received f = now))
    \<and> (now > received f + FRAGMENT_TTL \<longrightarrow> stitch pe pv now (Some f) body = stitch pe pv now None body)"
proof (rule conjI)
  obtain r slot' where st: "stitch pe pv now slot body = (r, slot')"
    by (cases "stitch pe pv now slot body")
  with stitch_is_parse_or_hold obtain b where "parse_or_hold pe pv now None b = (r, slot')"
    by metis
  from parse_or_hold_slot [OF this] show "case stitch pe pv now slot body of (r, slot') \<Rightarrow>
      (r = Pending \<longleftrightarrow> slot' \<noteq> None) \<and> (\<forall>f. slot' = Some f \<longrightarrow>
        length (fragment_body f) \<le> MAX_FRAGMENT_BYTES \<and> received f = now)"
    by (simp add: st)
  show "now > received f + FRAGMENT_TTL \<longrightarrow> stitch pe pv now (Some f) body = stitch pe pv now None body"
    by (simp add: stitch_def less_diff_conv add.commute)
qed

theorem stitch_holds_bounded_witness:
  "stitch sample_parser brace_parser 2000000000
      (Some \<lparr>fragment_body = ''x'', received = 0\<rparr>) ''y'' = stitch sample_parser brace_parser 2000000000 None ''y''"
  using stitch_holds_bounded [where now = 2000000000 and pe = sample_parser and pv = brace_parser
      and body = "''y''" and slot = None and f = "\<lparr>fragment_body = ''x'', received = 0\<rparr>"]
  by (simp add: FRAGMENT_TTL_def)

text \<open>
  Joining a continuation onto a held fragment drops exactly the framing of the first and the
  envelope of the second: the result is the payload in which the first record of the continuation
  is glued onto the cut record. The types of the two pieces are not compared: any log event is taken
  as the continuation, also one of another type than the cut record.
\<close>

theorem join_glues_first_log_event:
  assumes "wf_envelope q" and "ev_kind q \<noteq> None"
  shows "map_option (join \<lparr>fragment_body = payload (pre @ [p]), received = t\<rparr>)
      (resumed_bytes (payload (q # rest))) = Some (payload (pre @ extend p q # rest))"
  using resumed_bytes_payload [OF assms] join_payload [of pre p t "ev_value q" rest]
  by (simp add: extend_def)

theorem join_glues_first_log_event_witness:
  "map_option (join \<lparr>fragment_body = payload [sample_event ''function'' ''{\"a\":1''], received = 0\<rparr>)
      (resumed_bytes (payload [sample_event ''extension'' ''\"ready\"'']))
    = Some (payload [sample_event ''function'' ''{\"a\":1\"ready\"''])"
proof -
  have "wf_envelope (sample_event ''extension'' ''\"ready\"'')"
    "ev_kind (sample_event ''extension'' ''\"ready\"'') \<noteq> None"
    by code_simp+
  from join_glues_first_log_event [OF this, of "[]" "sample_event ''function'' ''{\"a\":1''" 0 "[]"]
  show ?thesis by (simp add: extend_def sample_event_def)
qed

end
