(* ===== verification/TelemetryEvents.thy ===== *)
theory TelemetryEvents
  imports Json
begin

text \<open>
  The records of the Telemetry API, \<open>bottlecap/src/extension/telemetry/events.rs\<close>, and the events of
  the main event bus, \<open>bottlecap/src/event_bus/mod.rs\<close>. The type of durations (\<open>f64\<close> in the
  sources) is a type parameter; times are nanoseconds since the epoch.
\<close>

datatype InitType = OnDemandInit | ProvisionedConcurrency | SnapStart | ManagedInstanceInit

datatype InitPhase = Init | Invoke

datatype Status = Success | Error | Failure | Timeout

record 'f RuntimeDoneMetrics =
  rd_duration_ms :: 'f
  produced_bytes :: "u64 option"

record 'f OnDemandReportMetrics =
  od_duration_ms :: 'f
  billed_duration_ms :: u64
  memory_size_mb :: u64
  max_memory_used_mb :: u64
  init_duration_ms :: "'f option"
  restore_duration_ms :: "'f option"

datatype 'f ReportMetrics = OnDemand "'f OnDemandReportMetrics" | ManagedInstance 'f

fun duration_ms :: "'f ReportMetrics \<Rightarrow> 'f" where
  "duration_ms (OnDemand metrics) = od_duration_ms metrics"
| "duration_ms (ManagedInstance metrics) = metrics"

record 'f TelemetrySpan =
  ts_name :: string
  ts_start :: int
  ts_duration_ms :: 'f

datatype 'f TelemetryRecord =
    Function json
  | Extension json
  | PlatformInitStart InitType InitPhase "string option" "string option"
  | PlatformInitRuntimeDone InitType "InitPhase option" Status "string option"
  | PlatformInitReport InitType InitPhase 'f
  | PlatformStart string "string option"
  | PlatformRuntimeDone string Status "string option" "'f RuntimeDoneMetrics option"
  | PlatformReport string Status "string option" "'f ReportMetrics" "'f TelemetrySpan list option"
  | PlatformExtension string string "string list"
  | PlatformTelemetrySubscription string string "string list"
  | PlatformLogsDropped string u64 u64
  | PlatformRestoreStart
  | PlatformRestoreReport Status "string option" "'f option"
  | PlatformRestoreRuntimeDone Status "string option"

record 'f TelemetryEvent =
  te_time :: int
  te_record :: "'f TelemetryRecord"

text \<open>\<open>chrono\<close> rounds a time towards the past, to seconds and to milliseconds.\<close>

definition time_secs :: "int \<Rightarrow> int" where
  "time_secs t = t div 1000000000"

definition time_millis :: "int \<Rightarrow> int" where
  "time_millis t = t div 1000000"

datatype 'f BusEvent =
    Telemetry "'f TelemetryEvent"
  | OutOfMemory "string option" int
  | Tombstone

end
