(* ===== verification/DurableContext.thy ===== *)
theory DurableContext
  imports Main
begin

text \<open>
  The durable execution context of an invocation and the message that carries it from the invocation
  processor to the logs agent, \<open>bottlecap/src/logs/lambda/mod.rs\<close>.
\<close>

record DurableExecutionContext =
  execution_id :: string
  execution_name :: string
  ctx_first_invocation :: "bool option"
  execution_status :: "string option"

record DurableContextUpdate =
  du_request_id :: string
  du_context :: DurableExecutionContext

end
