(* ===== verification/LambdaLogs.thy ===== *)
theory LambdaLogs
  imports TelemetryEvents DurableContext "HOL-Library.Multiset" "HOL-Library.Monad_Syntax"
begin

text \<open>
  The logs processor: \<open>bottlecap/src/logs/lambda/processor.rs\<close>, \<open>logs/lambda/mod.rs\<close> and the rules
  and the wrapper of \<open>logs/processor.rs\<close>. Parameters stand for code outside the repository and for
  the unspecified iteration order of a \<open>HashMap\<close>; they are the fields of the record \<open>LogEnv\<close>. An
  operation that may loop forever returns an \<open>option\<close>, and \<open>None\<close> is the run that never returns.
\<close>

section \<open>Data\<close>

record Lambda =
  arn :: string
  request_id :: "string option"
  durable_execution_id :: "string option"
  durable_execution_name :: "string option"
  first_invocation :: "bool option"
  durable_execution_status :: "string option"

record Message =
  message :: string
  lambda :: Lambda
  timestamp :: int
  status :: string

record IntakeLog =
  log_message :: Message
  hostname :: string
  service :: string
  log_tags :: string
  source :: string

datatype Kind = ExcludeAtMatch | IncludeAtMatch | MaskSequences

text \<open>A compiled regular expression is what the sources ask of it: a match test and a replacement.\<close>

record Regex =
  is_match :: "string \<Rightarrow> bool"
  replace_all :: "string \<Rightarrow> string \<Rightarrow> string"

record Rule =
  rule_kind :: Kind
  regex :: Regex
  placeholder :: string

record ProcessingRule =
  pr_kind :: Kind
  pattern :: string
  replace_placeholder :: "string option"

text \<open>
  Arithmetic and formatting of \<open>f64\<close>, \<open>serde_json\<close>, the text operations that depend on Unicode
  tables, and the order in which a hash map hands out its entries.
\<close>

record 'f LogEnv =
  f_zero :: 'f
  f_positive :: "'f \<Rightarrow> bool"
  f_sub :: "'f \<Rightarrow> 'f \<Rightarrow> 'f"
  f_per_1000 :: "'f \<Rightarrow> 'f"
  f_fixed2 :: "'f \<Rightarrow> string"
  to_json_string :: "json \<Rightarrow> string"
  from_json_str :: "string \<Rightarrow> json option"
  serialize :: "IntakeLog \<Rightarrow> string option"
  debug_str :: "string \<Rightarrow> string"
  to_uppercase :: "string \<Rightarrow> string"
  map_order :: "(string \<times> IntakeLog list) list \<Rightarrow> (string \<times> IntakeLog list) list"

record 'f LambdaProcessor =
  function_arn :: string
  lp_service :: string
  lp_tags :: string
  rules :: "Rule list option"
  context_request_id :: string
  runtime_duration_ms :: 'f
  orphan_logs :: "IntakeLog list"
  ready_logs :: "string list"
  bus :: "'f BusEvent list"
  logs_enabled :: bool
  is_managed_instance_mode :: bool
  is_durable_function :: "bool option"
  held_logs :: "(string \<times> IntakeLog list) list"
  held_logs_order :: "string list"
  durable_context_map :: "string \<rightharpoonup> DurableExecutionContext"
  durable_context_order :: "string list"
  log_buffer_size :: nat

definition DURABLE_CONTEXT_MAP_CAPACITY :: nat where
  "DURABLE_CONTEXT_MAP_CAPACITY = 500"

definition OOM_ERRORS :: "string list" where
  "OOM_ERRORS =
     [''fatal error: runtime: out of memory'',
      ''java.lang.OutOfMemoryError'',
      ''JavaScript heap out of memory'',
      ''Runtime exited with error: signal: killed'',
      ''MemoryError'',
      ''failed to allocate memory (NoMemoryError)'',
      ''OutOfMemoryException'']"

definition Message_new :: "string \<Rightarrow> string option \<Rightarrow> string \<Rightarrow> int \<Rightarrow> string option \<Rightarrow> Message" where
  "Message_new msg rid farn ts st =
     \<lparr>message = msg,
      lambda = \<lparr>arn = farn, request_id = rid, durable_execution_id = None, durable_execution_name = None,
                first_invocation = None, durable_execution_status = None\<rparr>,
      timestamp = ts,
      status = (case st of Some s \<Rightarrow> s | None \<Rightarrow> ''info'')\<rparr>"

section \<open>Text helpers\<close>

definition is_oom_error :: "string \<Rightarrow> bool" where
  "is_oom_error error_msg = list_ex (\<lambda>oom_str. contains oom_str error_msg) OOM_ERRORS"

definition is_platform_log :: "string \<Rightarrow> bool" where
  "is_platform_log msg \<longleftrightarrow> starts_with ''START RequestId:'' msg
     \<or> starts_with ''END RequestId:'' msg \<or> starts_with ''REPORT RequestId:'' msg"

text \<open>
  \<open>split(SEPARATOR).nth(1)\<close> is the text after the first separator, up to the second one if there is
  one; \<open>splitn(2, '/')\<close> cuts that at its first slash.
\<close>

definition parse_durable_execution_arn :: "string \<Rightarrow> (string \<times> string) option" where
  "parse_durable_execution_arn a = do {
     (_, after) \<leftarrow> split_once ''/durable-execution/'' a;
     let durable_part = (case split_once ''/durable-execution/'' after of
                           Some (part, _) \<Rightarrow> part | None \<Rightarrow> after);
     let exec_name = takeWhile (\<lambda>c. c \<noteq> CHR ''/'') durable_part;
     let rest = dropWhile (\<lambda>c. c \<noteq> CHR ''/'') durable_part;
     if exec_name = [] then None
     else if rest = [] then None
     else if tl rest = [] then None
     else Some (tl rest, exec_name)
   }"

definition map_log_level_to_status :: "'f LogEnv \<Rightarrow> string \<Rightarrow> string option" where
  "map_log_level_to_status env level =
     (let u = to_uppercase env level
      in if u = ''FATAL'' \<or> u = ''CRITICAL'' then Some ''critical''
         else if u = ''ERROR'' \<or> u = ''ERR'' then Some ''error''
         else if u = ''WARN'' \<or> u = ''WARNING'' then Some ''warn''
         else if u = ''INFO'' \<or> u = ''INFORMATION'' then Some ''info''
         else if u = ''DEBUG'' then Some ''debug''
         else if u = ''TRACE'' then Some ''trace''
         else None)"

definition is_http_library_record :: "json \<Rightarrow> bool" where
  "is_http_library_record record =
     (case record of
        JString line \<Rightarrow> starts_with ''{\"target\":\"'' line
          \<and> contains '',\"message\":\"DD_EXTENSION | '' line
      | JObject obj \<Rightarrow> map_of obj ''target'' \<noteq> None
          \<and> (case Option.bind (map_of obj ''message'') as_str of
               Some msg \<Rightarrow> starts_with ''DD_EXTENSION | '' msg | None \<Rightarrow> False)
      | _ \<Rightarrow> False)"

section \<open>Processing rules\<close>

text \<open>The result carries the message as the masks applied before the answer left it.\<close>

fun apply_rule_list :: "Rule list \<Rightarrow> string \<Rightarrow> bool \<times> string" where
  "apply_rule_list [] msg = (True, msg)"
| "apply_rule_list (r # rs) msg =
     (case rule_kind r of
        ExcludeAtMatch \<Rightarrow> if is_match (regex r) msg then (False, msg) else apply_rule_list rs msg
      | IncludeAtMatch \<Rightarrow> if \<not> is_match (regex r) msg then (False, msg) else apply_rule_list rs msg
      | MaskSequences \<Rightarrow> apply_rule_list rs (replace_all (regex r) msg (placeholder r)))"

definition apply_rules :: "Rule list option \<Rightarrow> string \<Rightarrow> bool \<times> string" where
  "apply_rules rs msg =
     (case rs of None \<Rightarrow> (True, msg) | Some rs \<Rightarrow> if rs = [] then (True, msg) else apply_rule_list rs msg)"

definition compile_rules :: "(string \<Rightarrow> Regex option) \<Rightarrow> ProcessingRule list option \<Rightarrow> Rule list option" where
  "compile_rules compile rs =
     (case rs of
        None \<Rightarrow> None
      | Some rs \<Rightarrow>
          if rs = [] then None
          else Some (List.map_filter (\<lambda>r. map_option (\<lambda>re.
                 \<lparr>rule_kind = pr_kind r, regex = re,
                  placeholder = (case replace_placeholder r of Some p \<Rightarrow> p | None \<Rightarrow> [])\<rparr>)
                 (compile (pattern r))) rs))"

definition lp_new ::
    "'f LogEnv \<Rightarrow> string \<Rightarrow> string \<Rightarrow> string \<Rightarrow> Rule list option \<Rightarrow> bool \<Rightarrow> nat \<Rightarrow> bool \<Rightarrow> 'f LambdaProcessor" where
  "lp_new env farn svc tgs rs enabled buffer mi =
     \<lparr>function_arn = farn, lp_service = svc, lp_tags = tgs, rules = rs, context_request_id = [],
      runtime_duration_ms = f_zero env, orphan_logs = [], ready_logs = [], bus = [],
      logs_enabled = enabled, is_managed_instance_mode = mi, is_durable_function = None,
      held_logs = [], held_logs_order = [], durable_context_map = Map.empty,
      durable_context_order = [], log_buffer_size = buffer\<rparr>"

section \<open>Holding and releasing logs\<close>

definition push_ready :: "'f LogEnv \<Rightarrow> IntakeLog \<Rightarrow> 'f LambdaProcessor \<Rightarrow> 'f LambdaProcessor" where
  "push_ready env log p =
     (case serialize env log of Some s \<Rightarrow> p\<lparr>ready_logs := ready_logs p @ [s]\<rparr> | None \<Rightarrow> p)"

definition tag_durable :: "bool \<Rightarrow> DurableExecutionContext \<Rightarrow> IntakeLog \<Rightarrow> IntakeLog" where
  "tag_durable mi ctx log =
     (let msg = message (log_message log);
          l = (lambda (log_message log))\<lparr>durable_execution_id := Some (execution_id ctx),
                durable_execution_name := Some (execution_name ctx)\<rparr>;
          l = (if is_platform_log msg then l\<lparr>first_invocation := ctx_first_invocation ctx\<rparr> else l);
          l = (if starts_with ''END RequestId:'' msg \<or> (mi \<and> starts_with ''REPORT RequestId:'' msg)
               then l\<lparr>durable_execution_status := execution_status ctx\<rparr> else l)
      in log\<lparr>log_message := (log_message log)\<lparr>lambda := l\<rparr>\<rparr>)"

definition set_durable_context_and_mark_ready ::
    "'f LogEnv \<Rightarrow> DurableExecutionContext \<Rightarrow> IntakeLog \<Rightarrow> 'f LambdaProcessor \<Rightarrow> 'f LambdaProcessor" where
  "set_durable_context_and_mark_ready env ctx log p =
     push_ready env (tag_durable (is_managed_instance_mode p) ctx log) p"

definition held_remove :: "string \<Rightarrow> (string \<times> IntakeLog list) list \<Rightarrow> (string \<times> IntakeLog list) list" where
  "held_remove rid h = filter (\<lambda>(r, _). r \<noteq> rid) h"

definition drain_held_logs_for_request_id ::
    "'f LogEnv \<Rightarrow> string \<Rightarrow> 'f LambdaProcessor \<Rightarrow> 'f LambdaProcessor" where
  "drain_held_logs_for_request_id env rid p =
     (case map_of (held_logs p) rid of
        None \<Rightarrow> p
      | Some held \<Rightarrow>
          (let p = p\<lparr>held_logs := held_remove rid (held_logs p),
                     held_logs_order := filter (\<lambda>r. r \<noteq> rid) (held_logs_order p)\<rparr>
           in case durable_context_map p rid of
                None \<Rightarrow> p
              | Some ctx \<Rightarrow> fold (set_durable_context_and_mark_ready env ctx) held p))"

definition evict_oldest_context :: "'f LambdaProcessor \<Rightarrow> 'f LambdaProcessor" where
  "evict_oldest_context p =
     (if length (durable_context_order p) \<ge> DURABLE_CONTEXT_MAP_CAPACITY
      then (case durable_context_order p of
              [] \<Rightarrow> p
            | oldest # rest \<Rightarrow>
                p\<lparr>durable_context_order := rest,
                  durable_context_map := (durable_context_map p)(oldest := None)\<rparr>)
      else p)"

definition insert_to_durable_context_map ::
    "'f LogEnv \<Rightarrow> string \<Rightarrow> DurableExecutionContext \<Rightarrow> 'f LambdaProcessor \<Rightarrow> 'f LambdaProcessor" where
  "insert_to_durable_context_map env rid ctx p =
     (if durable_context_map p rid \<noteq> None then p
      else
        (let p = evict_oldest_context p;
             p = p\<lparr>durable_context_order := durable_context_order p @ [rid],
                   durable_context_map := (durable_context_map p)(rid \<mapsto> ctx)\<rparr>
         in drain_held_logs_for_request_id env rid p))"

definition take_ready_logs :: "'f LambdaProcessor \<Rightarrow> string list \<times> 'f LambdaProcessor" where
  "take_ready_logs p = (ready_logs p, p\<lparr>ready_logs := []\<rparr>)"

definition drain_held_logs :: "'f LogEnv \<Rightarrow> 'f LambdaProcessor \<Rightarrow> 'f LambdaProcessor" where
  "drain_held_logs env p =
     fold (push_ready env) (concat (map snd (map_order env (held_logs p))))
       (p\<lparr>held_logs := [], held_logs_order := []\<rparr>)"

definition resolve_entry ::
    "'f LogEnv \<Rightarrow> string \<times> IntakeLog list \<Rightarrow> 'f LambdaProcessor \<Rightarrow> 'f LambdaProcessor" where
  "resolve_entry env entry p =
     (case durable_context_map p (fst entry) of
        Some ctx \<Rightarrow> fold (set_durable_context_and_mark_ready env ctx) (snd entry) p
      | None \<Rightarrow> p\<lparr>held_logs := held_logs p @ [entry]\<rparr>)"

definition resolve_held_logs_on_durable_function_set ::
    "'f LogEnv \<Rightarrow> bool \<Rightarrow> 'f LambdaProcessor \<Rightarrow> 'f LambdaProcessor" where
  "resolve_held_logs_on_durable_function_set env is_durable p =
     (let held = map_order env (held_logs p);
          p = p\<lparr>held_logs := [], held_logs_order := []\<rparr>
      in if is_durable then fold (resolve_entry env) held p
         else fold (push_ready env) (concat (map snd held)) p)"

text \<open>The eviction loop of \<open>hold_log\<close>, which runs until the map has room.\<close>

definition evict_step :: "'f LogEnv \<Rightarrow> 'f LambdaProcessor \<Rightarrow> 'f LambdaProcessor" where
  "evict_step env p =
     (case held_logs_order p of
        [] \<Rightarrow> p
      | oldest # rest \<Rightarrow>
          (let p = p\<lparr>held_logs_order := rest\<rparr>
           in case map_of (held_logs p) oldest of
                None \<Rightarrow> p
              | Some evicted \<Rightarrow>
                  fold (push_ready env) evicted (p\<lparr>held_logs := held_remove oldest (held_logs p)\<rparr>)))"

partial_function (option) evict_loop :: "'f LogEnv \<Rightarrow> 'f LambdaProcessor \<Rightarrow> 'f LambdaProcessor option" where
  "evict_loop env p =
     (if length (held_logs p) \<ge> log_buffer_size p then evict_loop env (evict_step env p) else Some p)"

definition held_push :: "string \<Rightarrow> IntakeLog \<Rightarrow> (string \<times> IntakeLog list) list \<Rightarrow> (string \<times> IntakeLog list) list" where
  "held_push rid log h =
     (if map_of h rid = None then h @ [(rid, [log])]
      else map (\<lambda>(r, logs). if r = rid then (r, logs @ [log]) else (r, logs)) h)"

definition hold_log ::
    "'f LogEnv \<Rightarrow> string \<Rightarrow> IntakeLog \<Rightarrow> 'f LambdaProcessor \<Rightarrow> 'f LambdaProcessor option" where
  "hold_log env rid log p =
     (if log_buffer_size p = 0 then Some p
      else do {
        p \<leftarrow> (if map_of (held_logs p) rid = None
             then map_option (\<lambda>p. p\<lparr>held_logs_order := held_logs_order p @ [rid]\<rparr>) (evict_loop env p)
             else Some p);
        Some (p\<lparr>held_logs := held_push rid log (held_logs p)\<rparr>)
      })"

definition queue_log_after_rules ::
    "'f LogEnv \<Rightarrow> IntakeLog \<Rightarrow> 'f LambdaProcessor \<Rightarrow> 'f LambdaProcessor option" where
  "queue_log_after_rules env log p =
     (let l = lambda (log_message log) in
      if durable_execution_id l \<noteq> None then Some (push_ready env log p)
      else if log_buffer_size p = 0 then Some (push_ready env log p)
      else (case is_durable_function p of
              None \<Rightarrow> (case request_id l of
                          Some rid \<Rightarrow> hold_log env rid log p
                        | None \<Rightarrow> Some (push_ready env log p))
            | Some False \<Rightarrow> Some (push_ready env log p)
            | Some True \<Rightarrow>
                (case Option.bind (request_id l) (durable_context_map p) of
                   Some ctx \<Rightarrow> Some (set_durable_context_and_mark_ready env ctx log p)
                 | None \<Rightarrow> (case request_id l of
                               Some rid \<Rightarrow> hold_log env rid log p
                             | None \<Rightarrow> Some (push_ready env log p)))))"

definition process_and_queue_log ::
    "'f LogEnv \<Rightarrow> IntakeLog \<Rightarrow> 'f LambdaProcessor \<Rightarrow> 'f LambdaProcessor option" where
  "process_and_queue_log env log p =
     (let (keep, msg) = (if logs_enabled p then apply_rules (rules p) (message (log_message log))
                         else (False, message (log_message log)))
      in if keep then queue_log_after_rules env (log\<lparr>log_message := (log_message log)\<lparr>message := msg\<rparr>\<rparr>) p
         else Some p)"

section \<open>From telemetry events to logs\<close>

definition send_bus :: "'f BusEvent \<Rightarrow> 'f LambdaProcessor \<Rightarrow> 'f LambdaProcessor" where
  "send_bus e p = p\<lparr>bus := bus p @ [e]\<rparr>"

definition current_request_id :: "'f LambdaProcessor \<Rightarrow> string option" where
  "current_request_id p = (if context_request_id p = [] then None else Some (context_request_id p))"

definition runtime_done_text ::
    "'f LogEnv \<Rightarrow> string \<Rightarrow> Status \<Rightarrow> string option \<Rightarrow> 'f RuntimeDoneMetrics option \<Rightarrow> string \<times> string" where
  "runtime_done_text env rid st error_type metrics =
     (let msg = ''END RequestId: '' @ rid
      in case metrics of
           Some m \<Rightarrow>
             if st = Timeout then
               (msg @ '' Task timed out after '' @ f_fixed2 env (f_per_1000 env (rd_duration_ms m)) @ '' seconds'', ''error'')
             else if st = Error then
               (msg @ '' Task failed: '' @ debug_str env (case error_type of Some e \<Rightarrow> e | None \<Rightarrow> []), ''error'')
             else (msg, ''info'')
         | None \<Rightarrow> if st = Timeout then (msg @ '' Task timed out'', ''error'') else (msg, ''info''))"

definition managed_report_text ::
    "'f LogEnv \<Rightarrow> string \<Rightarrow> Status \<Rightarrow> string option \<Rightarrow> 'f \<Rightarrow> string \<times> string" where
  "managed_report_text env rid st error_type d =
     (let msg = ''REPORT RequestId: '' @ rid @ '' Runtime Duration: '' @ f_fixed2 env d @ '' ms''
      in case st of
           Timeout \<Rightarrow> (msg @ '' Task timed out after '' @ f_fixed2 env (f_per_1000 env d) @ '' seconds'', ''error'')
         | Error \<Rightarrow> (msg @ (case error_type of None \<Rightarrow> '' Task failed with an unknown error''
                                            | Some e \<Rightarrow> '' Task failed: '' @ e), ''error'')
         | _ \<Rightarrow> (msg, ''info''))"

definition on_demand_report_text ::
    "'f LogEnv \<Rightarrow> 'f \<Rightarrow> string \<Rightarrow> Status \<Rightarrow> string option \<Rightarrow> 'f OnDemandReportMetrics \<Rightarrow> string \<times> string option" where
  "on_demand_report_text env runtime rid st error_type m =
     (let post = (if f_positive env runtime then f_sub env (od_duration_ms m) runtime else f_zero env);
          msg = ''REPORT RequestId: '' @ rid
                @ '' Duration: '' @ f_fixed2 env (od_duration_ms m)
                @ '' ms Runtime Duration: '' @ f_fixed2 env runtime
                @ '' ms Post Runtime Duration: '' @ f_fixed2 env post
                @ '' ms Billed Duration: '' @ nat_str (unat (billed_duration_ms m))
                @ '' ms Memory Size: '' @ nat_str (unat (memory_size_mb m))
                @ '' MB Max Memory Used: '' @ nat_str (unat (max_memory_used_mb m)) @ '' MB'';
          msg = (case init_duration_ms m of
                   Some d \<Rightarrow> msg @ '' Init Duration: '' @ f_fixed2 env d @ '' ms'' | None \<Rightarrow> msg);
          etype = (case error_type of Some e \<Rightarrow> '' Error Type: '' @ e | None \<Rightarrow> [])
      in case st of
           Timeout \<Rightarrow> (msg @ '' Status: timeout'', Some ''error'')
         | Error \<Rightarrow> (msg @ '' Status: error'' @ etype, Some ''error'')
         | Failure \<Rightarrow> (msg @ '' Status: failure'' @ etype, Some ''error'')
         | Success \<Rightarrow> (msg, None))"

text \<open>The log line of a \<open>Function\<close> record with its request id and its durable execution context.\<close>

definition function_record ::
    "'f LogEnv \<Rightarrow> json \<Rightarrow> string option \<times> string option \<times> (string \<times> string) option" where
  "function_record env v =
     (case v of
        JObject obj \<Rightarrow>
          (Option.bind (case map_of obj ''requestId'' of Some x \<Rightarrow> Some x | None \<Rightarrow> map_of obj ''AWSRequestId'') as_str,
           Some (to_json_string env (JObject obj)),
           Option.bind (Option.bind (map_of obj ''executionArn'') as_str) parse_durable_execution_arn)
      | JString s \<Rightarrow> (None, Some s, None)
      | _ \<Rightarrow> (None, None, None))"

definition report_oom :: "string \<Rightarrow> string option \<Rightarrow> int \<Rightarrow> 'f LambdaProcessor \<Rightarrow> 'f LambdaProcessor" where
  "report_oom msg rid t p =
     (if is_oom_error msg then send_bus (OutOfMemory rid (time_secs t)) p else p)"

definition get_message ::
    "'f LogEnv \<Rightarrow> 'f TelemetryEvent \<Rightarrow> 'f LambdaProcessor \<Rightarrow> Message option \<times> 'f LambdaProcessor" where
  "get_message env event p =
     (let t = te_time event; new = (\<lambda>msg rid st. Message_new msg rid (function_arn p) (time_millis t) st)
      in case te_record event of
           Function v \<Rightarrow>
             (case function_record env v of
                (rid, Some msg, durable_ctx) \<Rightarrow>
                  (let p = report_oom msg (case rid of Some r \<Rightarrow> Some r | None \<Rightarrow> current_request_id p) t p;
                       m = new msg rid None
                   in (Some (case durable_ctx of
                               Some (exec_id, exec_name) \<Rightarrow>
                                 m\<lparr>lambda := (lambda m)\<lparr>durable_execution_id := Some exec_id,
                                                       durable_execution_name := Some exec_name\<rparr>\<rparr>
                             | None \<Rightarrow> m), p))
              | (_, None, _) \<Rightarrow> (None, p))
         | Extension v \<Rightarrow>
             if is_http_library_record v then (None, p)
             else (case (case v of JObject obj \<Rightarrow> Some (to_json_string env (JObject obj))
                                 | JString s \<Rightarrow> Some s | _ \<Rightarrow> None) of
                     Some msg \<Rightarrow> (Some (new msg None None), report_oom msg (current_request_id p) t p)
                   | None \<Rightarrow> (None, p))
         | PlatformInitStart _ _ runtime_version runtime_version_arn \<Rightarrow>
             (let rv = (case runtime_version of Some s \<Rightarrow> s | None \<Rightarrow> ''?'');
                  rv_arn = (case runtime_version_arn of Some s \<Rightarrow> s | None \<Rightarrow> ''?'');
                  is_durable = contains ''DurableFunction'' rv;
                  p = (send_bus (Telemetry event) p)\<lparr>is_durable_function := Some is_durable\<rparr>
              in (Some (new (''INIT_START Runtime Version: '' @ rv @ '' Runtime Version ARN: '' @ rv_arn) None None),
                  resolve_held_logs_on_durable_function_set env is_durable p))
         | PlatformInitReport _ _ _ \<Rightarrow> (None, send_bus (Telemetry event) p)
         | PlatformStart rid version \<Rightarrow>
             (Some (new (''START RequestId: '' @ rid @ '' Version: ''
                         @ (case version of Some v \<Rightarrow> v | None \<Rightarrow> ''$LATEST'')) (Some rid) None),
              (send_bus (Telemetry event) p)\<lparr>context_request_id := rid\<rparr>)
         | PlatformRuntimeDone rid st error_type metrics \<Rightarrow>
             (let (msg, result_status) = runtime_done_text env rid st error_type metrics;
                  p = send_bus (Telemetry event) p;
                  p = (case metrics of Some m \<Rightarrow> p\<lparr>runtime_duration_ms := rd_duration_ms m\<rparr> | None \<Rightarrow> p)
              in (Some (new msg (Some rid) (Some result_status)), p\<lparr>context_request_id := []\<rparr>))
         | PlatformReport rid st error_type metrics _ \<Rightarrow>
             (case metrics of
                ManagedInstance d \<Rightarrow>
                  (let (msg, result_status) = managed_report_text env rid st error_type d
                   in (Some (new msg (Some rid) (Some result_status)),
                       (send_bus (Telemetry event) p)\<lparr>runtime_duration_ms := d, context_request_id := []\<rparr>))
              | OnDemand m \<Rightarrow>
                  (let (msg, result_status) = on_demand_report_text env (runtime_duration_ms p) rid st error_type m
                   in (Some (new msg (Some rid) result_status), send_bus (Telemetry event) p)))
         | PlatformRestoreStart \<Rightarrow> (None, send_bus (Telemetry event) p)
         | PlatformRestoreReport _ _ _ \<Rightarrow> (None, send_bus (Telemetry event) p)
         | _ \<Rightarrow> (None, p))"

definition extract_tags_and_get_message ::
    "'f LogEnv \<Rightarrow> (string \<times> json) list \<Rightarrow> string \<Rightarrow> string \<Rightarrow> (string \<times> json) list \<times> string \<times> string" where
  "extract_tags_and_get_message env obj tgs original =
     (case map_of obj ''ddtags'' of
        Some (JString message_tags) \<Rightarrow>
          (let obj = obj_remove ''ddtags'' obj
           in (obj, tgs @ '','' @ message_tags, to_json_string env (JObject obj)))
      | _ \<Rightarrow>
          (case map_of obj ''message'' of
             Some inner \<Rightarrow>
               (case json_get inner ''ddtags'' of
                  Some (JString message_tags) \<Rightarrow>
                    (let inner = (case inner of JObject io \<Rightarrow> JObject (obj_remove ''ddtags'' io) | _ \<Rightarrow> inner)
                     in (map (\<lambda>(k, v). if k = ''message'' then (k, inner) else (k, v)) obj,
                         tgs @ '','' @ message_tags, to_json_string env inner))
                | _ \<Rightarrow> (obj, tgs, original))
           | None \<Rightarrow> (obj, tgs, original)))"

definition get_intake_log ::
    "'f LogEnv \<Rightarrow> Message \<Rightarrow> 'f LambdaProcessor \<Rightarrow> IntakeLog option \<times> 'f LambdaProcessor" where
  "get_intake_log env m p =
     (let rid = (case request_id (lambda m) of
                   Some r \<Rightarrow> Some r
                 | None \<Rightarrow> if context_request_id p = [] \<or> is_managed_instance_mode p then None
                           else Some (context_request_id p));
          m = m\<lparr>lambda := (lambda m)\<lparr>request_id := rid\<rparr>\<rparr>;
          new = (\<lambda>tgs m. \<lparr>log_message = m, hostname = function_arn p, service = lp_service p,
                          log_tags = tgs, source = ''lambda''\<rparr>);
          log = (case from_json_str env (message m) of
                   Some (JObject obj) \<Rightarrow>
                     (let (obj, tgs, final_message) =
                            extract_tags_and_get_message env obj (lp_tags p) (message m);
                          level = (case map_of obj ''level'' of Some l \<Rightarrow> Some l | None \<Rightarrow> map_of obj ''status'');
                          st = (case Option.bind (Option.bind level as_str) (map_log_level_to_status env) of
                                  Some s \<Rightarrow> s | None \<Rightarrow> status m)
                      in new tgs (m\<lparr>message := final_message, status := st\<rparr>))
                 | _ \<Rightarrow> new (lp_tags p) m)
      in if rid \<noteq> None \<or> is_managed_instance_mode p then (Some log, p)
         else (None, p\<lparr>orphan_logs := orphan_logs p @ [log]\<rparr>))"

definition make_log ::
    "'f LogEnv \<Rightarrow> 'f TelemetryEvent \<Rightarrow> 'f LambdaProcessor \<Rightarrow> IntakeLog option \<times> 'f LambdaProcessor" where
  "make_log env event p =
     (case get_message env event p of
        (Some m, p) \<Rightarrow> get_intake_log env m p
      | (None, p) \<Rightarrow> (None, p))"

definition set_request_id :: "string option \<Rightarrow> IntakeLog \<Rightarrow> IntakeLog" where
  "set_request_id rid log = log\<lparr>log_message := (log_message log)\<lparr>lambda := (lambda (log_message log))\<lparr>request_id := rid\<rparr>\<rparr>\<rparr>"

fun process_orphans :: "'f LogEnv \<Rightarrow> IntakeLog list \<Rightarrow> 'f LambdaProcessor \<Rightarrow> 'f LambdaProcessor option" where
  "process_orphans env [] p = Some p"
| "process_orphans env (log # logs) p = do {
     p \<leftarrow> process_and_queue_log env (set_request_id (Some (context_request_id p)) log) p;
     process_orphans env logs p
   }"

text \<open>\<open>process\<close> answers with the batch handed to the logs aggregator (no batch is the empty list).\<close>

definition process :: "'f LogEnv \<Rightarrow> 'f TelemetryEvent \<Rightarrow> 'f LambdaProcessor \<Rightarrow> (string list \<times> 'f LambdaProcessor) option" where
  "process env event p = do {
     p \<leftarrow> (case make_log env event p of
            (Some log, p) \<Rightarrow> do {
              p \<leftarrow> process_and_queue_log env log p;
              process_orphans env (orphan_logs p) (p\<lparr>orphan_logs := []\<rparr>)
            }
          | (None, p) \<Rightarrow> Some p);
     Some (take_ready_logs p)
   }"

definition process_durable_context_update ::
    "'f LogEnv \<Rightarrow> DurableContextUpdate \<Rightarrow> 'f LambdaProcessor \<Rightarrow> string list \<times> 'f LambdaProcessor" where
  "process_durable_context_update env update p =
     take_ready_logs (insert_to_durable_context_map env (du_request_id update) (du_context update) p)"

definition shutdown_drain :: "'f LogEnv \<Rightarrow> 'f LambdaProcessor \<Rightarrow> string list \<times> 'f LambdaProcessor" where
  "shutdown_drain env p = take_ready_logs (drain_held_logs env p)"

end
