(* ===== verification/HeldLogs.thy ===== *)
theory HeldLogs
  imports LambdaLogs
begin

text \<open>
  What the logs processor promises about the logs it holds: none is lost or duplicated, the buffer of
  held logs is bounded and its eviction loop ends while the insertion order is complete, and what
  happens when it is not.
\<close>

section \<open>Ready logs\<close>

definition ready_texts :: "'f LogEnv \<Rightarrow> IntakeLog list \<Rightarrow> string list" where
  "ready_texts env logs = List.map_filter (serialize env) logs"

lemma ready_texts_simps [simp]:
  "ready_texts env [] = []"
  "ready_texts env (log # logs) =
     (case serialize env log of Some s \<Rightarrow> s # ready_texts env logs | None \<Rightarrow> ready_texts env logs)"
  by (simp_all add: ready_texts_def map_filter_simps split: option.split)

lemma fold_push_ready:
  "fold (push_ready env) logs p = p\<lparr>ready_logs := ready_logs p @ ready_texts env logs\<rparr>"
  by (induction logs arbitrary: p) (simp_all add: push_ready_def split: option.split)

lemma push_ready_eq: "push_ready env log p = p\<lparr>ready_logs := ready_logs p @ ready_texts env [log]\<rparr>"
  using fold_push_ready [of env "[log]" p] by simp

lemma fold_set_durable:
  "fold (set_durable_context_and_mark_ready env ctx) logs p
    = p\<lparr>ready_logs := ready_logs p @
          ready_texts env (map (tag_durable (is_managed_instance_mode p) ctx) logs)\<rparr>"
proof (induction logs arbitrary: p)
  case (Cons log logs)
  then show ?case
    by (simp add: set_durable_context_and_mark_ready_def push_ready_eq)
       (simp split: option.split)
qed simp

section \<open>Conservation\<close>

text \<open>
  The serialised text of a log determines what \<open>ident\<close> reads of it, and \<open>ident\<close> ignores the durable
  execution attributes. The iteration order of a hash map is a permutation of its entries.
\<close>

definition traceable :: "'f LogEnv \<Rightarrow> (string \<Rightarrow> 'k) \<Rightarrow> (IntakeLog \<Rightarrow> 'k) \<Rightarrow> bool" where
  "traceable env key ident \<longleftrightarrow>
     (\<forall>log. \<exists>s. serialize env log = Some s \<and> key s = ident log)
     \<and> (\<forall>mi ctx log. ident (tag_durable mi ctx log) = ident log)
     \<and> (\<forall>h. mset (map_order env h) = mset h)"

definition held_list :: "'f LambdaProcessor \<Rightarrow> IntakeLog list" where
  "held_list p = concat (map snd (held_logs p))"

definition logs_of :: "(string \<Rightarrow> 'k) \<Rightarrow> (IntakeLog \<Rightarrow> 'k) \<Rightarrow> 'f LambdaProcessor \<Rightarrow> 'k multiset" where
  "logs_of key ident p = image_mset key (mset (ready_logs p)) + image_mset ident (mset (held_list p))"

lemma key_ready_texts:
  assumes "traceable env key ident"
  shows "image_mset key (mset (ready_texts env logs)) = image_mset ident (mset logs)"
proof (induction logs)
  case (Cons log logs)
  obtain s where "serialize env log = Some s" "key s = ident log"
    using assms unfolding traceable_def by blast
  with Cons show ?case by simp
qed simp

lemma ident_tagged:
  assumes "traceable env key ident"
  shows "image_mset ident (mset (map (tag_durable mi ctx) logs)) = image_mset ident (mset logs)"
  using assms by (induction logs) (simp_all add: traceable_def)

lemma mset_concat_snd: "mset (concat (map snd h)) = sum_mset (image_mset (mset \<circ> snd) (mset h))"
  by (induction h) simp_all

lemma mset_concat_snd_cong: "mset h = mset h' \<Longrightarrow> mset (concat (map snd h)) = mset (concat (map snd h'))"
  by (simp add: mset_concat_snd)

lemma held_remove_absent: "rid \<notin> fst ` set h \<Longrightarrow> held_remove rid h = h"
  by (induction h) (auto simp: held_remove_def)

lemma held_append_absent:
  "rid \<notin> fst ` set h \<Longrightarrow> map (\<lambda>(r, logs). if r = rid then (r, logs @ [log]) else (r, logs)) h = h"
  by (induction h) auto

lemma held_remove_mset:
  assumes "distinct (map fst h)" and "map_of h rid = Some logs"
  shows "mset (concat (map snd h)) = mset logs + mset (concat (map snd (held_remove rid h)))"
  using assms
proof (induction h)
  case (Cons e h)
  show ?case
  proof (cases "fst e = rid")
    case True
    with Cons.prems have "held_remove rid h = h"
      by (simp add: held_remove_absent)
    with True Cons.prems show ?thesis by (cases e) (simp add: held_remove_def)
  next
    case False
    with Cons show ?thesis by (cases e) (simp add: held_remove_def)
  qed
qed simp

lemma held_push_mset:
  assumes "distinct (map fst h)"
  shows "mset (concat (map snd (held_push rid log h))) = add_mset log (mset (concat (map snd h)))"
proof (cases "map_of h rid")
  case None
  then show ?thesis by (simp add: held_push_def)
next
  case (Some logs)
  with assms show ?thesis
  proof (induction h)
    case (Cons e h)
    show ?case
    proof (cases "fst e = rid")
      case True
      with Cons.prems have "map (\<lambda>(r, logs). if r = rid then (r, logs @ [log]) else (r, logs)) h = h"
        by (simp add: held_append_absent)
      with True Cons.prems show ?thesis by (cases e) (simp add: held_push_def)
    next
      case False
      with Cons show ?thesis by (cases e) (simp add: held_push_def)
    qed
  qed simp
qed

definition keys_distinct :: "'f LambdaProcessor \<Rightarrow> bool" where
  "keys_distinct p \<longleftrightarrow> distinct (map fst (held_logs p))"

lemma distinct_held_remove: "distinct (map fst h) \<Longrightarrow> distinct (map fst (held_remove rid h))"
  by (simp add: held_remove_def distinct_map_filter)

lemma keys_held_push:
  "map fst (held_push rid log h) = (if map_of h rid = None then map fst h @ [rid] else map fst h)"
  by (simp add: held_push_def case_prod_beta comp_def if_distrib cong: if_cong)

lemma keys_held_remove: "set (map fst (held_remove rid h)) = set (map fst h) - {rid}"
  by (auto simp: held_remove_def)

lemmas logs_of_simps = logs_of_def held_list_def fold_push_ready fold_set_durable push_ready_eq

lemma evict_step_conserves:
  assumes "traceable env key ident" and "keys_distinct p"
  shows "logs_of key ident (evict_step env p) = logs_of key ident p \<and> keys_distinct (evict_step env p)"
proof (cases "held_logs_order p")
  case Nil
  with assms(2) show ?thesis by (simp add: evict_step_def)
next
  case (Cons oldest rest)
  show ?thesis
  proof (cases "map_of (held_logs p) oldest")
    case None
    with Cons assms(2) show ?thesis by (simp add: evict_step_def logs_of_simps keys_distinct_def)
  next
    case (Some evicted)
    have "mset (concat (map snd (held_logs p))) =
        mset evicted + mset (concat (map snd (held_remove oldest (held_logs p))))"
      using assms(2) Some by (intro held_remove_mset) (simp_all add: keys_distinct_def)
    with Cons Some assms show ?thesis
      by (simp add: evict_step_def logs_of_simps keys_distinct_def key_ready_texts distinct_held_remove)
  qed
qed

lemma evict_loop_conserves:
  assumes "traceable env key ident" and "keys_distinct p" and "evict_loop env p = Some p'"
  shows "logs_of key ident p' = logs_of key ident p \<and> keys_distinct p'"
proof -
  have "traceable env key ident \<longrightarrow> keys_distinct p \<longrightarrow>
      logs_of key ident p' = logs_of key ident p \<and> keys_distinct p'"
  proof (rule evict_loop.raw_induct [OF _ assms(3)])
    fix rec :: "'a LogEnv \<Rightarrow> 'a LambdaProcessor \<Rightarrow> 'a LambdaProcessor option" and env p p'
    assume IH: "\<And>env p p'. rec env p = Some p' \<Longrightarrow> traceable env key ident \<longrightarrow> keys_distinct p \<longrightarrow>
        logs_of key ident p' = logs_of key ident p \<and> keys_distinct p'"
      and step: "(if log_buffer_size p \<le> length (held_logs p) then rec env (evict_step env p) else Some p) = Some p'"
    show "traceable env key ident \<longrightarrow> keys_distinct p \<longrightarrow>
        logs_of key ident p' = logs_of key ident p \<and> keys_distinct p'"
      using IH [of env "evict_step env p" p'] step evict_step_conserves [of env key ident p]
      by (auto split: if_splits)
  qed
  with assms(1,2) show ?thesis by blast
qed

lemma hold_log_conserves:
  assumes "traceable env key ident" and "keys_distinct p" and "hold_log env rid log p = Some p'"
    and "log_buffer_size p \<noteq> 0"
  shows "logs_of key ident p' = add_mset (ident log) (logs_of key ident p) \<and> keys_distinct p'"
proof -
  obtain q where q: "logs_of key ident q = logs_of key ident p" "keys_distinct q"
      "p' = q\<lparr>held_logs := held_push rid log (held_logs q)\<rparr>"
  proof (cases "map_of (held_logs p) rid")
    case None
    with assms(3,4) obtain q where "evict_loop env p = Some q"
        "p' = q\<lparr>held_logs_order := held_logs_order q @ [rid], held_logs := held_push rid log (held_logs q)\<rparr>"
      by (auto simp: hold_log_def bind_eq_Some_conv)
    with that [of "q\<lparr>held_logs_order := held_logs_order q @ [rid]\<rparr>"] evict_loop_conserves [OF assms(1,2)]
    show ?thesis by (simp add: logs_of_def held_list_def keys_distinct_def)
  next
    case (Some logs)
    with assms(2-4) that [of p] show ?thesis by (simp add: hold_log_def)
  qed
  moreover from q(2) have "distinct (map fst (held_push rid log (held_logs q)))"
    by (auto simp: keys_held_push keys_distinct_def map_of_eq_None_iff)
  ultimately show ?thesis
    using held_push_mset [of "held_logs q" rid log]
    by (simp add: logs_of_def held_list_def keys_distinct_def)
qed

lemma push_ready_conserves:
  assumes "traceable env key ident"
  shows "logs_of key ident (push_ready env log p) = add_mset (ident log) (logs_of key ident p)
    \<and> (keys_distinct (push_ready env log p) \<longleftrightarrow> keys_distinct p)"
  using key_ready_texts [OF assms, of "[log]"] by (simp add: logs_of_simps keys_distinct_def)

lemma set_durable_conserves:
  assumes "traceable env key ident"
  shows "logs_of key ident (set_durable_context_and_mark_ready env ctx log p)
      = add_mset (ident log) (logs_of key ident p)
    \<and> (keys_distinct (set_durable_context_and_mark_ready env ctx log p) \<longleftrightarrow> keys_distinct p)"
  using push_ready_conserves [OF assms] assms
  by (simp add: set_durable_context_and_mark_ready_def traceable_def)

lemma queue_conserves:
  assumes "traceable env key ident" and "keys_distinct p" and "queue_log_after_rules env log p = Some p'"
  shows "logs_of key ident p' = add_mset (ident log) (logs_of key ident p) \<and> keys_distinct p'"
  using assms(3) push_ready_conserves [OF assms(1), of log p] set_durable_conserves [OF assms(1), of _ log p]
    hold_log_conserves [OF assms(1,2)] assms(2)
  by (auto simp: queue_log_after_rules_def Let_def split: if_splits option.splits bool.splits)

lemma drain_rid_conserves:
  assumes "traceable env key ident" and "keys_distinct p" and "durable_context_map p rid \<noteq> None"
  shows "logs_of key ident (drain_held_logs_for_request_id env rid p) = logs_of key ident p
    \<and> keys_distinct (drain_held_logs_for_request_id env rid p)"
proof (cases "map_of (held_logs p) rid")
  case None
  with assms(2) show ?thesis by (simp add: drain_held_logs_for_request_id_def)
next
  case (Some logs)
  obtain ctx where ctx: "durable_context_map p rid = Some ctx" using assms(3) by blast
  have "mset (concat (map snd (held_logs p))) =
      mset logs + mset (concat (map snd (held_remove rid (held_logs p))))"
    using assms(2) Some by (intro held_remove_mset) (simp_all add: keys_distinct_def)
  with Some ctx assms(2) show ?thesis
    by (simp add: drain_held_logs_for_request_id_def logs_of_simps keys_distinct_def distinct_held_remove
        key_ready_texts [OF assms(1)] ident_tagged [OF assms(1), simplified])
qed

lemma evict_oldest_context_held [simp]:
  "held_logs (evict_oldest_context p) = held_logs p"
  "held_logs_order (evict_oldest_context p) = held_logs_order p"
  "ready_logs (evict_oldest_context p) = ready_logs p"
  "log_buffer_size (evict_oldest_context p) = log_buffer_size p"
  "is_managed_instance_mode (evict_oldest_context p) = is_managed_instance_mode p"
  by (simp_all add: evict_oldest_context_def split: list.split)

lemma insert_context_conserves:
  assumes "traceable env key ident" and "keys_distinct p"
  shows "logs_of key ident (insert_to_durable_context_map env rid ctx p) = logs_of key ident p
    \<and> keys_distinct (insert_to_durable_context_map env rid ctx p)"
proof (cases "durable_context_map p rid")
  case None
  let ?q = "(evict_oldest_context p)\<lparr>
    durable_context_order := durable_context_order (evict_oldest_context p) @ [rid],
    durable_context_map := (durable_context_map (evict_oldest_context p))(rid \<mapsto> ctx)\<rparr>"
  have "insert_to_durable_context_map env rid ctx p = drain_held_logs_for_request_id env rid ?q"
    using None by (simp add: insert_to_durable_context_map_def Let_def)
  moreover have "logs_of key ident ?q = logs_of key ident p" "keys_distinct ?q"
    using assms(2) by (simp_all add: logs_of_def held_list_def keys_distinct_def)
  ultimately show ?thesis
    using drain_rid_conserves [OF assms(1), of ?q rid] by simp
next
  case (Some c)
  with assms(2) show ?thesis by (simp add: insert_to_durable_context_map_def)
qed

lemma drain_held_conserves:
  assumes "traceable env key ident"
  shows "logs_of key ident (drain_held_logs env p) = logs_of key ident p
    \<and> held_logs (drain_held_logs env p) = []"
proof -
  have "mset (concat (map snd (map_order env (held_logs p)))) = mset (concat (map snd (held_logs p)))"
    using assms by (intro mset_concat_snd_cong) (simp add: traceable_def)
  then show ?thesis
    by (simp add: drain_held_logs_def logs_of_simps key_ready_texts [OF assms])
qed

lemma resolve_entries_conserve:
  assumes "traceable env key ident" and "distinct (map fst (held_logs p) @ map fst entries)"
  shows "logs_of key ident (fold (resolve_entry env) entries p)
      = logs_of key ident p + image_mset ident (mset (concat (map snd entries)))
    \<and> keys_distinct (fold (resolve_entry env) entries p)"
  using assms(2)
proof (induction entries arbitrary: p)
  case Nil
  then show ?case by (simp add: keys_distinct_def)
next
  case (Cons e entries)
  have "logs_of key ident (resolve_entry env e p) = logs_of key ident p + image_mset ident (mset (snd e))"
    using ident_tagged [OF assms(1)] by (auto simp: resolve_entry_def logs_of_simps
        key_ready_texts [OF assms(1)] split: option.split)
  moreover have "distinct (map fst (held_logs (resolve_entry env e p)) @ map fst entries)"
    using Cons.prems by (auto simp: resolve_entry_def fold_set_durable split: option.split)
  ultimately show ?case using Cons.IH [of "resolve_entry env e p"] by (simp add: ac_simps)
qed

lemma resolve_conserves:
  assumes "traceable env key ident" and "keys_distinct p"
  shows "logs_of key ident (resolve_held_logs_on_durable_function_set env b p) = logs_of key ident p
    \<and> keys_distinct (resolve_held_logs_on_durable_function_set env b p)"
proof -
  have perm: "mset (map_order env (held_logs p)) = mset (held_logs p)"
    using assms(1) by (simp add: traceable_def)
  then have all: "mset (concat (map snd (map_order env (held_logs p)))) = mset (concat (map snd (held_logs p)))"
    by (rule mset_concat_snd_cong)
  have "distinct (map fst (map_order env (held_logs p)))"
    using assms(2) perm by (metis keys_distinct_def mset_map mset_eq_imp_distinct_iff)
  then show ?thesis
    using all resolve_entries_conserve [OF assms(1), of "p\<lparr>held_logs := [], held_logs_order := []\<rparr>"
        "map_order env (held_logs p)"]
    by (cases b) (simp_all add: resolve_held_logs_on_durable_function_set_def Let_def logs_of_simps
        keys_distinct_def key_ready_texts [OF assms(1)] del: mset_concat)
qed

section \<open>Conservation over whole runs\<close>

text \<open>
  The logs that pass the processing rules in one step: the log of the event and, when there is one,
  the orphan logs, with the request id of the invocation context.
\<close>

definition admit :: "'f LambdaProcessor \<Rightarrow> IntakeLog \<Rightarrow> IntakeLog list" where
  "admit p log =
     (if logs_enabled p then
        (case apply_rules (rules p) (message (log_message log)) of
           (True, msg) \<Rightarrow> [log\<lparr>log_message := (log_message log)\<lparr>message := msg\<rparr>\<rparr>]
         | (False, _) \<Rightarrow> [])
      else [])"

definition admitted_step :: "'f LogEnv \<Rightarrow> 'f TelemetryEvent \<Rightarrow> 'f LambdaProcessor \<Rightarrow> IntakeLog list" where
  "admitted_step env event p =
     (case make_log env event p of
        (Some log, q) \<Rightarrow> admit q log
          @ concat (map (admit q \<circ> set_request_id (Some (context_request_id q))) (orphan_logs q))
      | (None, _) \<Rightarrow> [])"

text \<open>What no queueing operation changes.\<close>

definition same_config :: "'f LambdaProcessor \<Rightarrow> 'f LambdaProcessor \<Rightarrow> bool" where
  "same_config p q \<longleftrightarrow> logs_enabled q = logs_enabled p \<and> rules q = rules p
     \<and> context_request_id q = context_request_id p \<and> orphan_logs q = orphan_logs p
     \<and> log_buffer_size q = log_buffer_size p \<and> is_durable_function q = is_durable_function p
     \<and> durable_context_map q = durable_context_map p"

lemma same_config_trans: "same_config p q \<Longrightarrow> same_config q r \<Longrightarrow> same_config p r"
  by (simp add: same_config_def)

lemma evict_step_config: "same_config p (evict_step env p)"
  by (auto simp: same_config_def evict_step_def Let_def fold_push_ready split: list.split option.split)

lemma evict_loop_config: "evict_loop env p = Some p' \<Longrightarrow> same_config p p'"
proof (rule evict_loop.raw_induct [where P = "\<lambda>env p p'. same_config p p'"])
  fix rec :: "'a LogEnv \<Rightarrow> 'a LambdaProcessor \<Rightarrow> 'a LambdaProcessor option" and env p p'
  assume "\<And>env p p'. rec env p = Some p' \<Longrightarrow> same_config p p'"
    and "(if log_buffer_size p \<le> length (held_logs p) then rec env (evict_step env p) else Some p) = Some p'"
  then show "same_config p p'"
    using evict_step_config same_config_trans by (fastforce simp: same_config_def split: if_splits)
qed

lemma hold_log_config: "hold_log env rid log p = Some p' \<Longrightarrow> same_config p p'"
  by (auto simp: hold_log_def bind_eq_Some_conv same_config_def dest!: evict_loop_config split: if_splits)

lemma queue_config: "queue_log_after_rules env log p = Some p' \<Longrightarrow> same_config p p'"
  by (auto simp: queue_log_after_rules_def Let_def same_config_def push_ready_eq
      set_durable_context_and_mark_ready_def dest!: hold_log_config
      split: if_splits option.splits bool.splits)

lemma process_and_queue_admits:
  assumes "traceable env key ident" and "keys_distinct p" and "process_and_queue_log env log p = Some p'"
  shows "logs_of key ident p' = logs_of key ident p + image_mset ident (mset (admit p log))
    \<and> keys_distinct p' \<and> same_config p p'"
proof (cases "logs_enabled p \<and> fst (apply_rules (rules p) (message (log_message log)))")
  case True
  let ?log = "log\<lparr>log_message := (log_message log)\<lparr>message := snd (apply_rules (rules p) (message (log_message log)))\<rparr>\<rparr>"
  from True have "admit p log = [?log]"
    by (cases "apply_rules (rules p) (message (log_message log))") (simp add: admit_def)
  moreover from True assms(3) have "queue_log_after_rules env ?log p = Some p'"
    by (simp add: process_and_queue_log_def split_beta)
  ultimately show ?thesis
    using queue_conserves [OF assms(1,2)] queue_config by fastforce
next
  case False
  then have "admit p log = []"
    by (cases "apply_rules (rules p) (message (log_message log))") (auto simp: admit_def)
  moreover from False assms(3) have "p' = p"
    by (auto simp: process_and_queue_log_def split_beta split: if_splits)
  ultimately show ?thesis using assms(2) by (simp add: same_config_def)
qed

lemma admit_config: "same_config p q \<Longrightarrow> admit q = admit p"
  by (auto simp: admit_def same_config_def)

lemma process_orphans_admits:
  assumes "traceable env key ident" and "keys_distinct p" and "process_orphans env logs p = Some p'"
  shows "logs_of key ident p' = logs_of key ident p
      + image_mset ident (mset (concat (map (admit p \<circ> set_request_id (Some (context_request_id p))) logs)))
    \<and> keys_distinct p' \<and> same_config p p'"
  using assms(2,3)
proof (induction logs arbitrary: p)
  case Nil
  then show ?case by (simp add: same_config_def)
next
  case (Cons log logs)
  let ?log = "set_request_id (Some (context_request_id p)) log"
  from Cons.prems(2) obtain q where q: "process_and_queue_log env ?log p = Some q"
    "process_orphans env logs q = Some p'" by (auto simp: bind_eq_Some_conv)
  have 1: "logs_of key ident q = logs_of key ident p + image_mset ident (mset (admit p ?log))"
      "keys_distinct q" "same_config p q"
    using process_and_queue_admits [OF assms(1) Cons.prems(1) q(1)] by simp_all
  from 1(3) have adm: "admit q = admit p" by (rule admit_config)
  from 1(3) have rid: "context_request_id q = context_request_id p" by (simp add: same_config_def)
  have "same_config p p'"
    using Cons.IH [OF 1(2) q(2)] 1(3) same_config_trans by blast
  with Cons.IH [OF 1(2) q(2)] 1(1) show ?case by (simp add: adm rid)
qed

text \<open>Only \<open>PlatformInitStart\<close> touches the held and the ready logs while a message is made.\<close>

definition same_logs :: "'f LambdaProcessor \<Rightarrow> 'f LambdaProcessor \<Rightarrow> bool" where
  "same_logs p q \<longleftrightarrow> ready_logs q = ready_logs p \<and> held_logs q = held_logs p
     \<and> held_logs_order q = held_logs_order p \<and> log_buffer_size q = log_buffer_size p"

definition is_init_start :: "'f TelemetryEvent \<Rightarrow> bool" where
  "is_init_start event = (case te_record event of PlatformInitStart _ _ _ _ \<Rightarrow> True | _ \<Rightarrow> False)"

definition is_durable_init :: "'f TelemetryEvent \<Rightarrow> bool" where
  "is_durable_init event = (case te_record event of
     PlatformInitStart _ _ rv _ \<Rightarrow> contains ''DurableFunction'' (case rv of Some s \<Rightarrow> s | None \<Rightarrow> ''?'')
   | _ \<Rightarrow> False)"

lemma same_logs_simps [simp]:
  "same_logs p p" "same_logs p (send_bus e q) \<longleftrightarrow> same_logs p q"
  "same_logs p (report_oom msg rid t q) \<longleftrightarrow> same_logs p q"
  "same_logs p (q\<lparr>context_request_id := r\<rparr>) \<longleftrightarrow> same_logs p q"
  "same_logs p (q\<lparr>runtime_duration_ms := d\<rparr>) \<longleftrightarrow> same_logs p q"
  "same_logs p (q\<lparr>runtime_duration_ms := d, context_request_id := r\<rparr>) \<longleftrightarrow> same_logs p q"
  "same_logs p (q\<lparr>is_durable_function := b\<rparr>) \<longleftrightarrow> same_logs p q"
  "same_logs p (q\<lparr>orphan_logs := os\<rparr>) \<longleftrightarrow> same_logs p q"
  by (simp_all add: same_logs_def send_bus_def report_oom_def)

lemma get_message_same_logs:
  "\<not> is_init_start event \<Longrightarrow> same_logs p (snd (get_message env event p))"
  by (cases "te_record event")
     (simp_all add: get_message_def is_init_start_def Let_def split: prod.split option.split ReportMetrics.split)

lemma get_message_init_start:
  assumes "is_init_start event"
  shows "snd (get_message env event p) = resolve_held_logs_on_durable_function_set env (is_durable_init event)
    ((send_bus (Telemetry event) p)\<lparr>is_durable_function := Some (is_durable_init event)\<rparr>)"
  using assms
  by (cases "te_record event") (simp_all add: get_message_def is_init_start_def is_durable_init_def Let_def)

lemma get_intake_log_same_logs: "same_logs p (snd (get_intake_log env m p))"
  by (simp add: get_intake_log_def Let_def)

lemma make_log_state:
  "snd (make_log env event p) = snd (get_message env event p)
    \<or> (\<exists>m. snd (make_log env event p) = snd (get_intake_log env m (snd (get_message env event p))))"
  by (cases "get_message env event p") (auto simp: make_log_def split: option.split)

lemma same_logs_conserves:
  assumes "same_logs p q"
  shows "logs_of key ident q = logs_of key ident p" "keys_distinct q \<longleftrightarrow> keys_distinct p"
  using assms by (simp_all add: same_logs_def logs_of_def held_list_def keys_distinct_def)

lemma make_log_conserves:
  assumes "traceable env key ident" and "keys_distinct p"
  shows "logs_of key ident (snd (make_log env event p)) = logs_of key ident p
    \<and> keys_distinct (snd (make_log env event p))"
proof -
  have msg: "logs_of key ident (snd (get_message env event p)) = logs_of key ident p
      \<and> keys_distinct (snd (get_message env event p))"
  proof (cases "is_init_start event")
    case True
    let ?q = "(send_bus (Telemetry event) p)\<lparr>is_durable_function := Some (is_durable_init event)\<rparr>"
    have "same_logs p ?q" by simp
    from same_logs_conserves [OF this] assms(2) resolve_conserves [OF assms(1), of ?q]
    show ?thesis by (simp add: get_message_init_start [OF True])
  next
    case False
    from same_logs_conserves [OF get_message_same_logs [OF False]] assms(2) show ?thesis by simp
  qed
  have "same_logs (snd (get_message env event p)) (snd (make_log env event p))"
    using make_log_state [of env event p] get_intake_log_same_logs by fastforce
  from same_logs_conserves(1) [OF this, of key ident] same_logs_conserves(2) [OF this] msg
  show ?thesis by simp
qed

lemma process_conserves:
  assumes "traceable env key ident" and "keys_distinct p" and "process env event p = Some (batch, p')"
  shows "image_mset key (mset batch) + logs_of key ident p'
      = logs_of key ident p + image_mset ident (mset (admitted_step env event p))
    \<and> keys_distinct p' \<and> ready_logs p' = []"
proof -
  obtain l q where mk: "make_log env event p = (l, q)" by (cases "make_log env event p")
  with make_log_conserves [OF assms(1,2), of event]
  have q: "logs_of key ident q = logs_of key ident p" "keys_distinct q" by simp_all
  have taken: "image_mset key (mset batch) + logs_of key ident p' = logs_of key ident r
      \<and> (keys_distinct p' \<longleftrightarrow> keys_distinct r) \<and> ready_logs p' = []"
    if "(batch, p') = take_ready_logs r" for r
    using that by (simp add: take_ready_logs_def logs_of_def held_list_def keys_distinct_def)
  show ?thesis
  proof (cases l)
    case None
    with mk assms(3) have "(batch, p') = take_ready_logs q" by (simp add: process_def)
    from taken [OF this] q mk None show ?thesis by (simp add: admitted_step_def)
  next
    case (Some log)
    with mk assms(3) obtain r r' where r: "process_and_queue_log env log q = Some r"
        "process_orphans env (orphan_logs r) (r\<lparr>orphan_logs := []\<rparr>) = Some r'"
        "(batch, p') = take_ready_logs r'"
      by (auto simp: process_def bind_eq_Some_conv)
    let ?r = "r\<lparr>orphan_logs := []\<rparr>"
    have 1: "logs_of key ident r = logs_of key ident q + image_mset ident (mset (admit q log))"
        "keys_distinct r" "same_config q r"
      using process_and_queue_admits [OF assms(1) q(2) r(1)] by simp_all
    have same: "logs_of key ident ?r = logs_of key ident r" "keys_distinct ?r"
      using 1(2) by (simp_all add: logs_of_def held_list_def keys_distinct_def)
    have cfg: "admit ?r = admit q" "context_request_id ?r = context_request_id q" "orphan_logs r = orphan_logs q"
      using 1(3) by (auto simp: admit_def same_config_def)
    from process_orphans_admits [OF assms(1) same(2) r(2)] taken [OF r(3)] 1(1) same(1) q(1) mk Some
    show ?thesis by (simp add: admitted_step_def cfg ac_simps)
  qed
qed

text \<open>A run of the processor over the events and the context updates it receives.\<close>

datatype 'f LogInput = EventIn "'f TelemetryEvent" | ContextIn DurableContextUpdate

fun logs_run :: "'f LogEnv \<Rightarrow> 'f LogInput list \<Rightarrow> 'f LambdaProcessor \<Rightarrow> (string list \<times> 'f LambdaProcessor) option" where
  "logs_run env [] p = Some ([], p)"
| "logs_run env (EventIn e # inputs) p = do {
     (batch, p) \<leftarrow> process env e p;
     (batches, p) \<leftarrow> logs_run env inputs p;
     Some (batch @ batches, p)
   }"
| "logs_run env (ContextIn u # inputs) p = do {
     let (batch, p) = process_durable_context_update env u p;
     (batches, p) \<leftarrow> logs_run env inputs p;
     Some (batch @ batches, p)
   }"

fun admitted_run :: "'f LogEnv \<Rightarrow> 'f LogInput list \<Rightarrow> 'f LambdaProcessor \<Rightarrow> IntakeLog list" where
  "admitted_run env [] p = []"
| "admitted_run env (EventIn e # inputs) p = admitted_step env e p
     @ (case process env e p of Some (_, p) \<Rightarrow> admitted_run env inputs p | None \<Rightarrow> [])"
| "admitted_run env (ContextIn u # inputs) p =
     admitted_run env inputs (snd (process_durable_context_update env u p))"

lemma logs_run_conserves:
  assumes "traceable env key ident" and "keys_distinct p" and "logs_run env inputs p = Some (out, p')"
  shows "image_mset key (mset out) + logs_of key ident p'
      = logs_of key ident p + image_mset ident (mset (admitted_run env inputs p)) \<and> keys_distinct p'"
  using assms(2,3)
proof (induction inputs arbitrary: p out)
  case Nil
  then show ?case by simp
next
  case (Cons i inputs)
  show ?case
  proof (cases i)
    case (EventIn e)
    with Cons.prems(2) obtain batch q batches where q: "process env e p = Some (batch, q)"
        "logs_run env inputs q = Some (batches, p')" "out = batch @ batches"
      by (auto simp: bind_eq_Some_conv)
    note step = process_conserves [OF assms(1) Cons.prems(1) q(1)]
    from step Cons.IH [OF _ q(2)] show ?thesis
      by (auto simp: EventIn q(1,3)) (metis (no_types, lifting) add.assoc add.commute)
  next
    case (ContextIn u)
    obtain batch q where upd: "process_durable_context_update env u p = (batch, q)"
      by (cases "process_durable_context_update env u p")
    with Cons.prems(2) ContextIn obtain batches where run: "logs_run env inputs q = Some (batches, p')"
        "out = batch @ batches"
      by (auto simp: bind_eq_Some_conv)
    have "image_mset key (mset batch) + logs_of key ident q = logs_of key ident p \<and> keys_distinct q"
      using upd insert_context_conserves [OF assms(1) Cons.prems(1), of "du_request_id u" "du_context u"]
      by (auto simp: process_durable_context_update_def take_ready_logs_def logs_of_def held_list_def
          keys_distinct_def)
    with Cons.IH [OF _ run(1)] show ?thesis
      by (auto simp: ContextIn upd run(2)) (metis (no_types, lifting) add.assoc add.commute)
  qed
qed

text \<open>
  C4. No log is lost and none is duplicated: over any sequence of telemetry events and durable
  context updates that the processor completes, the texts handed to the logs aggregator together with
  those of the final drain at shutdown are, as a multiset and up to the durable execution
  attributes, exactly the logs that passed the processing rules; nothing stays held.
\<close>

theorem no_log_lost_or_duplicated:
  assumes "traceable env key ident"
    and "logs_run env inputs (lp_new env farn svc tgs rs enabled buffer mi) = Some (out, p)"
    and "shutdown_drain env p = (rest, p')"
  shows "image_mset key (mset (out @ rest))
      = image_mset ident (mset (admitted_run env inputs (lp_new env farn svc tgs rs enabled buffer mi)))
    \<and> held_logs p' = [] \<and> ready_logs p' = []"
proof -
  let ?p0 = "lp_new env farn svc tgs rs enabled buffer mi"
  have new: "keys_distinct ?p0" "logs_of key ident ?p0 = {#}"
    by (simp_all add: keys_distinct_def logs_of_def held_list_def lp_new_def)
  have run: "image_mset key (mset out) + logs_of key ident p
      = image_mset ident (mset (admitted_run env inputs ?p0))"
    using logs_run_conserves [OF assms(1) new(1) assms(2)] new(2) by simp
  have "logs_of key ident p = image_mset key (mset rest)" "held_logs p' = []" "ready_logs p' = []"
    using drain_held_conserves [OF assms(1), of p] assms(3)
    by (auto simp: shutdown_drain_def take_ready_logs_def logs_of_def held_list_def)
  with run show ?thesis by simp
qed

text \<open>Parameters for the witnesses: a log is serialised as its message text.\<close>

definition sample_env :: "nat LogEnv" where
  "sample_env = \<lparr>f_zero = 0, f_positive = (\<lambda>d. 0 < d), f_sub = (-), f_per_1000 = (\<lambda>d. d div 1000),
     f_fixed2 = nat_str, to_json_string = (\<lambda>_. ''{}''), from_json_str = (\<lambda>_. None),
     serialize = (\<lambda>log. Some (message (log_message log))), debug_str = (\<lambda>s. s),
     to_uppercase = (\<lambda>s. s), map_order = (\<lambda>h. h)\<rparr>"

definition sample_start :: "string \<Rightarrow> nat LogInput" where
  "sample_start rid = EventIn \<lparr>te_time = 0, te_record = PlatformStart rid None\<rparr>"

definition sample_log :: "string \<Rightarrow> nat LogInput" where
  "sample_log s = EventIn \<lparr>te_time = 0, te_record = Function (JString s)\<rparr>"

definition sample_init :: "string \<Rightarrow> nat LogInput" where
  "sample_init rv = EventIn \<lparr>te_time = 0, te_record = PlatformInitStart OnDemandInit Init (Some rv) None\<rparr>"

definition sample_processor :: "nat \<Rightarrow> nat LambdaProcessor" where
  "sample_processor buffer = lp_new sample_env [] [] [] None True buffer False"

lemma evict_loop_room [simp]: "length (held_logs p) < log_buffer_size p \<Longrightarrow> evict_loop env p = Some p"
  by (subst evict_loop.simps) simp

lemma sample_traceable: "traceable sample_env (\<lambda>s. s) (\<lambda>log. message (log_message log))"
  by (simp add: traceable_def sample_env_def tag_durable_def Let_def)

lemmas logs_eval = sample_env_def sample_start_def sample_log_def sample_init_def sample_processor_def
  lp_new_def process_def make_log_def get_message_def get_intake_log_def function_record_def
  report_oom_def process_and_queue_log_def apply_rules_def queue_log_after_rules_def hold_log_def
  held_push_def take_ready_logs_def Message_new_def send_bus_def current_request_id_def
  push_ready_def set_durable_context_and_mark_ready_def Let_def

lemma sample_not_oom: "\<not> is_oom_error ''hi''"
  by code_simp

lemma sample_run:
  "\<exists>p. logs_run sample_env [sample_start ''r'', sample_log ''hi''] (sample_processor 2) = Some ([], p)
    \<and> shutdown_drain sample_env p = ([''START RequestId: r Version: $LATEST'', ''hi''],
        p\<lparr>held_logs := [], held_logs_order := []\<rparr>)"
  by (simp add: logs_eval sample_not_oom shutdown_drain_def drain_held_logs_def)

theorem no_log_lost_or_duplicated_witness:
  "\<exists>p p' rest. logs_run sample_env [sample_start ''r'', sample_log ''hi''] (sample_processor 2) = Some ([], p)
    \<and> shutdown_drain sample_env p = (rest, p')
    \<and> mset rest = image_mset (\<lambda>log. message (log_message log))
        (mset (admitted_run sample_env [sample_start ''r'', sample_log ''hi''] (sample_processor 2)))
    \<and> rest \<noteq> []"
proof -
  from sample_run obtain p where p:
    "logs_run sample_env [sample_start ''r'', sample_log ''hi''] (sample_processor 2) = Some ([], p)"
    "shutdown_drain sample_env p = ([''START RequestId: r Version: $LATEST'', ''hi''],
        p\<lparr>held_logs := [], held_logs_order := []\<rparr>)" by blast
  from no_log_lost_or_duplicated [OF sample_traceable p(1) [unfolded sample_processor_def] p(2)]
  have "mset [''START RequestId: r Version: $LATEST'', ''hi''] = image_mset (\<lambda>log. message (log_message log))
        (mset (admitted_run sample_env [sample_start ''r'', sample_log ''hi''] (sample_processor 2)))"
    by (simp add: sample_processor_def)
  with p show ?thesis
    by (intro exI [of _ p] exI [of _ "p\<lparr>held_logs := [], held_logs_order := []\<rparr>"]
        exI [of _ "[''START RequestId: r Version: $LATEST'', ''hi'']"]) simp
qed

end
