(* ===== verification/LogsLiveness.thy ===== *)
theory LogsLiveness
  imports HeldLogs
begin

text \<open>
  Termination of the logs processor and the bound on its buffer of held logs, the case in which the
  eviction loop never ends, the effect of a durable context that arrives late, orphan logs, and the
  durable execution ARN.
\<close>

section \<open>The eviction loop ends while the insertion order is complete\<close>

definition held_keys :: "'f LambdaProcessor \<Rightarrow> string set" where
  "held_keys p = fst ` set (held_logs p)"

definition held_inv :: "'f LambdaProcessor \<Rightarrow> bool" where
  "held_inv p \<longleftrightarrow> keys_distinct p \<and> distinct (held_logs_order p) \<and> set (held_logs_order p) = held_keys p"

definition bounded :: "'f LambdaProcessor \<Rightarrow> bool" where
  "bounded p \<longleftrightarrow> held_inv p \<and> length (held_logs p) \<le> log_buffer_size p"

lemma length_held_remove:
  assumes "distinct (map fst h)" and "rid \<in> fst ` set h"
  shows "Suc (length (held_remove rid h)) = length h"
  using assms
proof (induction h)
  case (Cons e h)
  show ?case
  proof (cases "fst e = rid")
    case True
    with Cons.prems have "held_remove rid h = h" by (simp add: held_remove_absent)
    with True show ?thesis by (cases e) (simp add: held_remove_def)
  next
    case False
    with Cons show ?thesis by (cases e) (simp add: held_remove_def)
  qed
qed simp

lemma keys_of_held_remove: "fst ` set (held_remove rid h) = fst ` set h - {rid}"
  using keys_held_remove [of rid h] by simp

lemma evict_step_progress:
  assumes "held_inv p" and "held_logs p \<noteq> []"
  shows "held_inv (evict_step env p) \<and> Suc (length (held_logs (evict_step env p))) = length (held_logs p)"
proof -
  from assms have "held_logs_order p \<noteq> []"
    by (auto simp: held_inv_def held_keys_def)
  then obtain oldest rest where ord: "held_logs_order p = oldest # rest" by (cases "held_logs_order p") auto
  with assms(1) have old: "oldest \<in> fst ` set (held_logs p)" "oldest \<notin> set rest" "distinct rest"
      "set rest = held_keys p - {oldest}" "distinct (map fst (held_logs p))"
    by (auto simp: held_inv_def held_keys_def keys_distinct_def)
  then obtain evicted where ev: "map_of (held_logs p) oldest = Some evicted"
    by (metis map_of_eq_None_iff not_None_eq)
  have "held_logs (evict_step env p) = held_remove oldest (held_logs p)"
    "held_logs_order (evict_step env p) = rest"
    using ord ev by (simp_all add: evict_step_def fold_push_ready)
  with old show ?thesis
    by (simp add: held_inv_def keys_distinct_def held_keys_def distinct_held_remove keys_of_held_remove
        length_held_remove)
qed

lemma evict_loop_terminates:
  assumes "held_inv p" and "0 < log_buffer_size p"
  shows "\<exists>p'. evict_loop env p = Some p' \<and> held_inv p' \<and> length (held_logs p') < log_buffer_size p
    \<and> held_keys p' \<subseteq> held_keys p"
  using assms
proof (induction "length (held_logs p)" arbitrary: p rule: less_induct)
  case less
  show ?case
  proof (cases "length (held_logs p) < log_buffer_size p")
    case True
    with less.prems show ?thesis by auto
  next
    case False
    let ?q = "evict_step env p"
    from False less.prems(2) have "held_logs p \<noteq> []" by auto
    note step = evict_step_progress [OF less.prems(1) this, of env]
    have size: "log_buffer_size ?q = log_buffer_size p"
      using evict_step_config [of p env] by (simp add: same_config_def)
    have keys: "held_keys ?q \<subseteq> held_keys p"
      by (auto simp: evict_step_def held_keys_def fold_push_ready Let_def held_remove_def
          split: list.split option.split)
    from less.hyps [of ?q] step less.prems(2) size obtain p' where
      "evict_loop env ?q = Some p'" "held_inv p'" "length (held_logs p') < log_buffer_size p"
      "held_keys p' \<subseteq> held_keys ?q" by auto
    moreover have "evict_loop env p = evict_loop env ?q"
      using False by (subst evict_loop.simps) simp
    ultimately show ?thesis using keys by auto
  qed
qed

lemma hold_log_returns:
  assumes "bounded p"
  shows "\<exists>p'. hold_log env rid log p = Some p' \<and> bounded p'"
proof (cases "log_buffer_size p = 0 \<or> map_of (held_logs p) rid \<noteq> None")
  case True
  then show ?thesis
  proof (cases "log_buffer_size p = 0")
    case True
    with assms show ?thesis by (simp add: hold_log_def)
  next
    case False
    with True obtain logs where "map_of (held_logs p) rid = Some logs" by auto
    with False assms show ?thesis
      by (simp add: hold_log_def bounded_def held_inv_def keys_distinct_def held_keys_def keys_held_push
          flip: set_map) (simp add: held_push_def)
  qed
next
  case False
  then have none: "map_of (held_logs p) rid = None" and pos: "0 < log_buffer_size p" by auto
  from evict_loop_terminates [OF _ pos, of env] assms obtain q where q: "evict_loop env p = Some q"
    "held_inv q" "length (held_logs q) < log_buffer_size p" "held_keys q \<subseteq> held_keys p"
    by (auto simp: bounded_def)
  have fresh: "rid \<notin> held_keys q" "map_of (held_logs q) rid = None"
    using q(4) none by (auto simp: held_keys_def map_of_eq_None_iff)
  have size: "log_buffer_size q = log_buffer_size p"
    using evict_loop_config [OF q(1)] by (simp add: same_config_def)
  have "hold_log env rid log p = Some (q\<lparr>held_logs_order := held_logs_order q @ [rid],
      held_logs := held_logs q @ [(rid, [log])]\<rparr>)"
    using none pos q(1) fresh(2) by (simp add: hold_log_def held_push_def)
  with q(2,3) fresh size show ?thesis
    by (auto simp: bounded_def held_inv_def keys_distinct_def held_keys_def)
qed

lemma bounded_ready [simp]: "bounded (p\<lparr>ready_logs := r\<rparr>) \<longleftrightarrow> bounded p"
  by (simp add: bounded_def held_inv_def keys_distinct_def held_keys_def)

lemma bounded_same_logs: "same_logs p q \<Longrightarrow> bounded q \<longleftrightarrow> bounded p"
  by (simp add: bounded_def held_inv_def keys_distinct_def held_keys_def same_logs_def)

lemma queue_returns:
  assumes "bounded p"
  shows "\<exists>p'. queue_log_after_rules env log p = Some p' \<and> bounded p'"
  using hold_log_returns [OF assms] assms
  by (auto simp: queue_log_after_rules_def Let_def push_ready_eq set_durable_context_and_mark_ready_def
      split: option.split bool.split)

lemma process_and_queue_returns:
  assumes "bounded p"
  shows "\<exists>p'. process_and_queue_log env log p = Some p' \<and> bounded p'"
  using queue_returns [OF assms] assms by (simp add: process_and_queue_log_def split_beta)

lemma process_orphans_returns: "bounded p \<Longrightarrow> \<exists>p'. process_orphans env logs p = Some p' \<and> bounded p'"
proof (induction logs arbitrary: p)
  case (Cons log logs)
  obtain q where "process_and_queue_log env (set_request_id (Some (context_request_id p)) log) p = Some q"
    "bounded q"
    using process_and_queue_returns [OF Cons.prems] by blast
  with Cons.IH [of q] show ?case by simp
qed simp

lemma resolve_bounded:
  assumes "held_logs p = [] \<or> \<not> b" and "\<forall>h. mset (map_order env h) = mset h"
  shows "bounded (resolve_held_logs_on_durable_function_set env b p)"
proof (cases b)
  case True
  with assms have "map_order env (held_logs p) = []" by (metis mset.simps(1) mset_zero_iff)
  with True show ?thesis
    by (simp add: resolve_held_logs_on_durable_function_set_def bounded_def held_inv_def keys_distinct_def
        held_keys_def)
next
  case False
  then show ?thesis
    by (simp add: resolve_held_logs_on_durable_function_set_def fold_push_ready)
       (simp add: bounded_def held_inv_def keys_distinct_def held_keys_def)
qed

lemma make_log_bounded:
  assumes "bounded p" and "is_durable_init event \<longrightarrow> held_logs p = []"
    and "\<forall>h. mset (map_order env h) = mset h"
  shows "bounded (snd (make_log env event p))"
proof -
  have "bounded (snd (get_message env event p))"
  proof (cases "is_init_start event")
    case True
    show ?thesis
      unfolding get_message_init_start [OF True]
      by (rule resolve_bounded) (use assms(2,3) in \<open>auto simp: send_bus_def\<close>)
  next
    case False
    from bounded_same_logs [OF get_message_same_logs [OF False]] assms(1) show ?thesis by blast
  qed
  moreover have "same_logs (snd (get_message env event p)) (snd (make_log env event p))"
    using make_log_state [of env event p] get_intake_log_same_logs by fastforce
  ultimately show ?thesis using bounded_same_logs by blast
qed

lemma process_returns:
  assumes "bounded p" and "is_durable_init event \<longrightarrow> held_logs p = []"
    and "\<forall>h. mset (map_order env h) = mset h"
  shows "\<exists>batch p'. process env event p = Some (batch, p') \<and> bounded p'"
proof -
  obtain l q where mk: "make_log env event p = (l, q)" by (cases "make_log env event p")
  with make_log_bounded [OF assms] have q: "bounded q" by (metis snd_conv)
  show ?thesis
  proof (cases l)
    case None
    with mk q show ?thesis by (simp add: process_def take_ready_logs_def)
  next
    case (Some log)
    obtain r where r: "process_and_queue_log env log q = Some r" "bounded r"
      using process_and_queue_returns [OF q] by blast
    then have "bounded (r\<lparr>orphan_logs := []\<rparr>)"
      using bounded_same_logs [of r "r\<lparr>orphan_logs := []\<rparr>"] by simp
    from process_orphans_returns [OF this] obtain r' where
      "process_orphans env (orphan_logs r) (r\<lparr>orphan_logs := []\<rparr>) = Some r'" "bounded r'" by blast
    with mk Some r(1) show ?thesis by (simp add: process_def take_ready_logs_def)
  qed
qed

lemma drain_rid_bounded: "bounded p \<Longrightarrow> bounded (drain_held_logs_for_request_id env rid p)"
proof -
  assume b: "bounded p"
  let ?q = "p\<lparr>held_logs := held_remove rid (held_logs p),
    held_logs_order := filter (\<lambda>r. r \<noteq> rid) (held_logs_order p)\<rparr>"
  have "length (held_remove rid (held_logs p)) \<le> length (held_logs p)"
    by (simp add: held_remove_def)
  with b have "bounded ?q"
    by (auto simp: bounded_def held_inv_def keys_distinct_def held_keys_def distinct_held_remove
        keys_of_held_remove)
  with b show ?thesis
    by (auto simp: drain_held_logs_for_request_id_def Let_def fold_set_durable split: option.split)
qed

lemma insert_context_bounded:
  assumes "bounded p"
  shows "bounded (insert_to_durable_context_map env rid ctx p)"
proof -
  let ?q = "(evict_oldest_context p)\<lparr>
    durable_context_order := durable_context_order (evict_oldest_context p) @ [rid],
    durable_context_map := (durable_context_map (evict_oldest_context p))(rid \<mapsto> ctx)\<rparr>"
  have "bounded ?q"
    using assms by (simp add: bounded_def held_inv_def keys_distinct_def held_keys_def)
  then show ?thesis
    using assms drain_rid_bounded [of ?q] by (simp add: insert_to_durable_context_map_def Let_def)
qed

definition late_durable_init :: "'f LogInput \<Rightarrow> bool" where
  "late_durable_init i = (case i of EventIn e \<Rightarrow> is_durable_init e | ContextIn _ \<Rightarrow> False)"

lemma logs_run_returns:
  assumes "bounded p" and "\<forall>i \<in> set inputs. \<not> late_durable_init i"
    and "\<forall>h. mset (map_order env h) = mset h"
  shows "\<exists>out p'. logs_run env inputs p = Some (out, p') \<and> bounded p'"
  using assms(1,2)
proof (induction inputs arbitrary: p)
  case (Cons i inputs)
  show ?case
  proof (cases i)
    case (EventIn e)
    with Cons.prems assms(3) obtain batch q where "process env e p = Some (batch, q)" "bounded q"
      using process_returns [of p e env] by (auto simp: late_durable_init_def)
    with Cons.IH [of q] Cons.prems(2) EventIn show ?thesis by auto
  next
    case (ContextIn u)
    let ?q = "snd (process_durable_context_update env u p)"
    have "bounded ?q"
      using insert_context_bounded [OF Cons.prems(1)]
      by (simp add: process_durable_context_update_def take_ready_logs_def)
    with Cons.IH [of ?q] Cons.prems(2) ContextIn show ?thesis by (auto simp: split_beta)
  qed
qed simp

text \<open>
  C12. The processor always completes and its buffer of held logs is bounded, as long as the
  \<open>platform.initStart\<close> of a durable runtime comes first: over any inputs of which only the first may
  announce a durable runtime, every call returns, at most \<open>lambda_durable_function_log_buffer_size\<close>
  request ids have held logs, and each of them is in the eviction order exactly once.
\<close>

theorem held_logs_bounded_and_live:
  assumes "\<forall>i \<in> set (tl inputs). \<not> late_durable_init i" and "\<forall>h. mset (map_order env h) = mset h"
  shows "\<exists>out p. logs_run env inputs (lp_new env farn svc tgs rs enabled buffer mi) = Some (out, p)
    \<and> length (held_logs p) \<le> log_buffer_size p \<and> distinct (held_logs_order p)
    \<and> set (held_logs_order p) = fst ` set (held_logs p)"
proof -
  let ?p0 = "lp_new env farn svc tgs rs enabled buffer mi"
  have new: "bounded ?p0"
    by (simp add: bounded_def held_inv_def keys_distinct_def held_keys_def lp_new_def)
  have "\<exists>out p. logs_run env inputs ?p0 = Some (out, p) \<and> bounded p"
  proof (cases inputs)
    case Nil
    with new show ?thesis by simp
  next
    case (Cons i rest)
    show ?thesis
    proof (cases i)
      case (EventIn e)
      have "held_logs ?p0 = []" by (simp add: lp_new_def)
      with new assms(2) obtain batch q where "process env e ?p0 = Some (batch, q)" "bounded q"
        using process_returns [of ?p0 e env] by blast
      with logs_run_returns [of q rest env] assms Cons EventIn show ?thesis by auto
    next
      case (ContextIn u)
      with logs_run_returns [of ?p0 inputs env] new assms Cons show ?thesis
        by (auto simp: late_durable_init_def)
    qed
  qed
  then show ?thesis by (auto simp: bounded_def held_inv_def held_keys_def)
qed

theorem held_logs_bounded_and_live_witness:
  "\<exists>out p. logs_run sample_env [sample_init ''DurableFunction'', sample_start ''a'', sample_start ''b'']
      (sample_processor 1) = Some (out, p) \<and> length (held_logs p) \<le> log_buffer_size p"
proof -
  have "\<not> late_durable_init (sample_start r)" for r
    by (simp add: late_durable_init_def is_durable_init_def sample_start_def)
  then show ?thesis
    using held_logs_bounded_and_live
      [of "[sample_init ''DurableFunction'', sample_start ''a'', sample_start ''b'']" sample_env
        "[]" "[]" "[]" None True 1 False]
    by (auto simp: sample_processor_def sample_env_def)
qed

section \<open>The eviction loop that never ends\<close>

definition stuck :: "'f LambdaProcessor \<Rightarrow> bool" where
  "stuck p \<longleftrightarrow> log_buffer_size p \<le> card (held_keys p - set (held_logs_order p))"

lemma finite_held_keys [simp]: "finite (held_keys p)"
  by (simp add: held_keys_def)

lemma stuck_full: "stuck p \<Longrightarrow> log_buffer_size p \<le> length (held_logs p)"
proof -
  assume "stuck p"
  moreover have "card (held_keys p - set (held_logs_order p)) \<le> card (held_keys p)"
    by (intro card_mono) auto
  moreover have "card (held_keys p) \<le> length (held_logs p)"
    unfolding held_keys_def by (metis card_length length_map list.set_map)
  ultimately show ?thesis by (simp add: stuck_def)
qed

lemma evict_step_stuck:
  assumes "stuck p"
  shows "stuck (evict_step env p)"
proof -
  have "held_keys p - set (held_logs_order p)
      \<subseteq> held_keys (evict_step env p) - set (held_logs_order (evict_step env p))"
    by (auto simp: evict_step_def Let_def fold_push_ready held_keys_def keys_of_held_remove
        split: list.split option.split)
  then have "card (held_keys p - set (held_logs_order p))
      \<le> card (held_keys (evict_step env p) - set (held_logs_order (evict_step env p)))"
    by (intro card_mono) auto
  moreover have "log_buffer_size (evict_step env p) = log_buffer_size p"
    using evict_step_config [of p env] by (simp add: same_config_def)
  ultimately show ?thesis using assms by (simp add: stuck_def)
qed

lemma evict_loop_stuck:
  assumes "stuck p"
  shows "evict_loop env p = None"
proof (rule ccontr)
  assume "evict_loop env p \<noteq> None"
  then obtain p' where p': "evict_loop env p = Some p'" by blast
  have "\<not> stuck p"
  proof (rule evict_loop.raw_induct [where P = "\<lambda>env p p'. \<not> stuck p", OF _ p'])
    fix rec :: "'a LogEnv \<Rightarrow> 'a LambdaProcessor \<Rightarrow> 'a LambdaProcessor option" and env p p'
    assume "\<And>env p p'. rec env p = Some p' \<Longrightarrow> \<not> stuck p"
      and "(if log_buffer_size p \<le> length (held_logs p) then rec env (evict_step env p) else Some p) = Some p'"
    then show "\<not> stuck p"
      using evict_step_stuck [of p env] stuck_full [of p] by (auto split: if_splits)
  qed
  with assms show False by contradiction
qed

text \<open>
  C32. When as many request ids as the buffer has room for are held without being in the eviction
  order, a log of a new request id makes \<open>hold_log\<close> loop forever: no key can be evicted and the
  condition of the loop stays true.
\<close>

theorem hold_log_diverges:
  assumes "log_buffer_size p \<le> card (fst ` set (held_logs p) - set (held_logs_order p))"
    and "0 < log_buffer_size p" and "rid \<notin> fst ` set (held_logs p)"
  shows "hold_log env rid log p = None"
proof -
  have "stuck p" using assms(1) by (simp add: stuck_def held_keys_def)
  moreover have "map_of (held_logs p) rid = None"
    using assms(3) by (simp add: map_of_eq_None_iff)
  ultimately show ?thesis
    using assms(2) by (simp add: hold_log_def evict_loop_stuck)
qed

text \<open>
  The state is reached when the \<open>initStart\<close> of a durable runtime is processed after logs were held.
\<close>

lemma late_init_state:
  "\<exists>out p log. logs_run sample_env [sample_start ''a'', sample_init ''DurableFunction''] (sample_processor 1)
      = Some (out, p) \<and> held_logs p = [(''a'', log)] \<and> held_logs_order p = [] \<and> log_buffer_size p = 1
      \<and> is_durable_function p = Some True"
proof -
  have "contains ''DurableFunction'' ''DurableFunction''" by code_simp
  then show ?thesis
    by (simp add: logs_eval resolve_held_logs_on_durable_function_set_def resolve_entry_def)
qed

theorem hold_log_diverges_witness:
  "\<exists>out p. logs_run sample_env [sample_start ''a'', sample_init ''DurableFunction''] (sample_processor 1)
      = Some (out, p) \<and> (\<forall>log. hold_log sample_env ''b'' log p = None)"
proof -
  from late_init_state obtain out p log where p:
    "logs_run sample_env [sample_start ''a'', sample_init ''DurableFunction''] (sample_processor 1) = Some (out, p)"
    "held_logs p = [(''a'', log)]" "held_logs_order p = []" "log_buffer_size p = 1" by blast
  then have "hold_log sample_env ''b'' l p = None" for l
    by (intro hold_log_diverges) simp_all
  with p(1) show ?thesis by blast
qed

section \<open>A durable context that arrives late\<close>

fun queue_all :: "'f LogEnv \<Rightarrow> IntakeLog list \<Rightarrow> 'f LambdaProcessor \<Rightarrow> 'f LambdaProcessor option" where
  "queue_all env [] p = Some p"
| "queue_all env (log # logs) p = Option.bind (queue_log_after_rules env log p) (queue_all env logs)"

text \<open>A log of request \<open>rid\<close> that does not carry a durable execution id of its own.\<close>

definition plain_log :: "string \<Rightarrow> IntakeLog \<Rightarrow> bool" where
  "plain_log rid log \<longleftrightarrow> request_id (lambda (log_message log)) = Some rid
     \<and> durable_execution_id (lambda (log_message log)) = None"

lemma queue_all_tagged:
  assumes "is_durable_function p = Some True" and "0 < log_buffer_size p"
    and "durable_context_map p rid = Some ctx" and "\<forall>log \<in> set logs. plain_log rid log"
  shows "queue_all env logs p = Some (p\<lparr>ready_logs := ready_logs p @
    ready_texts env (map (tag_durable (is_managed_instance_mode p) ctx) logs)\<rparr>)"
  using assms
proof (induction logs arbitrary: p)
  case (Cons log logs)
  then have "queue_log_after_rules env log p = Some (set_durable_context_and_mark_ready env ctx log p)"
    by (simp add: queue_log_after_rules_def plain_log_def)
  with Cons show ?case
    by (simp add: set_durable_context_and_mark_ready_def push_ready_eq split: option.split)
qed simp

lemma queue_all_more:
  assumes "is_durable_function p = Some True" and "0 < log_buffer_size p"
    and "durable_context_map p rid = None" and "rid \<notin> fst ` set h" and "held_logs p = h @ [(rid, ls)]"
    and "\<forall>log \<in> set logs. plain_log rid log"
  shows "queue_all env logs p = Some (p\<lparr>held_logs := h @ [(rid, ls @ logs)]\<rparr>)"
  using assms(1-3,5,6)
proof (induction logs arbitrary: p ls)
  case (Cons log logs)
  have "map_of (held_logs p) rid = Some ls"
    using assms(4) Cons.prems(4) by (simp add: map_add_def map_of_eq_None_iff [symmetric] split: option.split)
  moreover have "held_push rid log (held_logs p) = h @ [(rid, ls @ [log])]"
    using assms(4) Cons.prems(4) calculation by (simp add: held_push_def held_append_absent)
  ultimately have "queue_log_after_rules env log p = Some (p\<lparr>held_logs := h @ [(rid, ls @ [log])]\<rparr>)"
    using Cons.prems by (simp add: queue_log_after_rules_def plain_log_def hold_log_def)
  with Cons.IH [of "p\<lparr>held_logs := h @ [(rid, ls @ [log])]\<rparr>" "ls @ [log]"] Cons.prems show ?case by simp
qed simp

lemma queue_all_held:
  assumes "is_durable_function p = Some True" and "durable_context_map p rid = None"
    and "rid \<notin> fst ` set (held_logs p)" and "length (held_logs p) < log_buffer_size p"
    and "\<forall>log \<in> set logs. plain_log rid log" and "logs \<noteq> []"
  shows "queue_all env logs p = Some (p\<lparr>held_logs_order := held_logs_order p @ [rid],
    held_logs := held_logs p @ [(rid, logs)]\<rparr>)"
proof -
  obtain log rest where logs: "logs = log # rest" using assms(6) by (cases logs) auto
  have none: "map_of (held_logs p) rid = None" using assms(3) by (simp add: map_of_eq_None_iff)
  let ?p = "p\<lparr>held_logs_order := held_logs_order p @ [rid], held_logs := held_logs p @ [(rid, [log])]\<rparr>"
  have "queue_log_after_rules env log p = Some ?p"
    using assms(1,2,4,5) logs none
    by (auto simp: queue_log_after_rules_def plain_log_def hold_log_def held_push_def)
  moreover have "queue_all env rest ?p = Some (?p\<lparr>held_logs := held_logs p @ [(rid, [log] @ rest)]\<rparr>)"
    by (rule queue_all_more [where rid = rid]) (use assms logs in auto)
  ultimately show ?thesis using logs by simp
qed

lemma insert_context_map:
  assumes "durable_context_map p rid = None" and "map_of (held_logs p) rid = None"
  shows "insert_to_durable_context_map env rid ctx p = (evict_oldest_context p)\<lparr>
    durable_context_order := durable_context_order (evict_oldest_context p) @ [rid],
    durable_context_map := (durable_context_map (evict_oldest_context p))(rid \<mapsto> ctx)\<rparr>"
  using assms by (simp add: insert_to_durable_context_map_def drain_held_logs_for_request_id_def Let_def)

lemma evict_oldest_context_durable [simp]:
  "is_durable_function (evict_oldest_context p) = is_durable_function p"
  by (simp add: evict_oldest_context_def split: list.split)

text \<open>
  C14. Logs are enriched the same way whether the durable execution context of their request arrives
  before or after them: with room in the buffer, queueing logs of a request and then inserting its
  context leaves the same ready texts, all tagged with that context and in arrival order, and the
  same held logs as inserting the context first.
\<close>

theorem late_context_equals_early_context:
  assumes "is_durable_function p = Some True" and "durable_context_map p rid = None"
    and "rid \<notin> fst ` set (held_logs p)" and "rid \<notin> set (held_logs_order p)"
    and "length (held_logs p) < log_buffer_size p" and "\<forall>log \<in> set logs. plain_log rid log" and "logs \<noteq> []"
  shows "\<exists>p1 p2. queue_all env logs p = Some p1
    \<and> queue_all env logs (insert_to_durable_context_map env rid ctx p) = Some p2
    \<and> ready_logs (insert_to_durable_context_map env rid ctx p1) = ready_logs p2
    \<and> ready_logs p2 = ready_logs p @ ready_texts env (map (tag_durable (is_managed_instance_mode p) ctx) logs)
    \<and> held_logs (insert_to_durable_context_map env rid ctx p1) = held_logs p2
    \<and> held_logs_order (insert_to_durable_context_map env rid ctx p1) = held_logs_order p2"
proof -
  let ?p1 = "p\<lparr>held_logs_order := held_logs_order p @ [rid], held_logs := held_logs p @ [(rid, logs)]\<rparr>"
  let ?i = "insert_to_durable_context_map env rid ctx p"
  have none: "map_of (held_logs p) rid = None" using assms(3) by (simp add: map_of_eq_None_iff)
  have rm: "held_remove rid (held_logs p @ [(rid, logs)]) = held_logs p"
    using held_remove_absent [OF assms(3)] by (simp add: held_remove_def)
  have ord: "filter (\<lambda>r. r \<noteq> rid) (held_logs_order p) = held_logs_order p"
    using assms(4) by (auto intro!: filter_True)
  have "queue_all env logs p = Some ?p1"
    by (rule queue_all_held [OF assms(1,2,3,5,6,7)])
  moreover have "queue_all env logs ?i = Some (?i\<lparr>ready_logs := ready_logs ?i @
      ready_texts env (map (tag_durable (is_managed_instance_mode ?i) ctx) logs)\<rparr>)"
    by (rule queue_all_tagged [where rid = rid])
      (use assms none in \<open>auto simp: insert_context_map\<close>)
  moreover have "map_of (held_logs ?p1) rid = Some logs"
    using none by (simp add: map_add_def)
  then have "ready_logs (insert_to_durable_context_map env rid ctx ?p1)
      = ready_logs p @ ready_texts env (map (tag_durable (is_managed_instance_mode p) ctx) logs)
    \<and> held_logs (insert_to_durable_context_map env rid ctx ?p1) = held_logs p
    \<and> held_logs_order (insert_to_durable_context_map env rid ctx ?p1) = held_logs_order p"
    using assms(2) rm ord
    by (simp add: insert_to_durable_context_map_def drain_held_logs_for_request_id_def Let_def
        fold_set_durable)
  ultimately show ?thesis
    using none assms(2) by (auto simp: insert_context_map)
qed

definition sample_intake :: "string \<Rightarrow> string \<Rightarrow> IntakeLog" where
  "sample_intake rid msg = \<lparr>log_message = Message_new msg (Some rid) [] 0 None, hostname = [], service = [],
     log_tags = [], source = ''lambda''\<rparr>"

definition sample_context :: DurableExecutionContext where
  "sample_context = \<lparr>execution_id = ''e'', execution_name = ''n'', ctx_first_invocation = None,
     execution_status = None\<rparr>"

theorem late_context_equals_early_context_witness:
  "\<exists>p1. queue_all sample_env [sample_intake ''r'' ''hi'']
        ((sample_processor 2)\<lparr>is_durable_function := Some True\<rparr>) = Some p1
    \<and> ready_logs (insert_to_durable_context_map sample_env ''r'' sample_context p1) = [''hi'']"
proof -
  let ?p = "(sample_processor 2)\<lparr>is_durable_function := Some True\<rparr>"
  let ?log = "sample_intake ''r'' ''hi''"
  have texts: "ready_texts sample_env (map (tag_durable False sample_context) [?log]) = [''hi'']"
    by (simp add: sample_env_def sample_intake_def tag_durable_def Message_new_def Let_def)
  have fresh: "durable_context_map ?p ''r'' = None" "held_logs ?p = []" "held_logs_order ?p = []"
      "log_buffer_size ?p = 2" "ready_logs ?p = []" "is_managed_instance_mode ?p = False"
      "is_durable_function ?p = Some True"
    by (simp_all add: sample_processor_def lp_new_def)
  have "plain_log ''r'' ?log"
    by (simp add: plain_log_def sample_intake_def Message_new_def)
  then have "\<exists>p1 p2. queue_all sample_env [?log] ?p = Some p1
    \<and> queue_all sample_env [?log] (insert_to_durable_context_map sample_env ''r'' sample_context ?p) = Some p2
    \<and> ready_logs (insert_to_durable_context_map sample_env ''r'' sample_context p1) = ready_logs p2
    \<and> ready_logs p2 = ready_logs ?p
        @ ready_texts sample_env (map (tag_durable (is_managed_instance_mode ?p) sample_context) [?log])
    \<and> held_logs (insert_to_durable_context_map sample_env ''r'' sample_context p1) = held_logs p2
    \<and> held_logs_order (insert_to_durable_context_map sample_env ''r'' sample_context p1) = held_logs_order p2"
    by (intro late_context_equals_early_context) (simp_all add: sample_processor_def lp_new_def)
  then show ?thesis unfolding fresh texts by (auto simp del: queue_all.simps)
qed

section \<open>Orphan logs\<close>

text \<open>
  When an invocation ends, the orphan logs collected so far are queued with the empty request
  id: \<open>platform.runtimeDone\<close> clears the request id of the invocation context before the orphans take
  it over, although the event itself names the request.
\<close>

theorem orphans_get_empty_request_id:
  assumes "te_record event = PlatformRuntimeDone rid st error_type metrics"
  shows "\<exists>log. request_id (lambda (log_message log)) = Some rid
    \<and> admitted_step env event p
      = admit p log @ concat (map (admit p \<circ> set_request_id (Some [])) (orphan_logs p))"
proof -
  obtain msg st' where desc: "runtime_done_text env rid st error_type metrics = (msg, st')"
    by (cases "runtime_done_text env rid st error_type metrics")
  let ?m = "Message_new msg (Some rid) (function_arn p) (time_millis (te_time event)) (Some st')"
  obtain q where get: "get_message env event p = (Some ?m, q)"
    using assms desc by (simp add: get_message_def Let_def)
  then have q: "context_request_id q = []" "orphan_logs q = orphan_logs p" "admit q = admit p"
    using assms desc
    by (auto simp: get_message_def Let_def send_bus_def admit_def fun_eq_iff split: option.splits)
  have "request_id (lambda ?m) = Some rid" by (simp add: Message_new_def)
  then obtain log where log: "get_intake_log env ?m q = (Some log, q)"
      "request_id (lambda (log_message log)) = Some rid"
    by (auto simp: get_intake_log_def Let_def split: option.split json.split prod.split)
  then have "make_log env event p = (Some log, q)"
    using get by (simp add: make_log_def)
  with q log(2) show ?thesis by (auto simp: admitted_step_def)
qed

theorem orphans_get_empty_request_id_witness:
  "\<exists>log. request_id (lambda (log_message log)) = Some ''r''
    \<and> admitted_step sample_env \<lparr>te_time = 0, te_record = PlatformRuntimeDone ''r'' Success None None\<rparr>
        ((sample_processor 2)\<lparr>context_request_id := ''r'', orphan_logs := [sample_intake ''x'' ''hi'']\<rparr>)
      = [log, set_request_id (Some []) (sample_intake ''x'' ''hi'')]"
  using orphans_get_empty_request_id [of "\<lparr>te_time = 0, te_record = PlatformRuntimeDone ''r'' Success None None\<rparr>"
      "''r''" Success None None sample_env
      "(sample_processor 2)\<lparr>context_request_id := ''r'', orphan_logs := [sample_intake ''x'' ''hi'']\<rparr>"]
  by (auto simp: admit_def apply_rules_def sample_processor_def lp_new_def)

text \<open>
  Orphan logs do not survive a shutdown: what the final drain hands to the aggregator does not
  depend on them, and they stay behind in the processor.
\<close>

theorem orphans_lost_at_shutdown:
  "fst (shutdown_drain env (p\<lparr>orphan_logs := os\<rparr>)) = fst (shutdown_drain env p)
    \<and> orphan_logs (snd (shutdown_drain env (p\<lparr>orphan_logs := os\<rparr>))) = os"
  by (simp add: shutdown_drain_def take_ready_logs_def drain_held_logs_def fold_push_ready)

section \<open>Durable execution ARNs\<close>

text \<open>
  C38. The parser of durable execution ARNs inverts their documented format: the text before the
  separator has no slash, the execution name is not empty and has no slash, and the id is not empty.
\<close>

theorem parse_durable_execution_arn_roundtrip:
  assumes "CHR ''/'' \<notin> set fn" and "name \<noteq> []" and "CHR ''/'' \<notin> set name" and "eid \<noteq> []"
    and "\<not> sublist ''/durable-execution/'' (name @ ''/'' @ eid)"
  shows "parse_durable_execution_arn (fn @ ''/durable-execution/'' @ name @ ''/'' @ eid) = Some (eid, name)"
proof -
  have "split_once ''/durable-execution/'' (fn @ ''/durable-execution/'' @ (name @ ''/'' @ eid))
      = Some (fn, name @ ''/'' @ eid)"
    using assms(1) by (intro split_once_first) simp_all
  moreover have "split_once ''/durable-execution/'' (name @ ''/'' @ eid) = None"
    using assms(5) by (rule split_once_None)
  moreover have "takeWhile (\<lambda>c. c \<noteq> CHR ''/'') (name @ ''/'' @ eid) = name"
    "dropWhile (\<lambda>c. c \<noteq> CHR ''/'') (name @ ''/'' @ eid) = ''/'' @ eid"
    using assms(3) by (auto simp: takeWhile_append dropWhile_append)
  ultimately show ?thesis
    using assms(2,4) by (simp add: parse_durable_execution_arn_def)
qed

theorem parse_durable_execution_arn_roundtrip_witness:
  "parse_durable_execution_arn (''arn:f:1'' @ ''/durable-execution/'' @ ''order'' @ ''/'' @ ''42'')
    = Some (''42'', ''order'')"
  by (rule parse_durable_execution_arn_roundtrip) code_simp+

end
