(* ===== verification/DsmSketch.thy ===== *)
theory DsmSketch
  imports Prelude "HOL-Library.Monad_Syntax"
begin

text \<open>
  The latency sketch of data streams monitoring, \<open>bottlecap/src/traces/data_streams/sketch.rs\<close>.
  Bin counts are sums of the weight 1.0 and so natural numbers (exact in \<open>f64\<close> below \<open>2^53\<close>).
  Keys and offsets are \<open>i32\<close> in the sources and integers here; the layout theorem bounds them, so
  that no \<open>i32\<close> operation wraps. A slice or an index out of range panics in the sources and is
  \<open>None\<close> here. The logarithm that maps a value to its key is a parameter of \<open>accept\<close>.
\<close>

section \<open>The store\<close>

definition BIN_LIMIT :: int where
  "BIN_LIMIT = 2048"

definition CHUNK_SIZE :: int where
  "CHUNK_SIZE = 128"

definition I32_MAX :: int where
  "I32_MAX = 2147483647"

definition I32_MIN :: int where
  "I32_MIN = - 2147483648"

record CollapsingLowestDenseStore =
  bins :: "nat list"
  store_count :: nat
  min_key :: int
  max_key :: int
  store_offset :: int
  is_collapsed :: bool

definition store_new :: CollapsingLowestDenseStore where
  "store_new = \<lparr>bins = [], store_count = 0, min_key = I32_MAX, max_key = I32_MIN, store_offset = 0,
     is_collapsed = False\<rparr>"

abbreviation store_length :: "CollapsingLowestDenseStore \<Rightarrow> int" where
  "store_length st \<equiv> int (length (bins st))"

definition get_new_length :: "int \<Rightarrow> int \<Rightarrow> nat" where
  "get_new_length new_min new_max =
     (let desired = new_max - new_min + 1;
          chunks = (desired + CHUNK_SIZE - 1) div CHUNK_SIZE
      in nat (min (CHUNK_SIZE * chunks) BIN_LIMIT))"

definition shift_bins :: "int \<Rightarrow> CollapsingLowestDenseStore \<Rightarrow> CollapsingLowestDenseStore option" where
  "shift_bins shift st =
     (if shift > 0 then
        (if nat shift > length (bins st) then None
         else Some (st\<lparr>bins := replicate (nat shift) 0 @ take (length (bins st) - nat shift) (bins st),
                       store_offset := store_offset st - shift\<rparr>))
      else if shift < 0 then
        (if nat (- shift) > length (bins st) then None
         else Some (st\<lparr>bins := drop (nat (- shift)) (bins st) @ replicate (nat (- shift)) 0,
                       store_offset := store_offset st - shift\<rparr>))
      else Some st)"

definition center_bins :: "int \<Rightarrow> int \<Rightarrow> CollapsingLowestDenseStore \<Rightarrow> CollapsingLowestDenseStore option" where
  "center_bins new_min new_max st =
     (let middle_key = new_min + (new_max - new_min + 1) div 2;
          shift = (store_offset st + store_length st div 2) - middle_key
      in shift_bins shift st)"

text \<open>
  The collapse of the bins \<open>n\<close> to \<open>r\<close> into bin \<open>r\<close>: the sum runs over \<open>n..=r\<close>, the bins \<open>n..r\<close> are
  cleared, and the sum is added to bin \<open>r\<close>.
\<close>

definition collapse_bins :: "nat \<Rightarrow> nat \<Rightarrow> nat list \<Rightarrow> nat list option" where
  "collapse_bins n r bs =
     (if n > r \<or> Suc r > length bs then None
      else (let s = sum_list (take (Suc r - n) (drop n bs));
                bs = take n bs @ replicate (r - n) 0 @ drop r bs
            in Some (bs[r := bs ! r + s])))"

definition adjust :: "int \<Rightarrow> int \<Rightarrow> CollapsingLowestDenseStore \<Rightarrow> CollapsingLowestDenseStore option" where
  "adjust new_min new_max st =
     (if new_max - new_min + 1 > store_length st then
        (let collapse_min = new_max - store_length st + 1
         in do {
              st \<leftarrow> (if collapse_min \<ge> max_key st then
                      (if bins st = [] then None
                       else Some (st\<lparr>store_offset := collapse_min, min_key := collapse_min,
                                   bins := (replicate (length (bins st)) 0)[0 := store_count st]\<rparr>))
                    else if store_offset st - collapse_min < 0 then do {
                      bs \<leftarrow> collapse_bins (nat (min_key st - store_offset st))
                              (nat (collapse_min - store_offset st)) (bins st);
                      shift_bins (store_offset st - collapse_min) (st\<lparr>bins := bs, min_key := collapse_min\<rparr>)
                    }
                    else shift_bins (store_offset st - collapse_min) (st\<lparr>min_key := collapse_min\<rparr>));
              Some (st\<lparr>max_key := new_max, is_collapsed := True\<rparr>)
            })
      else do {
        st \<leftarrow> center_bins new_min new_max st;
        Some (st\<lparr>min_key := new_min, max_key := new_max\<rparr>)
      })"

definition extend_range :: "int \<Rightarrow> int \<Rightarrow> CollapsingLowestDenseStore \<Rightarrow> CollapsingLowestDenseStore option" where
  "extend_range key key2 st =
     (let new_min = min (min key key2) (min_key st);
          new_max = max (max key key2) (max_key st)
      in if bins st = [] then
           adjust new_min new_max
             (st\<lparr>bins := replicate (get_new_length new_min new_max) 0, store_offset := new_min\<rparr>)
         else if new_min \<ge> min_key st \<and> new_max < store_offset st + store_length st then
           Some (st\<lparr>min_key := new_min, max_key := new_max\<rparr>)
         else
           (let new_length = get_new_length new_min new_max;
                bs = (if new_length > length (bins st)
                      then bins st @ replicate (new_length - length (bins st)) 0 else bins st)
            in adjust new_min new_max (st\<lparr>bins := bs\<rparr>)))"

text \<open>The index is computed as \<open>(key - offset) as usize\<close>; a negative difference becomes huge.\<close>

definition get_index :: "int \<Rightarrow> CollapsingLowestDenseStore \<Rightarrow> (nat option \<times> CollapsingLowestDenseStore) option" where
  "get_index key st =
     (let index = (\<lambda>st. if key \<ge> store_offset st then Some (nat (key - store_offset st)) else None)
      in if key < min_key st then
           (if is_collapsed st then Some (Some 0, st)
            else do {
              st \<leftarrow> extend_range key key st;
              if is_collapsed st then Some (Some 0, st) else Some (index st, st)
            })
         else if key > max_key st then do {
           st \<leftarrow> extend_range key key st;
           Some (index st, st)
         }
         else Some (index st, st))"

definition store_add :: "int \<Rightarrow> CollapsingLowestDenseStore \<Rightarrow> CollapsingLowestDenseStore option" where
  "store_add key st = do {
     (idx, st) \<leftarrow> get_index key st;
     idx \<leftarrow> idx;
     if idx < length (bins st)
     then Some (st\<lparr>bins := (bins st)[idx := bins st ! idx + 1], store_count := store_count st + 1\<rparr>)
     else None
   }"

fun store_add_all :: "int list \<Rightarrow> CollapsingLowestDenseStore \<Rightarrow> CollapsingLowestDenseStore option" where
  "store_add_all [] st = Some st"
| "store_add_all (k # ks) st = Option.bind (store_add k st) (store_add_all ks)"

section \<open>The sketch\<close>

record DdSketch =
  positive_store :: CollapsingLowestDenseStore
  negative_store :: CollapsingLowestDenseStore
  zero_count :: nat

definition sketch_new :: DdSketch where
  "sketch_new = \<lparr>positive_store = store_new, negative_store = store_new, zero_count = 0\<rparr>"

text \<open>
  \<open>sign v\<close> says whether a value is above, below or within the smallest values the mapping can
  represent, and \<open>key\<close> is the mapping of a magnitude.
\<close>

datatype magnitude = Above | Below | Near_zero

definition accept ::
    "('v \<Rightarrow> magnitude) \<Rightarrow> ('v \<Rightarrow> int) \<Rightarrow> 'v \<Rightarrow> DdSketch \<Rightarrow> DdSketch option" where
  "accept sign key v s =
     (case sign v of
        Above \<Rightarrow> map_option (\<lambda>st. s\<lparr>positive_store := st\<rparr>) (store_add (key v) (positive_store s))
      | Below \<Rightarrow> map_option (\<lambda>st. s\<lparr>negative_store := st\<rparr>) (store_add (key v) (negative_store s))
      | Near_zero \<Rightarrow> Some (s\<lparr>zero_count := zero_count s + 1\<rparr>))"

section \<open>Layout\<close>

text \<open>The count a store keeps for a key; zero outside its window.\<close>

definition binval :: "CollapsingLowestDenseStore \<Rightarrow> int \<Rightarrow> nat" where
  "binval st k =
     (if store_offset st \<le> k \<and> k < store_offset st + store_length st
      then bins st ! nat (k - store_offset st) else 0)"

definition layout :: "CollapsingLowestDenseStore \<Rightarrow> bool" where
  "layout st \<longleftrightarrow> bins st \<noteq> [] \<and> 128 dvd length (bins st) \<and> length (bins st) \<le> 2048
     \<and> store_offset st \<le> min_key st \<and> min_key st \<le> max_key st
     \<and> max_key st < store_offset st + store_length st
     \<and> (is_collapsed st \<longrightarrow> length (bins st) = 2048 \<and> store_offset st = min_key st
          \<and> max_key st = store_offset st + 2047)"

definition supported :: "CollapsingLowestDenseStore \<Rightarrow> bool" where
  "supported st \<longleftrightarrow> (\<forall>k. binval st k \<noteq> 0 \<longrightarrow> min_key st \<le> k \<and> k \<le> max_key st)"

lemma get_new_length_bounds:
  assumes "new_min \<le> new_max"
  shows "128 dvd get_new_length new_min new_max" "0 < get_new_length new_min new_max"
    "get_new_length new_min new_max \<le> 2048"
    "new_max - new_min + 1 \<le> 2048 \<Longrightarrow> new_max - new_min + 1 \<le> int (get_new_length new_min new_max)"
    "2048 < new_max - new_min + 1 \<Longrightarrow> get_new_length new_min new_max = 2048"
proof -
  define x where "x = new_max - new_min + 1 + 128 - 1"
  define c where "c = x div 128"
  have len: "get_new_length new_min new_max = nat (min (128 * c) 2048)"
    by (simp add: get_new_length_def Let_def c_def x_def CHUNK_SIZE_def BIN_LIMIT_def)
  have "128 * c + x mod 128 = x" "0 \<le> x mod 128" "x mod 128 < 128"
    by (simp_all add: c_def)
  then have c: "1 \<le> c" "new_max - new_min + 1 \<le> 128 * c"
    using assms unfolding x_def by linarith+
  show "0 < get_new_length new_min new_max" "get_new_length new_min new_max \<le> 2048"
    "new_max - new_min + 1 \<le> 2048 \<Longrightarrow> new_max - new_min + 1 \<le> int (get_new_length new_min new_max)"
    "2048 < new_max - new_min + 1 \<Longrightarrow> get_new_length new_min new_max = 2048"
    using c by (auto simp: len min_def)
  show "128 dvd get_new_length new_min new_max"
  proof (cases "128 * c \<le> 2048")
    case True
    then have "get_new_length new_min new_max = 128 * nat c"
      using c(1) by (simp add: len min_def nat_mult_distrib)
    then show ?thesis by simp
  next
    case False
    then have "get_new_length new_min new_max = 128 * 16" by (simp add: len min_def)
    then show ?thesis by (metis dvd_triv_left)
  qed
qed

lemma shift_bins_spec:
  assumes "\<bar>shift\<bar> \<le> store_length st"
  shows "\<exists>bs. shift_bins shift st = Some (st\<lparr>bins := bs, store_offset := store_offset st - shift\<rparr>)
    \<and> length bs = length (bins st)
    \<and> (\<forall>i < length bs. bs ! i = binval st (store_offset st - shift + int i))"
proof -
  consider "shift > 0" | "shift < 0" | "shift = 0" by linarith
  then show ?thesis
  proof cases
    case 1
    then obtain n where n: "shift = int n" "n \<le> length (bins st)"
      using assms by (metis abs_of_pos of_nat_le_iff zero_less_imp_eq_int)
    let ?bs = "replicate n 0 @ take (length (bins st) - n) (bins st)"
    have "?bs ! i = binval st (store_offset st - shift + int i)" if "i < length (bins st)" for i
    proof (cases "i < n")
      case True
      with n(1) show ?thesis by (simp add: binval_def nth_append)
    next
      case False
      define j where "j = i - n"
      have i: "i = n + j" using False by (simp add: j_def)
      then have "store_offset st - shift + int i = store_offset st + int j" using n(1) by simp
      with i that n(2) show ?thesis by (simp add: binval_def nth_append)
    qed
    with 1 n show ?thesis by (intro exI [of _ ?bs]) (simp add: shift_bins_def)
  next
    case 2
    then obtain n where n: "- shift = int n" "n \<le> length (bins st)"
      using assms by (metis abs_of_neg neg_0_less_iff_less of_nat_le_iff zero_less_imp_eq_int)
    let ?bs = "drop n (bins st) @ replicate n 0"
    have "?bs ! i = binval st (store_offset st - shift + int i)" if "i < length (bins st)" for i
    proof -
      have "store_offset st - shift + int i = store_offset st + int (n + i)" using n(1) by simp
      with that n(2) show ?thesis by (auto simp: binval_def nth_append simp del: of_nat_add)
    qed
    with 2 n show ?thesis by (intro exI [of _ ?bs]) (simp add: shift_bins_def)
  next
    case 3
    then show ?thesis by (intro exI [of _ "bins st"]) (auto simp: shift_bins_def binval_def)
  qed
qed

lemma binval_of_nth:
  assumes "\<forall>i < length bs. bs ! i = f (off + int i)"
  shows "binval (st\<lparr>bins := bs, store_offset := off\<rparr>) k = (if off \<le> k \<and> k < off + int (length bs) then f k else 0)"
proof (cases "off \<le> k \<and> k < off + int (length bs)")
  case True
  then have "nat (k - off) < length bs" "off + int (nat (k - off)) = k" by auto
  with assms have "bs ! nat (k - off) = f k" by metis
  with True show ?thesis by (simp add: binval_def)
next
  case False
  then show ?thesis by (auto simp: binval_def)
qed

lemma collapse_bins_Some:
  assumes "n \<le> r" and "r < length bs"
  shows "\<exists>bs'. collapse_bins n r bs = Some bs' \<and> length bs' = length bs"
  using assms by (auto simp: collapse_bins_def Let_def)

text \<open>The range fits the bins: they are centred and nothing is lost.\<close>

lemma adjust_fits:
  assumes "bins st \<noteq> []" and "128 dvd length (bins st)"
    and "store_offset st \<le> min_key st" and "min_key st \<le> max_key st"
    and "max_key st < store_offset st + store_length st"
    and "new_min \<le> min_key st" and "max_key st \<le> new_max" and "new_max - new_min + 1 \<le> store_length st"
  shows "\<exists>bs off. adjust new_min new_max st
      = Some (st\<lparr>bins := bs, store_offset := off, min_key := new_min, max_key := new_max\<rparr>)
    \<and> length bs = length (bins st) \<and> off \<le> new_min \<and> new_max < off + store_length st
    \<and> (supported st \<longrightarrow> binval (st\<lparr>bins := bs, store_offset := off\<rparr>) = binval st)"
proof -
  obtain c where c: "length (bins st) = 128 * c" using assms(2) by blast
  define h where "h = 64 * int c"
  have h: "store_length st = 2 * h" using c by (simp add: h_def)
  define d where "d = new_max - new_min + 1"
  define shift where "shift = (store_offset st + h) - (new_min + d div 2)"
  define off where "off = store_offset st - shift"
  have half: "d div 2 \<le> h" "d - 1 < d div 2 + h" "0 \<le> d div 2"
    using assms(4,6,7,8) h unfolding d_def by presburger+
  have off_eq: "off = new_min + d div 2 - h" by (simp add: off_def shift_def)
  have off: "off \<le> new_min" "new_max < off + store_length st"
    using half h unfolding off_eq d_def by linarith+
  have "\<bar>shift\<bar> \<le> store_length st"
    using half h assms(3-8) unfolding shift_def d_def by linarith
  from shift_bins_spec [OF this] obtain bs where bs:
    "shift_bins shift st = Some (st\<lparr>bins := bs, store_offset := off\<rparr>)"
    "length bs = length (bins st)" "\<forall>i < length bs. bs ! i = binval st (off + int i)"
    unfolding off_def by blast
  have adj: "adjust new_min new_max st = Some (st\<lparr>bins := bs, store_offset := off,
      min_key := new_min, max_key := new_max\<rparr>)"
    using assms(8) bs(1) h by (simp add: adjust_def center_bins_def shift_def d_def)
  have "binval st k = 0" if "\<not> (off \<le> k \<and> k < off + store_length st)" "supported st" for k
  proof (rule ccontr)
    assume "binval st k \<noteq> 0"
    with that(2) have "min_key st \<le> k" "k \<le> max_key st" by (auto simp: supported_def)
    with that(1) assms(6,7) off show False by linarith
  qed
  then have "supported st \<longrightarrow> binval (st\<lparr>bins := bs, store_offset := off\<rparr>) = binval st"
    using binval_of_nth [OF bs(3)] bs(2) by (auto simp: fun_eq_iff)
  with adj off bs(2) show ?thesis by blast
qed

text \<open>The range does not fit: the lowest bins are collapsed and the window ends at the new maximum.\<close>

lemma adjust_collapses:
  assumes "length (bins st) = 2048" and "store_offset st \<le> min_key st" and "min_key st \<le> max_key st"
    and "max_key st < store_offset st + 2048" and "max_key st \<le> new_max"
    and "new_max - new_min + 1 > 2048" and "new_min = min_key st \<or> new_max = max_key st"
  shows "\<exists>st'. adjust new_min new_max st = Some st' \<and> length (bins st') = 2048 \<and> is_collapsed st'
    \<and> store_offset st' = new_max - 2047 \<and> min_key st' = new_max - 2047 \<and> max_key st' = new_max
    \<and> store_count st' = store_count st"
proof -
  let ?cm = "new_max - 2047"
  have len: "store_length st = 2048" using assms(1) by simp
  have shifted: "\<exists>bs'. shift_bins (store_offset st - ?cm) (st\<lparr>bins := bs, min_key := ?cm\<rparr>)
      = Some (st\<lparr>min_key := ?cm, bins := bs', store_offset := ?cm\<rparr>) \<and> length bs' = 2048"
    if "length bs = 2048" "\<not> ?cm \<ge> max_key st" for bs
  proof -
    have "\<bar>store_offset st - ?cm\<bar> \<le> store_length (st\<lparr>bins := bs, min_key := ?cm\<rparr>)"
      using assms(2-5) that by simp
    from shift_bins_spec [OF this] that(1) show ?thesis by auto
  qed
  have collapse: "\<exists>bs. collapse_bins (nat (min_key st - store_offset st)) (nat (?cm - store_offset st)) (bins st)
      = Some bs \<and> length bs = 2048"
    if "\<not> ?cm \<ge> max_key st" "store_offset st - ?cm < 0"
    using collapse_bins_Some [of "nat (min_key st - store_offset st)" "nat (?cm - store_offset st)" "bins st"]
      that assms by auto
  show ?thesis
  proof (cases "?cm \<ge> max_key st")
    case True
    with assms(1,6) len show ?thesis by (auto simp: adjust_def Let_def)
  next
    case False
    note no = False
    show ?thesis
    proof (cases "store_offset st - ?cm < 0")
      case True
      then obtain bs bs' where "collapse_bins (nat (min_key st - store_offset st)) (nat (?cm - store_offset st)) (bins st)
          = Some bs" "shift_bins (store_offset st - ?cm) (st\<lparr>bins := bs, min_key := ?cm\<rparr>)
          = Some (st\<lparr>min_key := ?cm, bins := bs', store_offset := ?cm\<rparr>)" "length bs' = 2048"
        using collapse [OF no] shifted [OF _ no] by blast
      with True no assms(6) len show ?thesis by (simp add: adjust_def Let_def)
    next
      case False
      obtain bs' where "shift_bins (store_offset st - ?cm) (st\<lparr>min_key := ?cm\<rparr>)
          = Some (st\<lparr>min_key := ?cm, bins := bs', store_offset := ?cm\<rparr>)" "length bs' = 2048"
        using shifted [OF assms(1) no] by auto
      with False no assms(6) len show ?thesis by (simp add: adjust_def Let_def)
    qed
  qed
qed

lemma binval_append_zeros: "binval (st\<lparr>bins := bins st @ replicate n 0\<rparr>) = binval st"
  by (auto simp: binval_def fun_eq_iff nth_append)

text \<open>Extending the range of a store to a key outside of it.\<close>

definition extended :: "int \<Rightarrow> CollapsingLowestDenseStore \<Rightarrow> CollapsingLowestDenseStore \<Rightarrow> bool" where
  "extended key st st' \<longleftrightarrow> layout st' \<and> store_count st' = store_count st
     \<and> max_key st' = max key (max_key st)
     \<and> (is_collapsed st' \<or> (\<not> is_collapsed st \<and> min_key st' = min key (min_key st)
          \<and> (supported st \<longrightarrow> binval st' = binval st)))
     \<and> (\<not> is_collapsed st \<and> max key (max_key st) - min key (min_key st) < 2048 \<longrightarrow> \<not> is_collapsed st')"

lemma adjust_extended:
  assumes "layout st" and "key < min_key st \<and> \<not> is_collapsed st \<or> key > max_key st"
    and "new_min = min key (min_key st)" and "new_max = max key (max_key st)"
    and "bs = bins st @ replicate (get_new_length new_min new_max - length (bins st)) 0"
    and "\<not> (new_min \<ge> min_key st \<and> new_max < store_offset st + store_length st)"
  shows "\<exists>st'. adjust new_min new_max (st\<lparr>bins := bs\<rparr>) = Some st' \<and> extended key st st'"
proof -
  let ?st = "st\<lparr>bins := bs\<rparr>"
  have rng: "new_min \<le> new_max" using assms(1,3,4) by (auto simp: layout_def)
  have len: "length bs = max (length (bins st)) (get_new_length new_min new_max)"
    by (simp add: assms(5))
  have lay: "store_offset st \<le> min_key st" "min_key st \<le> max_key st"
      "max_key st < store_offset st + store_length st" "length (bins st) \<le> 2048" "128 dvd length (bins st)"
    using assms(1) by (auto simp: layout_def)
  have bs: "bs \<noteq> []" "128 dvd length bs" "length bs \<le> 2048" "length (bins st) \<le> length bs"
    using len lay(4,5) get_new_length_bounds(1-3) [OF rng] assms(1,5) by (simp_all add: layout_def max_def)
  have same: "binval ?st = binval st" "supported ?st \<longleftrightarrow> supported st"
    using binval_append_zeros [of st "get_new_length new_min new_max - length (bins st)"]
    by (simp_all add: assms(5) supported_def)
  show ?thesis
  proof (cases "new_max - new_min + 1 \<le> 2048")
    case True
    then have fits: "new_max - new_min + 1 \<le> store_length ?st"
      using get_new_length_bounds(4) [OF rng] len by simp
    have "\<not> is_collapsed st"
      using True assms(1,2,3,4) by (auto simp: layout_def)
    moreover obtain bs' off where r: "adjust new_min new_max ?st
        = Some (?st\<lparr>bins := bs', store_offset := off, min_key := new_min, max_key := new_max\<rparr>)"
      "length bs' = length bs" "off \<le> new_min" "new_max < off + int (length bs)"
      "supported st \<longrightarrow> binval (?st\<lparr>bins := bs', store_offset := off\<rparr>) = binval st"
      using adjust_fits [of ?st new_min new_max] fits bs lay assms(3,4) same by auto
    moreover have "binval (?st\<lparr>bins := bs', store_offset := off, min_key := new_min, max_key := new_max\<rparr>)
        = binval (?st\<lparr>bins := bs', store_offset := off\<rparr>)"
      by (simp add: binval_def fun_eq_iff)
    ultimately show ?thesis
      using bs rng assms(3,4) by (auto simp: extended_def layout_def)
  next
    case False
    then have "length bs = 2048"
      using get_new_length_bounds(5) [OF rng] len lay(4) by simp
    moreover have "new_min = min_key st \<or> new_max = max_key st"
      using assms(2-4) lay(2) by auto
    ultimately obtain st' where "adjust new_min new_max ?st = Some st'" "length (bins st') = 2048"
        "is_collapsed st'" "store_offset st' = new_max - 2047" "min_key st' = new_max - 2047"
        "max_key st' = new_max" "store_count st' = store_count st"
      using adjust_collapses [of ?st new_max new_min] lay False assms(4) by auto
    with False assms(3,4) show ?thesis by (auto simp: extended_def layout_def)
  qed
qed

lemma extend_range_extended:
  assumes "layout st" and "key < min_key st \<and> \<not> is_collapsed st \<or> key > max_key st"
  shows "\<exists>st'. extend_range key key st = Some st' \<and> extended key st st'"
proof (cases "min key (min_key st) \<ge> min_key st \<and> max key (max_key st) < store_offset st + store_length st")
  case True
  let ?st = "st\<lparr>min_key := min key (min_key st), max_key := max key (max_key st)\<rparr>"
  have "binval ?st = binval st" by (simp add: binval_def fun_eq_iff)
  moreover have "extend_range key key st = Some ?st"
    using True assms(1) by (simp add: extend_range_def layout_def Let_def)
  ultimately show ?thesis
    using True assms by (auto simp: extended_def layout_def)
next
  case False
  let ?n = "get_new_length (min key (min_key st)) (max key (max_key st))"
  have "extend_range key key st = adjust (min key (min_key st)) (max key (max_key st))
      (st\<lparr>bins := bins st @ replicate (?n - length (bins st)) 0\<rparr>)"
    using False assms(1) by (auto simp: extend_range_def layout_def Let_def)
  with adjust_extended [OF assms refl refl refl False] show ?thesis by simp
qed

section \<open>Adding keys\<close>

definition key_ok :: "int \<Rightarrow> bool" where
  "key_ok k \<longleftrightarrow> \<bar>k\<bar> \<le> 2 ^ 29"

lemma store_add_first:
  assumes "key_ok key"
  shows "store_add key store_new = Some \<lparr>bins = (replicate 128 0)[64 := 1], store_count = 1,
    min_key = key, max_key = key, store_offset = key - 64, is_collapsed = False\<rparr>"
proof -
  have rng: "key < I32_MAX" "min key I32_MAX = key" "max key I32_MIN = key"
    using assms by (simp_all add: key_ok_def I32_MAX_def I32_MIN_def)
  have len: "get_new_length key key = 128"
    by (simp add: get_new_length_def CHUNK_SIZE_def BIN_LIMIT_def)
  have "shift_bins 64 (store_new\<lparr>bins := replicate 128 0, store_offset := key\<rparr>)
      = Some (store_new\<lparr>bins := replicate 128 0, store_offset := key - 64\<rparr>)"
    by (simp add: shift_bins_def flip: replicate_add)
  then have "extend_range key key store_new
      = Some (store_new\<lparr>bins := replicate 128 0, store_offset := key - 64, min_key := key, max_key := key\<rparr>)"
    using rng len by (simp add: extend_range_def store_new_def adjust_def center_bins_def)
  with rng show ?thesis
    by (simp add: store_add_def get_index_def store_new_def)
qed

lemma binval_increment:
  assumes "store_offset st \<le> key" and "key < store_offset st + store_length st"
  shows "binval (st\<lparr>bins := (bins st)[nat (key - store_offset st) := bins st ! nat (key - store_offset st) + 1],
      store_count := c\<rparr>) = (binval st)(key := binval st key + 1)"
proof
  fix k
  show "binval (st\<lparr>bins := (bins st)[nat (key - store_offset st) := bins st ! nat (key - store_offset st) + 1],
      store_count := c\<rparr>) k = ((binval st)(key := binval st key + 1)) k"
  proof (cases "k = key")
    case True
    with assms show ?thesis by (auto simp: binval_def nat_less_iff)
  next
    case False
    then have "nat (k - store_offset st) \<noteq> nat (key - store_offset st)" if "store_offset st \<le> k"
      using that assms(1) by auto
    with False show ?thesis by (auto simp: binval_def)
  qed
qed

lemma store_add_layout:
  assumes "layout st"
  shows "\<exists>st'. store_add key st = Some st' \<and> layout st' \<and> store_count st' = store_count st + 1
    \<and> max_key st' = max key (max_key st)
    \<and> (is_collapsed st' \<or> (\<not> is_collapsed st \<and> min_key st' = min key (min_key st)
         \<and> (supported st \<longrightarrow> binval st' = (binval st)(key := binval st key + 1))))
    \<and> (\<not> is_collapsed st \<and> max key (max_key st) - min key (min_key st) < 2048 \<longrightarrow> \<not> is_collapsed st')"
proof -
  consider (low) "key < min_key st" "is_collapsed st"
    | (out) "key < min_key st \<and> \<not> is_collapsed st \<or> key > max_key st"
    | (inside) "min_key st \<le> key" "key \<le> max_key st"
    by (meson linorder_not_le)
  then show ?thesis
  proof cases
    case low
    moreover have "bins st \<noteq> []" "min_key st \<le> max_key st" using assms by (simp_all add: layout_def)
    ultimately have "store_add key st
        = Some (st\<lparr>bins := (bins st)[0 := bins st ! 0 + 1], store_count := store_count st + 1\<rparr>)"
      "max key (max_key st) = max_key st"
      by (simp_all add: store_add_def get_index_def)
    with low assms show ?thesis by (simp add: layout_def)
  next
    case out
    from extend_range_extended [OF assms out] obtain q where q:
      "extend_range key key st = Some q" "extended key st q" by blast
    have lay: "layout q" "max_key q = max key (max_key st)" "store_count q = store_count st"
      using q(2) by (simp_all add: extended_def)
    have minmax: "min_key st \<le> max_key st" using assms by (simp add: layout_def)
    show ?thesis
    proof (cases "key < min_key st \<and> is_collapsed q")
      case True
      with out minmax have "\<not> is_collapsed st" by auto
      with True q(1) have "get_index key st = Some (Some 0, q)"
        by (simp add: get_index_def)
      moreover have "0 < length (bins q)" using lay(1) by (auto simp: layout_def)
      ultimately have "store_add key st
          = Some (q\<lparr>bins := (bins q)[0 := bins q ! 0 + 1], store_count := store_count q + 1\<rparr>)"
        by (simp add: store_add_def)
      moreover have "is_collapsed st \<or> \<not> max key (max_key st) - min key (min_key st) < 2048"
        using True q(2) unfolding extended_def by blast
      ultimately show ?thesis using True lay by (simp add: layout_def)
    next
      case False
      let ?i = "nat (key - store_offset q)"
      have win: "store_offset q \<le> min_key q" "min_key q \<le> max_key q" "max_key q < store_offset q + store_length q"
        using lay(1) by (simp_all add: layout_def)
      have "min_key q \<le> key"
      proof (cases "is_collapsed q")
        case True
        with False out have "key > max_key st" by blast
        with lay(2) win(2) show ?thesis by simp
      next
        case False
        with q(2) have "min_key q = min key (min_key st)" unfolding extended_def by blast
        then show ?thesis by simp
      qed
      then have bnd: "store_offset q \<le> key" "key < store_offset q + store_length q"
        using win lay(2) by linarith+
      have "get_index key st = Some (Some ?i, q)"
      proof (cases "key < min_key st")
        case True
        with False out minmax have "\<not> is_collapsed st" "\<not> is_collapsed q" by auto
        with True q(1) bnd(1) show ?thesis by (simp add: get_index_def)
      next
        case False
        with out q(1) bnd(1) show ?thesis by (simp add: get_index_def)
      qed
      then have add: "store_add key st
          = Some (q\<lparr>bins := (bins q)[?i := bins q ! ?i + 1], store_count := store_count q + 1\<rparr>)"
        using bnd by (simp add: store_add_def nat_less_iff)
      have "layout (q\<lparr>bins := (bins q)[?i := bins q ! ?i + 1], store_count := store_count q + 1\<rparr>)"
        using lay(1) by (simp add: layout_def)
      moreover have "is_collapsed q \<or> (\<not> is_collapsed st \<and> min_key q = min key (min_key st)
          \<and> (supported st \<longrightarrow> binval q = binval st))"
        "\<not> is_collapsed st \<and> max key (max_key st) - min key (min_key st) < 2048 \<longrightarrow> \<not> is_collapsed q"
        using q(2) unfolding extended_def by blast+
      ultimately show ?thesis
        unfolding add using binval_increment [OF bnd, of "store_count q + 1"] lay(2,3)
        by (cases "is_collapsed q") simp_all
    qed
  next
    case inside
    let ?i = "nat (key - store_offset st)"
    have bnd: "store_offset st \<le> key" "key < store_offset st + store_length st"
      using inside assms by (auto simp: layout_def)
    then have add: "store_add key st
        = Some (st\<lparr>bins := (bins st)[?i := bins st ! ?i + 1], store_count := store_count st + 1\<rparr>)"
      using inside by (simp add: store_add_def get_index_def nat_less_iff)
    show ?thesis
      unfolding add using binval_increment [OF bnd, of "store_count st + 1"] inside assms
      by (simp add: layout_def)
  qed
qed

text \<open>
  The store after the keys \<open>ks\<close> have been added: its layout and, while their range fits the bin
  limit, its contents.
\<close>

definition spread :: "int list \<Rightarrow> int" where
  "spread ks = Max (set ks) - Min (set ks)"

definition holds_keys :: "int list \<Rightarrow> CollapsingLowestDenseStore \<Rightarrow> bool" where
  "holds_keys ks st \<longleftrightarrow> layout st \<and> store_count st = length ks \<and> max_key st = Max (set ks)
     \<and> (spread ks < 2048 \<longrightarrow> \<not> is_collapsed st)
     \<and> (\<not> is_collapsed st \<longrightarrow> min_key st = Min (set ks) \<and> binval st = count_list ks)"

lemma holds_keys_supported:
  assumes "holds_keys ks st" and "\<not> is_collapsed st"
  shows "supported st"
proof -
  have "k \<in> set ks" if "binval st k \<noteq> 0" for k
    using that assms by (intro ccontr [of "k \<in> set ks"]) (simp add: holds_keys_def count_notin)
  with assms show ?thesis by (auto simp: supported_def holds_keys_def)
qed

lemma holds_keys_first:
  assumes "key_ok key"
  shows "\<exists>st. store_add key store_new = Some st \<and> holds_keys [key] st"
proof -
  have "binval \<lparr>bins = (replicate 128 0)[64 := 1], store_count = 1, min_key = key, max_key = key,
      store_offset = key - 64, is_collapsed = False\<rparr> = count_list [key]"
    by (auto simp: binval_def fun_eq_iff nth_list_update nat_less_iff)
  then show ?thesis
    by (auto simp: store_add_first [OF assms] holds_keys_def layout_def spread_def)
qed

lemma holds_keys_add:
  assumes "holds_keys ks st" and "ks \<noteq> []"
  shows "\<exists>st'. store_add key st = Some st' \<and> holds_keys (key # ks) st'"
proof -
  have lay: "layout st" using assms(1) by (simp add: holds_keys_def)
  from store_add_layout [OF lay, of key] obtain st' where st': "store_add key st = Some st'" "layout st'"
    "store_count st' = store_count st + 1" "max_key st' = max key (max_key st)"
    "is_collapsed st' \<or> (\<not> is_collapsed st \<and> min_key st' = min key (min_key st)
         \<and> (supported st \<longrightarrow> binval st' = (binval st)(key := binval st key + 1)))"
    "\<not> is_collapsed st \<and> max key (max_key st) - min key (min_key st) < 2048 \<longrightarrow> \<not> is_collapsed st'"
    by blast
  have mx: "Max (set (key # ks)) = max key (Max (set ks))" "Min (set (key # ks)) = min key (Min (set ks))"
    using assms(2) by simp_all
  have "\<not> is_collapsed st'" if "spread (key # ks) < 2048"
  proof -
    have "spread ks < 2048" using that mx by (simp add: spread_def)
    then have "\<not> is_collapsed st" "min_key st = Min (set ks)" "max_key st = Max (set ks)"
      using assms(1) by (simp_all add: holds_keys_def)
    with st'(6) that mx show ?thesis by (simp add: spread_def)
  qed
  moreover have "min_key st' = Min (set (key # ks)) \<and> binval st' = count_list (key # ks)" if "\<not> is_collapsed st'"
  proof -
    from that st'(5) have "\<not> is_collapsed st" "min_key st' = min key (min_key st)"
      "supported st \<longrightarrow> binval st' = (binval st)(key := binval st key + 1)" by auto
    with holds_keys_supported [OF assms(1)] assms(1) mx show ?thesis
      by (auto simp: holds_keys_def fun_eq_iff)
  qed
  ultimately show ?thesis
    using st'(1-4) mx assms(1) by (auto simp: holds_keys_def)
qed

lemma store_add_all_append:
  "store_add_all (ks @ ks') st = Option.bind (store_add_all ks st) (store_add_all ks')"
  by (induction ks arbitrary: st) (simp_all split: bind_split)

lemma store_add_all_holds:
  assumes "ks \<noteq> []" and "\<forall>k \<in> set ks. key_ok k"
  shows "\<exists>st. store_add_all ks store_new = Some st \<and> holds_keys (rev ks) st"
  using assms
proof (induction ks rule: rev_induct)
  case (snoc k ks)
  show ?case
  proof (cases "ks = []")
    case True
    with snoc.prems holds_keys_first [of k] show ?thesis by auto
  next
    case False
    with snoc obtain st where st: "store_add_all ks store_new = Some st" "holds_keys (rev ks) st" by auto
    with holds_keys_add [OF st(2), of k] False show ?thesis by (auto simp: store_add_all_append)
  qed
qed simp

text \<open>
  C23. Adding keys never panics and keeps the layout of the store: for any sequence of keys within
  \<open>2^29\<close>, every index and every slice is in range, the bins are a multiple of the chunk size and at
  most 2048, the keys seen lie in the window, the count is the number of keys, and the offset stays so
  close to the keys that no \<open>i32\<close> operation wraps.
\<close>

theorem sketch_store_never_panics:
  assumes "ks \<noteq> []" and "\<forall>k \<in> set ks. \<bar>k\<bar> \<le> 2 ^ 29"
  shows "\<exists>st. store_add_all ks store_new = Some st \<and> store_count st = length ks
    \<and> 128 dvd length (bins st) \<and> length (bins st) \<le> 2048
    \<and> store_offset st \<le> min_key st \<and> min_key st \<le> max_key st
    \<and> max_key st < store_offset st + store_length st \<and> max_key st = Max (set ks)
    \<and> \<bar>store_offset st\<bar> \<le> 2 ^ 29 + 2048"
proof -
  have "\<forall>k \<in> set ks. key_ok k" using assms(2) by (simp add: key_ok_def)
  from store_add_all_holds [OF assms(1) this] obtain st where
    st: "store_add_all ks store_new = Some st" "holds_keys (rev ks) st" by blast
  have "Max (set ks) \<in> set ks" using assms(1) by simp
  with assms(2) have "\<bar>Max (set ks)\<bar> \<le> 2 ^ 29" by blast
  with st show ?thesis by (auto simp: holds_keys_def layout_def)
qed

theorem sketch_store_never_panics_witness:
  "\<exists>st. store_add_all [3, - 700, 90000] store_new = Some st \<and> length (bins st) \<le> 2048"
  using sketch_store_never_panics [of "[3, - 700, 90000]"] by auto

lemma sum_bins: "sum_list (bins st) = sum (binval st) {store_offset st ..< store_offset st + store_length st}"
proof -
  have "sum_list (bins st) = (\<Sum>i < length (bins st). bins st ! i)"
    by (simp add: sum_list_sum_nth atLeast0LessThan)
  also have "\<dots> = (\<Sum>i < length (bins st). binval st (store_offset st + int i))"
    by (intro sum.cong) (auto simp: binval_def)
  also have "\<dots> = sum (binval st) {store_offset st ..< store_offset st + store_length st}"
    by (rule sum.reindex_bij_witness [of _ "\<lambda>k. nat (k - store_offset st)" "\<lambda>i. store_offset st + int i"]) auto
  finally show ?thesis .
qed

lemma sum_bins_count:
  assumes "holds_keys ks st" and "\<not> is_collapsed st"
  shows "sum_list (bins st) = length ks"
proof -
  have "set ks \<subseteq> {store_offset st ..< store_offset st + store_length st}"
  proof
    fix k assume "k \<in> set ks"
    then have "Min (set ks) \<le> k" "k \<le> Max (set ks)" by simp_all
    with assms show "k \<in> {store_offset st ..< store_offset st + store_length st}"
      by (auto simp: holds_keys_def layout_def)
  qed
  with assms sum_count_set [of ks] show ?thesis by (simp add: sum_bins holds_keys_def)
qed

text \<open>
  C24. While the keys span less than the bin limit the store is exact: nothing is collapsed, the
  number kept for every key is the number of times it was added, whatever the order, and the bins sum
  up to the count.
\<close>

theorem sketch_histogram_exact:
  assumes "ks \<noteq> []" and "\<forall>k \<in> set ks. \<bar>k\<bar> \<le> 2 ^ 29" and "Max (set ks) - Min (set ks) < 2048"
  shows "\<exists>st. store_add_all ks store_new = Some st \<and> \<not> is_collapsed st
    \<and> min_key st = Min (set ks) \<and> max_key st = Max (set ks)
    \<and> (\<forall>k. binval st k = count_list ks k) \<and> sum_list (bins st) = length ks"
proof -
  have "\<forall>k \<in> set ks. key_ok k" using assms(2) by (simp add: key_ok_def)
  from store_add_all_holds [OF assms(1) this] obtain st where
    st: "store_add_all ks store_new = Some st" "holds_keys (rev ks) st" by blast
  with assms(3) have "\<not> is_collapsed st" by (simp add: holds_keys_def spread_def)
  with st sum_bins_count [OF st(2)] show ?thesis by (auto simp: holds_keys_def)
qed

theorem sketch_histogram_exact_witness:
  "\<exists>st. store_add_all [3, - 700, 3] store_new = Some st \<and> binval st 3 = 2 \<and> binval st (- 700) = 1"
  using sketch_histogram_exact [of "[3, - 700, 3]"] by force


end
