(* ===== verification/DsmCodec.thy ===== *)
theory DsmCodec
  imports DsmSketch
begin

text \<open>
  The wire formats of data streams monitoring: the varints and the sketch message written by
  \<open>bottlecap/src/traces/data_streams/sketch.rs\<close>, and the decoder of inbound pathway contexts of
  \<open>context.rs\<close>. The little-endian bytes of an \<open>f64\<close> and base64 are parameters.
\<close>

unbundle bit_operations_syntax

section \<open>Writing\<close>

definition WIRE_VARINT :: u8 where "WIRE_VARINT = 0"
definition WIRE_FIXED64 :: u8 where "WIRE_FIXED64 = 1"
definition WIRE_LEN :: u8 where "WIRE_LEN = 2"

function write_uvarint :: "u64 \<Rightarrow> bytes" where
  "write_uvarint v =
     (let byte = ucast (v AND 0x7f) :: u8;
          v' = drop_bit 7 v
      in if v' \<noteq> 0 then (byte OR 0x80) # write_uvarint v' else [byte])"
  by pat_completeness auto
termination
proof (relation "measure unat")
  fix v byte v'
  assume v': "v' = drop_bit 7 (v :: u64)" "v' \<noteq> 0"
  have "unat v' = drop_bit 7 (unat v)" unfolding v'(1) by (rule unat_drop_bit_eq)
  then have "unat v' = unat v div 128" by (simp add: drop_bit_eq_div)
  moreover have "unat v' \<noteq> 0" using v'(2) by (simp add: unat_eq_0)
  ultimately show "(v', v) \<in> measure unat" by (cases "unat v = 0") simp_all
qed simp

declare write_uvarint.simps [simp del]

definition write_tag :: "u32 \<Rightarrow> u8 \<Rightarrow> bytes" where
  "write_tag field wire = write_uvarint (ucast ((push_bit 3 field) OR (ucast wire :: u32)))"

text \<open>\<open>value >> 31\<close> on an \<open>i32\<close> is an arithmetic shift.\<close>

definition write_zigzag32 :: "u32 \<Rightarrow> bytes" where
  "write_zigzag32 v = write_uvarint (ucast (push_bit 1 v XOR signed_drop_bit 31 v))"

definition encode_store :: "(nat \<Rightarrow> bytes) \<Rightarrow> CollapsingLowestDenseStore \<Rightarrow> bytes" where
  "encode_store le st =
     (if bins st \<noteq> [] then
        write_tag 2 WIRE_LEN @ write_uvarint (of_nat (length (bins st) * 8)) @ concat (map le (bins st))
      else [])
     @ write_tag 3 WIRE_VARINT @ write_zigzag32 (word_of_int (store_offset st))"

definition to_proto_bytes :: "bytes \<Rightarrow> (nat \<Rightarrow> bytes) \<Rightarrow> DdSketch \<Rightarrow> bytes" where
  "to_proto_bytes gamma_bytes le s =
     (let mapping = write_tag 1 WIRE_FIXED64 @ gamma_bytes @ write_tag 2 WIRE_FIXED64 @ le 0
                    @ write_tag 3 WIRE_VARINT @ [0];
          pos = encode_store le (positive_store s);
          neg = encode_store le (negative_store s)
      in write_tag 1 WIRE_LEN @ write_uvarint (of_nat (length mapping)) @ mapping
         @ write_tag 2 WIRE_LEN @ write_uvarint (of_nat (length pos)) @ pos
         @ write_tag 3 WIRE_LEN @ write_uvarint (of_nat (length neg)) @ neg
         @ write_tag 4 WIRE_FIXED64 @ le (zero_count s))"

section \<open>Reading\<close>

fun decode_loop :: "u64 \<Rightarrow> nat \<Rightarrow> bytes \<Rightarrow> (u64 \<times> bytes) option" where
  "decode_loop result shift [] = None"
| "decode_loop result shift (byte # rest) =
     (if shift \<ge> 64 then None
      else (let result = result OR push_bit shift (ucast (byte AND 0x7f))
            in if byte AND 0x80 = 0 then Some (result, rest) else decode_loop result (shift + 7) rest))"

definition decode_uvarint :: "bytes \<Rightarrow> (u64 \<times> bytes) option" where
  "decode_uvarint bs = decode_loop 0 0 bs"

definition decode_zigzag_varint :: "bytes \<Rightarrow> (u64 \<times> bytes) option" where
  "decode_zigzag_varint bs =
     map_option (\<lambda>(raw, rest). (drop_bit 1 raw XOR - (raw AND 1), rest)) (decode_uvarint bs)"

definition MS_TO_NS :: u64 where
  "MS_TO_NS = 1000000"

text \<open>An \<open>i64\<close> is the word of its two's complement; the conversion to \<open>u64\<close> fails when it is negative.\<close>

definition ms_to_ns :: "u64 \<Rightarrow> u64 option" where
  "ms_to_ns ms = (if sint ms < 0 then None else checked_mul ms MS_TO_NS)"

record DsmContext =
  ctx_hash :: bytes
  pathway_start_ns :: u64
  edge_start_ns :: u64

definition from_bytes :: "bytes \<Rightarrow> DsmContext option" where
  "from_bytes bs =
     (if length bs < 8 then None
      else do {
        (pathway_start_ms, rest) \<leftarrow> decode_zigzag_varint (drop 8 bs);
        (edge_start_ms, _) \<leftarrow> decode_zigzag_varint rest;
        p \<leftarrow> ms_to_ns pathway_start_ms;
        e \<leftarrow> ms_to_ns edge_start_ms;
        Some \<lparr>ctx_hash = take 8 bs, pathway_start_ns = p, edge_start_ns = e\<rparr>
      })"

definition from_base64 :: "(string \<Rightarrow> bytes option) \<Rightarrow> string \<Rightarrow> DsmContext option" where
  "from_base64 base64_decode s = Option.bind (base64_decode s) from_bytes"

section \<open>Varints round trip\<close>

lemma mask7_word: "(v :: 'a::len word) AND 0x7f = take_bit 7 v"
proof -
  have "(0x7f :: 'a word) = mask 7" by (simp add: mask_eq_exp_minus_1)
  then show ?thesis by (simp add: take_bit_eq_mask)
qed

lemma bit_0x80: "bit (0x80 :: u8) n \<longleftrightarrow> n = 7"
proof -
  have "(0x80 :: u8) = 2 ^ 7" by simp
  then show ?thesis by (simp only: bit_exp_iff) auto
qed

lemmas byte_bits = bit_and_iff bit_or_iff bit_unsigned_iff bit_take_bit_iff bit_0x80 bit_0_eq

lemma last_byte:
  fixes v :: u64
  shows "(ucast (v AND 0x7f) :: u8) AND 0x80 = 0"
    and "ucast ((ucast (v AND 0x7f) :: u8) AND 0x7f) = v AND 0x7f"
proof -
  have "\<not> bit ((ucast (take_bit 7 v) :: u8) AND 0x80) n" for n
    by (simp only: byte_bits) auto
  then show "(ucast (v AND 0x7f) :: u8) AND 0x80 = 0"
    unfolding mask7_word by (intro bit_eqI) simp
  show "ucast ((ucast (v AND 0x7f) :: u8) AND 0x7f) = v AND 0x7f"
    unfolding mask7_word by (rule bit_eqI) (auto simp: byte_bits)
qed

lemma more_byte:
  fixes v :: u64
  shows "((ucast (v AND 0x7f) :: u8) OR 0x80) AND 0x80 \<noteq> 0"
    and "ucast (((ucast (v AND 0x7f) :: u8) OR 0x80) AND 0x7f) = v AND 0x7f"
proof -
  have "bit (((ucast (v AND 0x7f) :: u8) OR 0x80) AND 0x80) 7"
    by (simp add: byte_bits)
  then show "((ucast (v AND 0x7f) :: u8) OR 0x80) AND 0x80 \<noteq> 0" by auto
  show "ucast (((ucast (v AND 0x7f) :: u8) OR 0x80) AND 0x7f) = v AND 0x7f"
    unfolding mask7_word by (rule bit_eqI) (auto simp: byte_bits)
qed

lemma bit_of_bounded:
  fixes v :: u64
  assumes "take_bit m v = v" and "bit v n"
  shows "n < m"
  using assms by (metis bit_take_bit_iff)

lemma decode_loop_write:
  assumes "shift < 64" and "take_bit (64 - shift) v = v"
  shows "decode_loop result shift (write_uvarint v @ rest) = Some (result OR push_bit shift v, rest)"
  using assms
proof (induction v arbitrary: result shift rule: write_uvarint.induct)
  case (1 v)
  show ?case
  proof (cases "drop_bit 7 v = 0")
    case True
    then have "v AND 0x7f = v"
      unfolding mask7_word by (metis add_0 bits_ident push_bit_of_0)
    with True 1(2) show ?thesis
      using last_byte [of v] by (simp add: write_uvarint.simps [of v])
  next
    case False
    then obtain n where "bit (drop_bit 7 v) n" by (metis bit_eqI bit_0_eq bot_apply bot_bool_def)
    then have "bit v (7 + n)" by (simp add: bit_drop_bit_eq)
    with bit_of_bounded [OF 1(3)] have shift: "shift + 7 < 64" by fastforce
    have small: "take_bit (64 - (shift + 7)) (drop_bit 7 v) = drop_bit 7 v"
    proof (rule bit_eqI)
      fix n
      show "bit (take_bit (64 - (shift + 7)) (drop_bit 7 v)) n = bit (drop_bit 7 v) n"
        using bit_of_bounded [OF 1(3), of "7 + n"] by (auto simp: bit_take_bit_iff bit_drop_bit_eq)
    qed
    have "(result OR push_bit shift (take_bit 7 v)) OR push_bit (shift + 7) (drop_bit 7 v)
        = result OR push_bit shift v"
    proof (rule bit_eqI)
      fix n
      have "7 + (n - (shift + 7)) = n - shift" if "shift + 7 \<le> n" using that by simp
      then show "bit ((result OR push_bit shift (take_bit 7 v)) OR push_bit (shift + 7) (drop_bit 7 v)) n
          = bit (result OR push_bit shift v) n"
        by (cases "shift + 7 \<le> n") (auto simp: bit_or_iff bit_push_bit_iff bit_take_bit_iff bit_drop_bit_eq)
    qed
    then show ?thesis
      using 1(1) [OF refl refl False shift small, of "result OR push_bit shift (v AND 0x7f)"] 1(2)
        more_byte [of v] False by (simp add: write_uvarint.simps [of v] mask7_word Let_def)
  qed
qed

lemma decode_uvarint_write: "decode_uvarint (write_uvarint v @ rest) = Some (v, rest)"
proof -
  have "take_bit 64 v = v"
    by (rule bit_eqI) (auto simp: bit_take_bit_iff dest: bit_imp_le_length)
  then show ?thesis using decode_loop_write [of 0 v 0 rest] by (simp add: decode_uvarint_def)
qed

definition zigzag64 :: "u64 \<Rightarrow> u64" where
  "zigzag64 w = push_bit 1 w XOR signed_drop_bit 63 w"

lemma zigzag_low_bit: "- (raw AND 1) = (if bit raw 0 then - 1 else 0 :: u64)"
  by (simp add: and_one_eq mod_2_eq_odd bit_0)

lemma bit_zigzag64:
  "bit (zigzag64 w) n \<longleftrightarrow> n < 64 \<and> ((n \<noteq> 0 \<and> bit w (n - 1)) \<noteq> bit w 63)"
  unfolding zigzag64_def bit_xor_iff bit_push_bit_iff bit_signed_drop_bit_iff
  by (cases "n = 0") (auto dest: bit_imp_le_length)

lemma zigzag64_inverse: "drop_bit 1 (zigzag64 w) XOR - (zigzag64 w AND 1) = w"
proof (rule bit_eqI)
  fix n
  assume "possible_bit TYPE(64 word) n"
  then have "n < 64" by simp
  then show "bit (drop_bit 1 (zigzag64 w) XOR - (zigzag64 w AND 1)) n = bit w n"
    unfolding zigzag_low_bit bit_xor_iff bit_drop_bit_eq comp_def bit_zigzag64
    by (cases "n = 63") auto
qed

text \<open>The writer of the sketch works on 32 bits; the reader sees the sign-extended value.\<close>

lemma bit_zigzag32:
  fixes v :: u32
  shows "bit (ucast (push_bit 1 v XOR signed_drop_bit 31 v) :: u64) n
    \<longleftrightarrow> n < 32 \<and> ((n \<noteq> 0 \<and> bit v (n - 1)) \<noteq> bit v 31)"
  unfolding bit_unsigned_iff bit_xor_iff bit_push_bit_iff bit_signed_drop_bit_iff
  by (cases "n = 0") (auto dest: bit_imp_le_length)

lemma bit_scast32:
  fixes v :: u32
  shows "n < 64 \<Longrightarrow> bit (scast v :: u64) n \<longleftrightarrow> (if n < 31 then bit v n else bit v 31)"
  by (auto simp: bit_signed_iff min_def)

lemma zigzag32_inverse:
  fixes v :: u32
  defines "zz \<equiv> ucast (push_bit 1 v XOR signed_drop_bit 31 v) :: u64"
  shows "drop_bit 1 zz XOR - (zz AND 1) = scast v"
proof (rule bit_eqI)
  fix n
  assume "possible_bit TYPE(64 word) n"
  then have n: "n < 64" by simp
  have "bit zz m \<longleftrightarrow> m < 32 \<and> ((m \<noteq> 0 \<and> bit v (m - 1)) \<noteq> bit v 31)" for m
    unfolding zz_def by (rule bit_zigzag32)
  with n show "bit (drop_bit 1 zz XOR - (zz AND 1)) n = bit (scast v :: u64) n"
    unfolding zigzag_low_bit bit_xor_iff bit_drop_bit_eq comp_def bit_scast32 [OF n]
    by auto
qed

text \<open>
  The varints written by the sketch encoder and those read by the context decoder agree: reading
  back what was written gives the value and the rest of the input untouched, for every unsigned value,
  for every zigzag-encoded signed 64-bit value, and for the signed 32-bit offset of a sketch store.
\<close>

theorem varint_roundtrip:
  "decode_uvarint (write_uvarint v @ rest) = Some (v, rest)
    \<and> decode_zigzag_varint (write_uvarint (zigzag64 w) @ rest) = Some (w, rest)
    \<and> decode_zigzag_varint (write_zigzag32 k @ rest) = Some (scast k, rest)"
  unfolding decode_zigzag_varint_def write_zigzag32_def decode_uvarint_write
  by (simp only: option.map prod.case zigzag64_inverse zigzag32_inverse simp_thms)

text \<open>
  C39. The decoder reads back any pathway context in the documented format: eight bytes of hash and two
  zigzag varints in milliseconds, followed by anything, give the hash and the times in nanoseconds,
  whenever these fit 64 bits.
\<close>

theorem dsm_context_roundtrip:
  assumes "length hash = 8" and "sint p \<ge> 0" and "sint e \<ge> 0"
    and "unat p * 1000000 < 2 ^ 64" and "unat e * 1000000 < 2 ^ 64"
  shows "from_bytes (hash @ write_uvarint (zigzag64 p) @ write_uvarint (zigzag64 e) @ rest)
    = Some \<lparr>ctx_hash = hash, pathway_start_ns = p * 1000000, edge_start_ns = e * 1000000\<rparr>"
proof -
  have zz: "decode_zigzag_varint (write_uvarint (zigzag64 w) @ r) = Some (w, r)" for w r
    unfolding decode_zigzag_varint_def decode_uvarint_write
    by (simp only: option.map prod.case zigzag64_inverse)
  have ns: "ms_to_ns w = Some (w * 1000000)" if "sint w \<ge> 0" "unat w * 1000000 < 2 ^ 64" for w
    using that by (simp add: ms_to_ns_def MS_TO_NS_def checked_mul_def)
  show ?thesis
    using assms by (simp add: from_bytes_def zz ns)
qed

theorem dsm_context_roundtrip_witness:
  "from_bytes ([1, 2, 3, 4, 5, 6, 7, 8] @ write_uvarint (zigzag64 1700000000000) @ write_uvarint (zigzag64 5) @ [9])
    = Some \<lparr>ctx_hash = [1, 2, 3, 4, 5, 6, 7, 8], pathway_start_ns = 1700000000000 * 1000000,
        edge_start_ns = 5 * 1000000\<rparr>"
  by (rule dsm_context_roundtrip) simp_all

text \<open>
  A varint that overflows 64 bits is not rejected: in the tenth byte only the length of the
  encoding is checked, and payload bits beyond the sixty-fourth are dropped.
\<close>

theorem varint_overflow_accepted:
  "decode_uvarint [0x80, 0x80, 0x80, 0x80, 0x80, 0x80, 0x80, 0x80, 0x80, 0x7e] = Some (0, [])"
  by code_simp

end

