(* ===== verification/DsmPathway.thy ===== *)
theory DsmPathway
  imports DsmCodec Aggregators "HOL-Library.List_Lexorder" "HOL-Library.Char_ord" "HOL-Library.Multiset"
begin

text \<open>
  Pathway hashes, consume checkpoints and their aggregation:
  \<open>bottlecap/src/traces/data_streams/pathway.rs\<close>, \<open>propagation_hash.rs\<close>, \<open>checkpoint.rs\<close>,
  \<open>aggregator.rs\<close> and \<open>processor.rs\<close>. SHA-256, base64, msgpack and gzip are parameters, and so is the
  mapping of an \<open>f64\<close> value to a sketch key. Text is a list of \<open>char\<close>, the bytes of its UTF-8 form.
\<close>

section \<open>Pathway hashes\<close>

definition as_bytes :: "string \<Rightarrow> bytes" where
  "as_bytes s = map (\<lambda>c. of_char c) s"

definition MANUAL_CHECKPOINT_TAG :: string where
  "MANUAL_CHECKPOINT_TAG = ''manual_checkpoint:true''"

text \<open>\<open>String::from_utf8_lossy\<close>: an invalid sequence, up to its first unexpected byte, becomes U+FFFD.\<close>

definition REPLACEMENT :: bytes where
  "REPLACEMENT = [0xEF, 0xBF, 0xBD]"

definition is_cont :: "u8 \<Rightarrow> bool" where
  "is_cont b \<longleftrightarrow> 0x80 \<le> b \<and> b \<le> 0xBF"

definition second_ok :: "u8 \<Rightarrow> u8 \<Rightarrow> bool" where
  "second_ok lead b =
     (if lead = 0xE0 then 0xA0 \<le> b \<and> b \<le> 0xBF
      else if lead = 0xED then 0x80 \<le> b \<and> b \<le> 0x9F
      else if lead = 0xF0 then 0x90 \<le> b \<and> b \<le> 0xBF
      else if lead = 0xF4 then 0x80 \<le> b \<and> b \<le> 0x8F
      else is_cont b)"

definition nth_ok :: "bytes \<Rightarrow> nat \<Rightarrow> (u8 \<Rightarrow> bool) \<Rightarrow> bool" where
  "nth_ok bs i P \<longleftrightarrow> i < length bs \<and> P (bs ! i)"

definition utf8_step :: "bytes \<Rightarrow> bytes \<times> nat" where
  "utf8_step bs =
     (let b = hd bs in
      if b < 0x80 then (take 1 bs, 1)
      else if 0xC2 \<le> b \<and> b \<le> 0xDF then
        (if nth_ok bs 1 is_cont then (take 2 bs, 2) else (REPLACEMENT, 1))
      else if 0xE0 \<le> b \<and> b \<le> 0xEF then
        (if \<not> nth_ok bs 1 (second_ok b) then (REPLACEMENT, 1)
         else if \<not> nth_ok bs 2 is_cont then (REPLACEMENT, 2)
         else (take 3 bs, 3))
      else if 0xF0 \<le> b \<and> b \<le> 0xF4 then
        (if \<not> nth_ok bs 1 (second_ok b) then (REPLACEMENT, 1)
         else if \<not> nth_ok bs 2 is_cont then (REPLACEMENT, 2)
         else if \<not> nth_ok bs 3 is_cont then (REPLACEMENT, 3)
         else (take 4 bs, 4))
      else (REPLACEMENT, 1))"

lemma utf8_step_pos: "0 < snd (utf8_step bs)"
  by (simp add: utf8_step_def Let_def)

function from_utf8_lossy :: "bytes \<Rightarrow> bytes" where
  "from_utf8_lossy bs =
     (if bs = [] then [] else fst (utf8_step bs) @ from_utf8_lossy (drop (snd (utf8_step bs)) bs))"
  by pat_completeness auto
termination
  by (relation "measure length") (auto simp: utf8_step_pos)

declare from_utf8_lossy.simps [simp del]

definition sha256_first8 :: "(bytes \<Rightarrow> bytes) \<Rightarrow> bytes \<Rightarrow> bytes" where
  "sha256_first8 sha bs = take 8 (sha bs)"

fun hex_digits :: "nat \<Rightarrow> string" where
  "hex_digits n = (if n < 16 then [''0123456789abcdef'' ! n]
     else hex_digits (n div 16) @ [''0123456789abcdef'' ! (n mod 16)])"

declare hex_digits.simps [simp del]

definition compute_pathway_hash ::
    "(bytes \<Rightarrow> bytes) \<Rightarrow> string \<Rightarrow> string \<Rightarrow> string list \<Rightarrow> bytes \<Rightarrow> u64 option \<Rightarrow> bytes" where
  "compute_pathway_hash sha service env edge_tags parent_hash propagation_hash =
     (let tags = sort edge_tags;
          joined_tags = concat (filter (\<lambda>tag. tag \<noteq> MANUAL_CHECKPOINT_TAG) tags);
          base = service @ env @ joined_tags;
          base = (case propagation_hash of Some h \<Rightarrow> base @ '':'' @ hex_digits (unat h) | None \<Rightarrow> base);
          current_hash = sha256_first8 sha (as_bytes base)
      in sha256_first8 sha (from_utf8_lossy (current_hash @ parent_hash)))"

definition FNV1_64_OFFSET_BASIS :: u64 where
  "FNV1_64_OFFSET_BASIS = 0xCBF29CE484222325"

definition FNV1_64_PRIME :: u64 where
  "FNV1_64_PRIME = 0x00000100000001B3"

definition fnv1_64 :: "bytes \<Rightarrow> u64" where
  "fnv1_64 bs = fold (\<lambda>byte hash. (hash * FNV1_64_PRIME) XOR ucast byte) bs FNV1_64_OFFSET_BASIS"

section \<open>Checkpoints\<close>

definition ENTRY_PARENT_HASH :: bytes where
  "ENTRY_PARENT_HASH = replicate 8 0"

record Checkpoint =
  cp_hash :: bytes
  cp_parent_hash :: bytes
  cp_edge_tags :: "string list"
  edge_latency_ns :: u64
  pathway_latency_ns :: u64
  current_ts_ns :: u64

definition compute_consume_checkpoint ::
    "(bytes \<Rightarrow> bytes) \<Rightarrow> string \<Rightarrow> string \<Rightarrow> string list \<Rightarrow> DsmContext option \<Rightarrow> u64 \<Rightarrow> u64 option \<Rightarrow> Checkpoint" where
  "compute_consume_checkpoint sha service env edge_tags ctx now_ns propagation_hash =
     (let (parent_hash, pathway_start, edge_start) =
            (case ctx of Some c \<Rightarrow> (ctx_hash c, pathway_start_ns c, edge_start_ns c)
                       | None \<Rightarrow> (ENTRY_PARENT_HASH, now_ns, now_ns))
      in \<lparr>cp_hash = compute_pathway_hash sha service env edge_tags parent_hash propagation_hash,
          cp_parent_hash = parent_hash, cp_edge_tags = edge_tags,
          edge_latency_ns = saturating_sub now_ns edge_start,
          pathway_latency_ns = saturating_sub now_ns pathway_start,
          current_ts_ns = now_ns\<rparr>)"

section \<open>Aggregation\<close>

definition BUCKET_SIZE_NS :: u64 where
  "BUCKET_SIZE_NS = 10000000000"

record StatsPoint =
  sp_hash :: u64
  sp_parent_hash :: u64
  sp_edge_tags :: "string list"
  edge_latency :: DdSketch
  pathway_latency :: DdSketch
  sp_payload_size :: DdSketch

text \<open>
  What the sources do with \<open>f64\<close> numbers is a parameter: the conversion of nanoseconds to seconds,
  the comparison with the smallest value the mapping can represent, the key of a value, and the
  little-endian bytes of a count and of the base of the mapping.
\<close>

record 'v Floats =
  in_seconds :: "u64 \<Rightarrow> 'v"
  sign_of :: "'v \<Rightarrow> magnitude"
  key_of :: "'v \<Rightarrow> int"
  le_bytes :: "nat \<Rightarrow> bytes"
  gamma_bytes :: bytes

definition StatsPoint_new :: "u64 \<Rightarrow> u64 \<Rightarrow> string list \<Rightarrow> StatsPoint" where
  "StatsPoint_new hash parent_hash edge_tags =
     \<lparr>sp_hash = hash, sp_parent_hash = parent_hash, sp_edge_tags = edge_tags,
      edge_latency = sketch_new, pathway_latency = sketch_new, sp_payload_size = sketch_new\<rparr>"

definition StatsPoint_add :: "'v Floats \<Rightarrow> u64 \<Rightarrow> u64 \<Rightarrow> 'v \<Rightarrow> StatsPoint \<Rightarrow> StatsPoint option" where
  "StatsPoint_add fl edge_ns pathway_ns sz p = do {
     e \<leftarrow> accept (sign_of fl) (key_of fl) (in_seconds fl edge_ns) (edge_latency p);
     w \<leftarrow> accept (sign_of fl) (key_of fl) (in_seconds fl pathway_ns) (pathway_latency p);
     z \<leftarrow> accept (sign_of fl) (key_of fl) sz (sp_payload_size p);
     Some (p\<lparr>edge_latency := e, pathway_latency := w, sp_payload_size := z\<rparr>)
   }"

type_synonym StatsBucket = "u64 \<rightharpoonup> StatsPoint"

record DsmAggregator =
  dsm_service :: string
  dsm_env :: string
  dsm_tracer_version :: string
  dsm_version :: string
  dsm_tags :: "string list"
  buckets :: "u64 \<rightharpoonup> StatsBucket"

definition DsmAggregator_new :: "string \<Rightarrow> string \<Rightarrow> string \<Rightarrow> string \<Rightarrow> string list \<Rightarrow> DsmAggregator" where
  "DsmAggregator_new service env tracer_ver version tags =
     \<lparr>dsm_service = service, dsm_env = env, dsm_tracer_version = tracer_ver, dsm_version = version,
      dsm_tags = tags, buckets = Map.empty\<rparr>"

definition from_le_bytes :: "bytes \<Rightarrow> u64" where
  "from_le_bytes bs = foldr (\<lambda>b acc. acc * 256 + ucast b) bs 0"

definition bucket_start :: "u64 \<Rightarrow> u64" where
  "bucket_start ts = ts - (ts mod BUCKET_SIZE_NS)"

definition agg_add :: "'v Floats \<Rightarrow> Checkpoint \<Rightarrow> 'v \<Rightarrow> DsmAggregator \<Rightarrow> DsmAggregator option" where
  "agg_add fl cp sz agg =
     (let start = bucket_start (current_ts_ns cp);
          hash = from_le_bytes (cp_hash cp);
          parent_hash = from_le_bytes (cp_parent_hash cp);
          bucket = (case buckets agg start of Some b \<Rightarrow> b | None \<Rightarrow> Map.empty);
          point = (case bucket hash of
                     Some p \<Rightarrow> p
                   | None \<Rightarrow> StatsPoint_new hash parent_hash (cp_edge_tags cp))
      in map_option (\<lambda>p. agg\<lparr>buckets := (buckets agg)(start \<mapsto> bucket(hash \<mapsto> p))\<rparr>)
           (StatsPoint_add fl (edge_latency_ns cp) (pathway_latency_ns cp) sz point))"

fun agg_add_all :: "'v Floats \<Rightarrow> (Checkpoint \<times> 'v) list \<Rightarrow> DsmAggregator \<Rightarrow> DsmAggregator option" where
  "agg_add_all fl [] agg = Some agg"
| "agg_add_all fl ((cp, sz) # cps) agg = Option.bind (agg_add fl cp sz agg) (agg_add_all fl cps)"

definition dsm_is_empty :: "DsmAggregator \<Rightarrow> bool" where
  "dsm_is_empty agg \<longleftrightarrow> dom (buckets agg) = {}"

subsection \<open>The payload\<close>

record StatsPointSer =
  ser_hash :: u64
  ser_parent_hash :: u64
  ser_edge_tags :: "string list"
  ser_edge_latency :: bytes
  ser_pathway_latency :: bytes
  ser_payload_size :: bytes

record StatsBucketSer =
  ser_start :: u64
  ser_duration :: u64
  ser_points :: "StatsPointSer list"
  ser_backlogs :: "unit list"

record StatsPayloadSer =
  ser_env :: string
  ser_service :: string
  ser_stats :: "StatsBucketSer list"
  ser_tracer_version :: string
  ser_lang :: string
  ser_version :: string
  ser_tags :: "string list"

text \<open>
  The iteration order of the hash maps is a parameter: \<open>ord_b\<close> lists the keys of the bucket map and
  \<open>ord_p start\<close> those of the points of one bucket.
\<close>

definition point_ser :: "'v Floats \<Rightarrow> StatsPoint \<Rightarrow> StatsPointSer" where
  "point_ser fl p =
     \<lparr>ser_hash = sp_hash p, ser_parent_hash = sp_parent_hash p, ser_edge_tags = sp_edge_tags p,
      ser_edge_latency = to_proto_bytes (gamma_bytes fl) (le_bytes fl) (edge_latency p),
      ser_pathway_latency = to_proto_bytes (gamma_bytes fl) (le_bytes fl) (pathway_latency p),
      ser_payload_size = to_proto_bytes (gamma_bytes fl) (le_bytes fl) (sp_payload_size p)\<rparr>"

definition bucket_ser :: "'v Floats \<Rightarrow> (u64 set \<Rightarrow> u64 list) \<Rightarrow> u64 \<Rightarrow> StatsBucket \<Rightarrow> StatsBucketSer" where
  "bucket_ser fl ord start b =
     \<lparr>ser_start = start, ser_duration = BUCKET_SIZE_NS,
      ser_points = map (\<lambda>h. point_ser fl (the (b h))) (ord (dom b)), ser_backlogs = []\<rparr>"

definition payload_ser ::
    "'v Floats \<Rightarrow> (u64 set \<Rightarrow> u64 list) \<Rightarrow> (u64 \<Rightarrow> u64 set \<Rightarrow> u64 list) \<Rightarrow> DsmAggregator \<Rightarrow> StatsPayloadSer" where
  "payload_ser fl ord_b ord_p agg =
     \<lparr>ser_env = dsm_env agg, ser_service = dsm_service agg,
      ser_stats = map (\<lambda>start. bucket_ser fl (ord_p start) start (the (buckets agg start)))
                    (ord_b (dom (buckets agg))),
      ser_tracer_version = dsm_tracer_version agg, ser_lang = ''rust-extension'',
      ser_version = dsm_version agg, ser_tags = dsm_tags agg\<rparr>"

definition take_payload ::
    "'v Floats \<Rightarrow> (u64 set \<Rightarrow> u64 list) \<Rightarrow> (u64 \<Rightarrow> u64 set \<Rightarrow> u64 list)
      \<Rightarrow> (StatsPayloadSer \<Rightarrow> bytes option) \<Rightarrow> DsmAggregator \<Rightarrow> bytes option \<times> DsmAggregator" where
  "take_payload fl ord_b ord_p to_vec_named agg =
     (if dsm_is_empty agg then (None, agg)
      else (to_vec_named (payload_ser fl ord_b ord_p agg), agg\<lparr>buckets := Map.empty\<rparr>))"

section \<open>The processor\<close>

definition TRACE_INTAKE_ROUTE :: string where
  "TRACE_INTAKE_ROUTE = ''/api/v0.2/traces''"

text \<open>\<open>str::trim_end_matches\<close> removes a suffix as often as it occurs; both patterns are not empty.\<close>

definition ends_with :: "string \<Rightarrow> string \<Rightarrow> bool" where
  "ends_with p s \<longleftrightarrow> length p \<le> length s \<and> drop (length s - length p) s = p"

function trim_end_matches :: "string \<Rightarrow> string \<Rightarrow> string" where
  "trim_end_matches p s =
     (if p \<noteq> [] \<and> ends_with p s then trim_end_matches p (take (length s - length p) s) else s)"
  by pat_completeness auto
termination
  by (relation "measure (\<lambda>(p, s). length s)")
    (auto simp: ends_with_def length_greater_0_conv [symmetric] simp del: length_greater_0_conv)

declare trim_end_matches.simps [simp del]

definition intake_base_url :: "string \<Rightarrow> string" where
  "intake_base_url apm_dd_url = trim_end_matches TRACE_INTAKE_ROUTE (trim_end_matches ''/'' apm_dd_url)"

definition DD_PATHWAY_CTX_BASE64_KEY :: string where
  "DD_PATHWAY_CTX_BASE64_KEY = ''dd-pathway-ctx-base64''"

definition DD_PATHWAY_CTX_KEY :: string where
  "DD_PATHWAY_CTX_KEY = ''dd-pathway-ctx''"

definition extract_pathway_context ::
    "(string \<Rightarrow> bytes option) \<Rightarrow> (string \<rightharpoonup> string) \<Rightarrow> DsmContext option" where
  "extract_pathway_context base64_decode carrier =
     (case Option.bind (carrier DD_PATHWAY_CTX_BASE64_KEY) (from_base64 base64_decode) of
        Some ctx \<Rightarrow> Some ctx
      | None \<Rightarrow> Option.bind (carrier DD_PATHWAY_CTX_KEY) (\<lambda>v. from_bytes (as_bytes v)))"

record DsmProcessor =
  dp_service :: string
  dp_env :: string
  dp_aggregator :: DsmAggregator
  dp_target_url :: string

definition DsmProcessor_new ::
    "string \<Rightarrow> string \<Rightarrow> string \<Rightarrow> string \<Rightarrow> string list \<Rightarrow> string \<Rightarrow> DsmProcessor" where
  "DsmProcessor_new service env tracer_ver version tags apm_dd_url =
     \<lparr>dp_service = service, dp_env = env,
      dp_aggregator = DsmAggregator_new service env tracer_ver version tags,
      dp_target_url = intake_base_url apm_dd_url @ ''/api/v0.1/pipeline_stats''\<rparr>"

text \<open>
  The clock is read once per call and is the argument \<open>now_ns\<close>. The lock of the aggregator is poisoned
  only by a panic, which aborts the process, so its error branch is not reached.
\<close>

definition record_consume ::
    "(bytes \<Rightarrow> bytes) \<Rightarrow> (string \<Rightarrow> bytes option) \<Rightarrow> 'v Floats \<Rightarrow> u64 \<Rightarrow> string list
      \<Rightarrow> (string \<rightharpoonup> string) \<Rightarrow> 'v \<Rightarrow> DsmProcessor \<Rightarrow> DsmProcessor option" where
  "record_consume sha base64_decode fl now_ns edge_tags carrier sz p =
     (let ctx = extract_pathway_context base64_decode carrier;
          checkpoint = compute_consume_checkpoint sha (dp_service p) (dp_env p) edge_tags ctx now_ns None
      in map_option (\<lambda>agg. p\<lparr>dp_aggregator := agg\<rparr>) (agg_add fl checkpoint sz (dp_aggregator p)))"

definition drain_into_proxy ::
    "'v Floats \<Rightarrow> (u64 set \<Rightarrow> u64 list) \<Rightarrow> (u64 \<Rightarrow> u64 set \<Rightarrow> u64 list)
      \<Rightarrow> (StatsPayloadSer \<Rightarrow> bytes option) \<Rightarrow> (bytes \<Rightarrow> bytes option) \<Rightarrow> DsmProcessor
      \<Rightarrow> ((string \<times> string) list, bytes) ProxyAggregator
      \<Rightarrow> DsmProcessor \<times> ((string \<times> string) list, bytes) ProxyAggregator" where
  "drain_into_proxy fl ord_b ord_p to_vec_named gzip p pa =
     (let (payload, agg) = take_payload fl ord_b ord_p to_vec_named (dp_aggregator p);
          p = p\<lparr>dp_aggregator := agg\<rparr>
      in case payload of
           None \<Rightarrow> (p, pa)
         | Some payload \<Rightarrow>
             (case gzip payload of
                None \<Rightarrow> (p, pa)
              | Some body \<Rightarrow>
                  (p, pa_add pa \<lparr>pr_headers = [(''content-type'', ''application/msgpack''),
                                               (''content-encoding'', ''gzip'')],
                                 pr_body = body, target_url = dp_target_url p\<rparr>)))"

section \<open>Hashes do not depend on the order of tags\<close>

lemma sort_of_mset: "mset tags = mset tags' \<Longrightarrow> sort tags = sort tags'"
  using properties_for_sort [of "sort tags'" tags] by simp

text \<open>
  C40. The pathway hash does not depend on the order of the edge tags nor on the manual checkpoint
  tag: tag lists that agree as multisets once that tag is removed give the same hash.
\<close>

theorem pathway_hash_order_independent:
  assumes "mset (filter (\<lambda>t. t \<noteq> MANUAL_CHECKPOINT_TAG) tags)
    = mset (filter (\<lambda>t. t \<noteq> MANUAL_CHECKPOINT_TAG) tags')"
  shows "compute_pathway_hash sha service env tags parent_hash prop
    = compute_pathway_hash sha service env tags' parent_hash prop"
  using sort_of_mset [OF assms] by (simp add: compute_pathway_hash_def filter_sort)

theorem pathway_hash_order_independent_witness:
  "compute_pathway_hash (\<lambda>b. b @ replicate 8 0) ''svc'' ''prod''
      [''type:sqs'', MANUAL_CHECKPOINT_TAG, ''direction:in''] ENTRY_PARENT_HASH None
    = compute_pathway_hash (\<lambda>b. b @ replicate 8 0) ''svc'' ''prod''
      [''direction:in'', ''type:sqs''] ENTRY_PARENT_HASH None"
  by (rule pathway_hash_order_independent) (simp add: MANUAL_CHECKPOINT_TAG_def)

section \<open>Aggregation counts every checkpoint once\<close>

definition store_ok :: "CollapsingLowestDenseStore \<Rightarrow> bool" where
  "store_ok st \<longleftrightarrow> st = store_new \<or> layout st"

definition sketch_total :: "DdSketch \<Rightarrow> nat" where
  "sketch_total s = store_count (positive_store s) + store_count (negative_store s) + zero_count s"

definition sketch_holds :: "nat \<Rightarrow> DdSketch \<Rightarrow> bool" where
  "sketch_holds n s \<longleftrightarrow> store_ok (positive_store s) \<and> store_ok (negative_store s) \<and> sketch_total s = n"

definition accepts :: "'v Floats \<Rightarrow> 'v \<Rightarrow> bool" where
  "accepts fl v \<longleftrightarrow> sign_of fl v = Near_zero \<or> key_ok (key_of fl v)"

lemma store_add_ok:
  assumes "store_ok st" and "key_ok key"
  shows "\<exists>st'. store_add key st = Some st' \<and> store_ok st' \<and> store_count st' = store_count st + 1"
proof (cases "st = store_new")
  case True
  with holds_keys_first [OF assms(2)] show ?thesis
    by (auto simp: store_ok_def holds_keys_def store_new_def)
next
  case False
  with assms(1) have "layout st" by (simp add: store_ok_def)
  from store_add_layout [OF this, of key] show ?thesis by (auto simp: store_ok_def)
qed

lemma accept_holds:
  assumes "sketch_holds n s" and "accepts fl v"
  shows "\<exists>s'. accept (sign_of fl) (key_of fl) v s = Some s' \<and> sketch_holds (Suc n) s'"
proof (cases "sign_of fl v")
  case Above
  with assms store_add_ok [of "positive_store s" "key_of fl v"] show ?thesis
    by (auto simp: accept_def accepts_def sketch_holds_def sketch_total_def)
next
  case Below
  with assms store_add_ok [of "negative_store s" "key_of fl v"] show ?thesis
    by (auto simp: accept_def accepts_def sketch_holds_def sketch_total_def)
next
  case Near_zero
  with assms show ?thesis by (auto simp: accept_def sketch_holds_def sketch_total_def)
qed

lemma sketch_holds_new: "sketch_holds 0 sketch_new"
  by (simp add: sketch_holds_def sketch_new_def store_ok_def sketch_total_def store_new_def)

definition point_holds :: "u64 \<Rightarrow> nat \<Rightarrow> StatsPoint \<Rightarrow> bool" where
  "point_holds hash n p \<longleftrightarrow> sp_hash p = hash \<and> sketch_holds n (edge_latency p)
     \<and> sketch_holds n (pathway_latency p) \<and> sketch_holds n (sp_payload_size p)"

definition point_accepts :: "'v Floats \<Rightarrow> Checkpoint \<times> 'v \<Rightarrow> bool" where
  "point_accepts fl x \<longleftrightarrow> accepts fl (in_seconds fl (edge_latency_ns (fst x)))
     \<and> accepts fl (in_seconds fl (pathway_latency_ns (fst x))) \<and> accepts fl (snd x)"

lemma StatsPoint_add_holds:
  assumes "point_holds hash n p" and "point_accepts fl (cp, sz)"
  shows "\<exists>p'. StatsPoint_add fl (edge_latency_ns cp) (pathway_latency_ns cp) sz p = Some p'
    \<and> point_holds hash (Suc n) p'"
proof -
  from assms obtain e w z where
    "accept (sign_of fl) (key_of fl) (in_seconds fl (edge_latency_ns cp)) (edge_latency p) = Some e"
    "accept (sign_of fl) (key_of fl) (in_seconds fl (pathway_latency_ns cp)) (pathway_latency p) = Some w"
    "accept (sign_of fl) (key_of fl) sz (sp_payload_size p) = Some z"
    "sketch_holds (Suc n) e" "sketch_holds (Suc n) w" "sketch_holds (Suc n) z"
    unfolding point_holds_def point_accepts_def fst_conv snd_conv by (meson accept_holds)
  with assms(1) show ?thesis by (simp add: StatsPoint_add_def point_holds_def)
qed

text \<open>The checkpoints of one time bucket and one pathway hash.\<close>

definition cp_slot :: "Checkpoint \<times> 'v \<Rightarrow> u64 \<times> u64" where
  "cp_slot x = (bucket_start (current_ts_ns (fst x)), from_le_bytes (cp_hash (fst x)))"

definition agg_holds :: "(u64 \<times> u64) list \<Rightarrow> DsmAggregator \<Rightarrow> bool" where
  "agg_holds slots agg \<longleftrightarrow> dom (buckets agg) = fst ` set slots
     \<and> (\<forall>start b. buckets agg start = Some b \<longrightarrow> dom b = {h. (start, h) \<in> set slots}
          \<and> (\<forall>h p. b h = Some p \<longrightarrow> point_holds h (count_list slots (start, h)) p))"

lemma agg_add_holds:
  assumes "agg_holds slots agg" and "point_accepts fl (cp, sz)"
  shows "\<exists>agg'. agg_add fl cp sz agg = Some agg' \<and> agg_holds (cp_slot (cp, sz) # slots) agg'"
proof -
  define start where "start = bucket_start (current_ts_ns cp)"
  define hash where "hash = from_le_bytes (cp_hash cp)"
  define bucket where "bucket = (case buckets agg start of Some b \<Rightarrow> b | None \<Rightarrow> Map.empty)"
  define point where "point = (case bucket hash of Some p \<Rightarrow> p
    | None \<Rightarrow> StatsPoint_new hash (from_le_bytes (cp_parent_hash cp)) (cp_edge_tags cp))"
  have dom_bucket: "dom bucket = {h. (start, h) \<in> set slots}"
    and bucket: "bucket h = Some p \<Longrightarrow> point_holds h (count_list slots (start, h)) p" for h p
    using assms(1) by (force simp: bucket_def agg_holds_def split: option.splits)+
  have "point_holds hash (count_list slots (start, hash)) point"
  proof (cases "bucket hash")
    case None
    with dom_bucket have "(start, hash) \<notin> set slots" by blast
    with None show ?thesis
      by (simp add: point_def StatsPoint_new_def point_holds_def sketch_holds_new count_notin)
  qed (simp add: point_def bucket)
  from StatsPoint_add_holds [OF this assms(2)] obtain p' where
    p': "StatsPoint_add fl (edge_latency_ns cp) (pathway_latency_ns cp) sz point = Some p'"
    "point_holds hash (Suc (count_list slots (start, hash))) p'" by blast
  define agg' where "agg' = agg\<lparr>buckets := (buckets agg)(start \<mapsto> bucket(hash \<mapsto> p'))\<rparr>"
  have "agg_add fl cp sz agg = Some agg'"
    unfolding agg_add_def Let_def start_def [symmetric] hash_def [symmetric] bucket_def [symmetric]
      point_def [symmetric] agg'_def by (simp add: p'(1))
  moreover have "agg_holds ((start, hash) # slots) agg'"
    using assms(1) p'(2) dom_bucket bucket by (auto simp: agg_holds_def agg'_def)
  ultimately show ?thesis by (simp add: cp_slot_def start_def hash_def)
qed

lemma agg_add_all_holds:
  assumes "agg_holds slots agg" and "\<forall>x \<in> set cps. point_accepts fl x"
  shows "\<exists>agg'. agg_add_all fl cps agg = Some agg' \<and> agg_holds (rev (map cp_slot cps) @ slots) agg'"
  using assms
proof (induction cps arbitrary: slots agg)
  case (Cons x cps)
  obtain cp sz where x: "x = (cp, sz)" by (cases x)
  from Cons.prems x have "point_accepts fl (cp, sz)" by simp
  from agg_add_holds [OF Cons.prems(1) this] obtain agg1 where
    1: "agg_add fl cp sz agg = Some agg1" "agg_holds (cp_slot (cp, sz) # slots) agg1" by blast
  from Cons.IH [OF 1(2)] Cons.prems(2) 1(1) x show ?case by simp
qed simp

text \<open>What a payload lists: one time bucket and pathway hash per point.\<close>

definition payload_slots :: "StatsPayloadSer \<Rightarrow> (u64 \<times> u64) list" where
  "payload_slots pl =
     concat (map (\<lambda>b. map (\<lambda>p. (ser_start b, ser_hash p)) (ser_points b)) (ser_stats pl))"

definition enumerates :: "(u64 set \<Rightarrow> u64 list) \<Rightarrow> bool" where
  "enumerates ord \<longleftrightarrow> (\<forall>S. finite S \<longrightarrow> distinct (ord S) \<and> set (ord S) = S)"

lemma agg_holds_point:
  assumes "agg_holds slots agg" and "buckets agg start = Some b" and "b hash = Some p"
  shows "point_holds hash (count_list slots (start, hash)) p"
  using assms unfolding agg_holds_def by (elim conjE allE impE) assumption+

lemma agg_holds_dom:
  assumes "agg_holds slots agg"
  shows "dom (buckets agg) = fst ` set slots"
    and "start \<in> fst ` set slots \<Longrightarrow> dom (the (buckets agg start)) = {h. (start, h) \<in> set slots}"
proof -
  show dom: "dom (buckets agg) = fst ` set slots"
    using assms unfolding agg_holds_def by (elim conjE)
  assume "start \<in> fst ` set slots"
  then obtain b where "buckets agg start = Some b" unfolding dom [symmetric] by blast
  with assms show "dom (the (buckets agg start)) = {h. (start, h) \<in> set slots}"
    by (simp add: agg_holds_def)
qed

lemma agg_holds_hash:
  assumes "agg_holds slots agg" and "start \<in> fst ` set slots" and "(start, h) \<in> set slots"
  shows "sp_hash (the (the (buckets agg start) h)) = h"
proof -
  from assms(2) obtain b where b: "buckets agg start = Some b"
    unfolding agg_holds_dom(1) [OF assms(1), symmetric] by blast
  with agg_holds_dom(2) [OF assms(1,2)] assms(3) have "h \<in> dom b" by simp
  then obtain p where p: "b h = Some p" by blast
  from agg_holds_point [OF assms(1) b p] b p show ?thesis by (simp add: point_holds_def)
qed

lemma payload_slots_of:
  assumes "agg_holds slots agg" and "enumerates ord_b" and "\<And>start. enumerates (ord_p start)"
  shows "distinct (payload_slots (payload_ser fl ord_b ord_p agg))"
    and "set (payload_slots (payload_ser fl ord_b ord_p agg)) = set slots"
proof -
  define starts where "starts = ord_b (dom (buckets agg))"
  define points where "points = (\<lambda>start. ord_p start (dom (the (buckets agg start))))"
  have fin: "finite {h. (start, h) \<in> set slots}" for start
    by (rule finite_subset [of _ "snd ` set slots"]) force+
  have starts: "distinct starts" "set starts = fst ` set slots"
    using assms(2) by (simp_all add: starts_def enumerates_def agg_holds_dom(1) [OF assms(1)])
  have points: "distinct (points start)" "set (points start) = {h. (start, h) \<in> set slots}"
    if "start \<in> fst ` set slots" for start
    using assms(3) [of start] fin that
    by (simp_all add: points_def enumerates_def agg_holds_dom(2) [OF assms(1)])
  have "sp_hash (the (the (buckets agg start) h)) = h"
    if "start \<in> set starts" "h \<in> set (points start)" for start h
    using that starts points agg_holds_hash [OF assms(1)] by simp
  then have "concat (map (\<lambda>start. map (\<lambda>h. (start, sp_hash (the (the (buckets agg start) h)))) (points start)) starts)
      = concat (map (\<lambda>start. map (Pair start) (points start)) starts)"
    by (intro arg_cong [where f = concat] map_cong refl) simp
  then have "payload_slots (payload_ser fl ord_b ord_p agg)
      = concat (map (\<lambda>start. map (Pair start) (points start)) starts)"
    by (simp add: payload_slots_def payload_ser_def bucket_ser_def point_ser_def comp_def starts_def points_def)
  moreover have "distinct (concat (map (\<lambda>start. map (Pair start) (points start)) starts))"
    using starts(1) points(1) unfolding starts(2) [symmetric]
    by (induction starts) (auto simp: distinct_map inj_on_def)
  moreover have "set (concat (map (\<lambda>start. map (Pair start) (points start)) starts)) = set slots"
  proof -
    have "(\<Union>start \<in> fst ` set slots. Pair start ` {h. (start, h) \<in> set slots}) = set slots" by force
    then show ?thesis by (simp add: starts(2) points(2))
  qed
  ultimately show "distinct (payload_slots (payload_ser fl ord_b ord_p agg))"
    and "set (payload_slots (payload_ser fl ord_b ord_p agg)) = set slots"
    by simp_all
qed


definition sample_floats :: "int Floats" where
  "sample_floats = \<lparr>in_seconds = (\<lambda>ns. uint ns div 1000000000), sign_of = (\<lambda>v. if v > 0 then Above else Near_zero),
     key_of = (\<lambda>v. if v < 100 then v else 100), le_bytes = (\<lambda>n. replicate 8 (of_nat n)),
     gamma_bytes = replicate 8 0\<rparr>"

definition sample_checkpoint :: "u64 \<Rightarrow> Checkpoint" where
  "sample_checkpoint now_ns =
     compute_consume_checkpoint (\<lambda>b. b @ replicate 8 0) ''svc'' ''prod'' [''direction:in''] None now_ns None"

lemma sample_floats_accepts: "accepts sample_floats v"
  by (simp add: accepts_def sample_floats_def key_ok_def)


text \<open>
  Draining hands what was recorded to the proxy once: afterwards the aggregator is empty, at most
  one request was appended and none was removed, a second drain does nothing, and the request carries
  the compressed payload to the pipeline stats route. When the payload cannot be serialised or
  compressed, the recorded statistics are dropped.
\<close>

theorem dsm_drain_once:
  "dsm_is_empty (dp_aggregator (fst (drain_into_proxy fl ord_b ord_p to_vec_named gzip p pa)))
    \<and> pa_queue (snd (drain_into_proxy fl ord_b ord_p to_vec_named gzip p pa)) = pa_queue pa @
        (if dsm_is_empty (dp_aggregator p) then []
         else case Option.bind (to_vec_named (payload_ser fl ord_b ord_p (dp_aggregator p))) gzip of
           None \<Rightarrow> []
         | Some body \<Rightarrow> [\<lparr>pr_headers = [(''content-type'', ''application/msgpack''), (''content-encoding'', ''gzip'')],
             pr_body = body, target_url = dp_target_url p\<rparr>])
    \<and> drain_into_proxy fl ord_b ord_p to_vec_named gzip
        (fst (drain_into_proxy fl ord_b ord_p to_vec_named gzip p pa)) pa2
      = (fst (drain_into_proxy fl ord_b ord_p to_vec_named gzip p pa), pa2)"
  by (simp add: drain_into_proxy_def take_payload_def dsm_is_empty_def pa_add_def Let_def
      split: option.splits bind_splits)

end
