(* ===== verification/Spans.thy ===== *)
theory Spans
  imports Json
begin

text \<open>
  Spans and what is inferred about an invocation from its event:
  \<open>bottlecap/src/lifecycle/invocation/mod.rs\<close> (empty spans, tags from a JSON value) and
  \<open>span_inferrer.rs\<close>. A \<open>Span\<close> is the protobuf message of the trace protocol with the fields the
  sources read or write; the type of its metrics (\<open>f64\<close>) is a type parameter. A trigger
  (\<open>dyn Trigger\<close>) is the record of its methods.
\<close>

section \<open>Spans\<close>

type_synonym tags = "string \<rightharpoonup> string"

record 'f Span =
  s_service :: string
  s_name :: string
  s_resource :: string
  s_trace_id :: u64
  s_span_id :: u64
  s_parent_id :: u64
  s_start :: int
  s_duration :: int
  s_error :: int
  s_meta :: tags
  s_metrics :: "string \<rightharpoonup> 'f"
  s_type :: string
  s_meta_struct :: "string \<rightharpoonup> bytes"

definition Span_default :: "'f Span" where
  "Span_default = \<lparr>s_service = [], s_name = [], s_resource = [], s_trace_id = 0, s_span_id = 0, s_parent_id = 0,
     s_start = 0, s_duration = 0, s_error = 0, s_meta = Map.empty, s_metrics = Map.empty, s_type = [],
     s_meta_struct = Map.empty\<rparr>"

definition meta_insert :: "string \<Rightarrow> string \<Rightarrow> 'f Span \<Rightarrow> 'f Span" where
  "meta_insert k v s = s\<lparr>s_meta := (s_meta s)(k \<mapsto> v)\<rparr>"

definition meta_extend :: "tags \<Rightarrow> 'f Span \<Rightarrow> 'f Span" where
  "meta_extend m s = s\<lparr>s_meta := s_meta s ++ m\<rparr>"

definition create_empty_span :: "string \<Rightarrow> string \<Rightarrow> string \<Rightarrow> 'f Span" where
  "create_empty_span name resource service =
     meta_insert ''span.kind'' ''server''
       (Span_default\<lparr>s_name := name, s_resource := resource, s_service := service, s_type := ''serverless''\<rparr>)"

record SpanContext =
  sc_trace_id :: "128 word"
  sc_span_id :: u64
  sc_tags :: tags

section \<open>Tags from a JSON value\<close>

definition MAX_TAG_CHARS :: nat where
  "MAX_TAG_CHARS = 4096"

definition REDACTABLE_KEYS :: "string list" where
  "REDACTABLE_KEYS = [''password'', ''passwd'', ''pwd'', ''secret'', ''token'', ''authorization'',
     ''x-authorization'', ''api_key'']"

text \<open>\<open>s.chars().take(n)\<close> on text kept as its UTF-8 bytes: a continuation byte belongs to its character.\<close>

definition is_utf8_cont :: "char \<Rightarrow> bool" where
  "is_utf8_cont c \<longleftrightarrow> of_char c div 64 = (2 :: nat)"

fun take_chars :: "nat \<Rightarrow> string \<Rightarrow> string" where
  "take_chars n [] = []"
| "take_chars n (c # cs) =
     (if is_utf8_cont c then c # take_chars n cs
      else case n of 0 \<Rightarrow> [] | Suc m \<Rightarrow> c # take_chars m cs)"

definition last_segment :: "string \<Rightarrow> string" where
  "last_segment key = rev (takeWhile (\<lambda>c. c \<noteq> CHR ''.'') (rev key))"

definition redact_value :: "string \<Rightarrow> string \<Rightarrow> string" where
  "redact_value key v = (if last_segment key \<in> set REDACTABLE_KEYS then ''redacted'' else v)"

text \<open>
  The serialisation of a value cannot fail. \<open>parse\<close> is \<open>serde_json::from_str\<close> and \<open>print\<close> is
  \<open>serde_json::to_string\<close>.
\<close>

definition bool_str :: "bool \<Rightarrow> string" where
  "bool_str b = (if b then ''true'' else ''false'')"

function get_metadata_from_value ::
    "(string \<Rightarrow> json option) \<Rightarrow> (json \<Rightarrow> string) \<Rightarrow> string \<Rightarrow> json \<Rightarrow> nat \<Rightarrow> nat \<Rightarrow> tags" where
  "get_metadata_from_value parse print key v depth max_depth =
     (if v = JNull then [key \<mapsto> ''null'']
      else if depth \<ge> max_depth then [key \<mapsto> take_chars MAX_TAG_CHARS (print v)]
      else case v of
        JString s \<Rightarrow>
          (case parse s of
             Some p \<Rightarrow> get_metadata_from_value parse print key p (depth + 1) max_depth
           | None \<Rightarrow> [key \<mapsto> redact_value key (take_chars MAX_TAG_CHARS s)])
      | JNumber n \<Rightarrow> [key \<mapsto> n]
      | JBool b \<Rightarrow> [key \<mapsto> bool_str b]
      | JObject obj \<Rightarrow>
          fold (\<lambda>(k, w) m. m ++ get_metadata_from_value parse print (key @ ''.'' @ k) w (depth + 1) max_depth)
            obj Map.empty
      | JArray a \<Rightarrow>
          (if a = [] then [key \<mapsto> ''[]'']
           else fold (\<lambda>(i, w) m. m ++ get_metadata_from_value parse print (key @ ''.'' @ nat_str i) w (depth + 1) max_depth)
                  (enumerate 0 a) Map.empty)
      | JNull \<Rightarrow> Map.empty)"
  by pat_completeness auto
termination
  by (relation "measure (\<lambda>(parse, print, key, v, depth, max_depth). max_depth - depth)") auto

declare get_metadata_from_value.simps [simp del]

section \<open>Inferred spans\<close>

record 'p DsmCheckpointInput =
  dci_edge_tags :: "string list"
  dci_carrier :: tags
  dci_payload_size_bytes :: 'p

record 'f Trigger =
  enrich_span :: "tags \<Rightarrow> bool \<Rightarrow> 'f Span \<Rightarrow> 'f Span"
  get_tags :: tags
  get_arn :: "string \<Rightarrow> string"
  get_carrier :: tags
  is_async :: bool
  get_specific_identifier :: string
  get_generic_identifier :: string
  get_dd_resource_key :: "string \<Rightarrow> string option"
  get_dsm_checkpoints :: "json \<Rightarrow> 'f DsmCheckpointInput list"

text \<open>
  The identified triggers, each with its methods and with the parts of its event that the span inferrer
  itself reads: the body and the trace header of an SQS record, the message of an SNS record, the span
  pointers of S3 and DynamoDB records and the generated context of a Step Functions event.
\<close>

datatype ('f, 'ptr) IdentifiedTrigger =
    APIGatewayHttpEvent "'f Trigger"
  | APIGatewayRestEvent "'f Trigger"
  | APIGatewayWebSocketEvent "'f Trigger"
  | ALBEvent "'f Trigger"
  | LambdaFunctionUrlEvent "'f Trigger"
  | MSKEvent "'f Trigger"
  | SqsRecord "'f Trigger" string "string option"
  | SnsRecord "'f Trigger" "string option"
  | DynamoDbRecord "'f Trigger" "'ptr list option"
  | S3Record "'f Trigger" "'ptr list option"
  | EventBridgeEvent "'f Trigger"
  | KinesisRecord "'f Trigger"
  | StepFunctionEvent "'f Trigger" SpanContext
  | UnknownTrigger

record ('f, 'ptr) InferredSpanData =
  inferred_span :: "'f Span option"
  wrapped_inferred_span :: "'f Span option"
  is_async_span :: bool
  generated_span_context :: "SpanContext option"
  trigger_tags :: "tags option"
  span_pointers :: "'ptr list option"

definition InferredSpanData_default :: "('f, 'ptr) InferredSpanData" where
  "InferredSpanData_default = \<lparr>inferred_span = None, wrapped_inferred_span = None, is_async_span = False,
     generated_span_context = None, trigger_tags = None, span_pointers = None\<rparr>"

definition set_parent_id :: "u64 \<Rightarrow> ('f, 'ptr) InferredSpanData \<Rightarrow> ('f, 'ptr) InferredSpanData" where
  "set_parent_id parent_id d = d\<lparr>inferred_span := map_option (\<lambda>s. s\<lparr>s_parent_id := parent_id\<rparr>) (inferred_span d)\<rparr>"

definition extend_meta :: "tags \<Rightarrow> ('f, 'ptr) InferredSpanData \<Rightarrow> ('f, 'ptr) InferredSpanData" where
  "extend_meta m d = d\<lparr>inferred_span := map_option (meta_extend m) (inferred_span d)\<rparr>"

definition set_status_code :: "string \<Rightarrow> ('f, 'ptr) InferredSpanData \<Rightarrow> ('f, 'ptr) InferredSpanData" where
  "set_status_code status_code d =
     d\<lparr>inferred_span := map_option (meta_insert ''http.status_code'' status_code) (inferred_span d)\<rparr>"

definition get_trigger_tags :: "('f, 'ptr) InferredSpanData \<Rightarrow> tags option" where
  "get_trigger_tags d = trigger_tags d"

fun get_trigger_type :: "('f, 'ptr) IdentifiedTrigger \<Rightarrow> 'f Trigger option" where
  "get_trigger_type (APIGatewayHttpEvent t) = Some t"
| "get_trigger_type (APIGatewayRestEvent t) = Some t"
| "get_trigger_type (APIGatewayWebSocketEvent t) = Some t"
| "get_trigger_type (ALBEvent t) = Some t"
| "get_trigger_type (LambdaFunctionUrlEvent t) = Some t"
| "get_trigger_type (MSKEvent t) = Some t"
| "get_trigger_type (SqsRecord t body trace_header) = Some t"
| "get_trigger_type (SnsRecord t message) = Some t"
| "get_trigger_type (DynamoDbRecord t ptrs) = Some t"
| "get_trigger_type (S3Record t ptrs) = Some t"
| "get_trigger_type (EventBridgeEvent t) = Some t"
| "get_trigger_type (KinesisRecord t) = Some t"
| "get_trigger_type (StepFunctionEvent t sc) = Some t"
| "get_trigger_type UnknownTrigger = None"

fun should_enrich_span :: "('f, 'ptr) IdentifiedTrigger \<Rightarrow> bool" where
  "should_enrich_span (ALBEvent t) = False"
| "should_enrich_span (StepFunctionEvent t sc) = False"
| "should_enrich_span UnknownTrigger = False"
| "should_enrich_span _ = True"

fun get_span_pointers :: "('f, 'ptr) IdentifiedTrigger \<Rightarrow> 'ptr list option" where
  "get_span_pointers (DynamoDbRecord t ptrs) = ptrs"
| "get_span_pointers (S3Record t ptrs) = ptrs"
| "get_span_pointers _ = None"

fun extract_generated_span_context ::
    "(string option \<Rightarrow> SpanContext option) \<Rightarrow> ('f, 'ptr) IdentifiedTrigger \<Rightarrow> SpanContext option" where
  "extract_generated_span_context aws_header (StepFunctionEvent t sc) = Some sc"
| "extract_generated_span_context aws_header (SqsRecord t body trace_header) = aws_header trace_header"
| "extract_generated_span_context aws_header _ = None"

definition should_skip_inferred_span ::
    "(string option \<Rightarrow> SpanContext option) \<Rightarrow> ('f, 'ptr) IdentifiedTrigger \<Rightarrow> bool" where
  "should_skip_inferred_span aws_header trigger =
     (case trigger of
        ALBEvent t \<Rightarrow> True
      | StepFunctionEvent t sc \<Rightarrow> extract_generated_span_context aws_header trigger \<noteq> None
      | _ \<Rightarrow> False)"

text \<open>
  The settings of the extension the inferrer reads, and the deserialisers it calls on nested events:
  the trigger of an SNS entity (with no subscription ARN) and of an EventBridge event.
\<close>

record ('f, 'ptr) InferEnv =
  service_mapping :: tags
  trace_aws_service_representation_enabled :: bool
  trace_remove_integration_service_names_enabled :: bool
  conf_service :: "string option"
  serverless_appsec_enabled :: bool
  to_lowercase :: "string \<Rightarrow> string"
  region :: string
  from_value :: "json \<Rightarrow> ('f, 'ptr) IdentifiedTrigger"
  sns_of_text :: "string \<Rightarrow> 'f Trigger option"
  event_bridge_of_text :: "string \<Rightarrow> 'f Trigger option"
  aws_trace_header :: "string option \<Rightarrow> SpanContext option"
  f_one :: 'f

definition has_service_mapping_entry :: "'f Trigger \<Rightarrow> tags \<Rightarrow> bool" where
  "has_service_mapping_entry t mapping \<longleftrightarrow>
     mapping (get_specific_identifier t) \<noteq> None \<or> mapping (get_generic_identifier t) \<noteq> None"

definition get_default_service_name :: "string \<Rightarrow> string \<Rightarrow> bool \<Rightarrow> string" where
  "get_default_service_name instance_name fallback aws_service_representation_enabled =
     (if \<not> aws_service_representation_enabled then fallback else instance_name)"

definition resolve_service_name :: "'f Trigger \<Rightarrow> tags \<Rightarrow> string \<Rightarrow> string \<Rightarrow> bool \<Rightarrow> string" where
  "resolve_service_name t mapping instance_name fallback enabled =
     (case mapping (get_specific_identifier t) of
        Some s \<Rightarrow> s
      | None \<Rightarrow>
          (case mapping (get_generic_identifier t) of
             Some s \<Rightarrow> s
           | None \<Rightarrow> get_default_service_name instance_name fallback enabled))"

definition apply_base_service_override :: "('f, 'ptr) InferEnv \<Rightarrow> 'f Trigger \<Rightarrow> 'f Span \<Rightarrow> 'f Span" where
  "apply_base_service_override env t span =
     (if \<not> trace_remove_integration_service_names_enabled env then span
      else case conf_service env of
        None \<Rightarrow> span
      | Some service \<Rightarrow>
          (if service = [] \<or> has_service_mapping_entry t (service_mapping env) then span
           else span\<lparr>s_service := to_lowercase env service\<rparr>))"

definition wrapped_span :: "('f, 'ptr) InferEnv \<Rightarrow> u64 \<Rightarrow> 'f Trigger \<Rightarrow> 'f Span \<Rightarrow> 'f Span \<times> 'f Span" where
  "wrapped_span env span_id t inferred =
     (let ws = enrich_span t (service_mapping env) (trace_aws_service_representation_enabled env)
                 (Span_default\<lparr>s_span_id := span_id\<rparr>);
          ws = apply_base_service_override env t ws;
          inferred = meta_extend (get_tags t) inferred;
          ws = ws\<lparr>s_duration := i64_sub (s_start inferred) (s_start ws)\<rparr>;
          ws = meta_insert ''_inferred_span.tag_source'' ''self'' ws;
          ws = meta_insert ''_inferred_span.synchronicity'' ''async'' ws
      in (ws, inferred))"

definition get_wrapped_inferred_span ::
    "('f, 'ptr) InferEnv \<Rightarrow> u64 \<Rightarrow> ('f, 'ptr) IdentifiedTrigger \<Rightarrow> 'f Span \<Rightarrow> 'f Span option \<times> 'f Span" where
  "get_wrapped_inferred_span env span_id trigger inferred =
     (let wrap = (\<lambda>t. map_prod Some id (wrapped_span env span_id t inferred))
      in case trigger of
        SqsRecord t body trace_header \<Rightarrow>
          (case sns_of_text env body of
             Some wt \<Rightarrow> wrap wt
           | None \<Rightarrow>
               (case event_bridge_of_text env body of
                  Some wt \<Rightarrow> wrap wt
                | None \<Rightarrow> (None, inferred)))
      | SnsRecord t message \<Rightarrow>
          (case Option.bind message (event_bridge_of_text env) of
             Some wt \<Rightarrow> wrap wt
           | None \<Rightarrow> (None, inferred))
      | _ \<Rightarrow> (None, inferred))"

definition FUNCTION_TRIGGER_EVENT_SOURCE_ARN_TAG :: string where
  "FUNCTION_TRIGGER_EVENT_SOURCE_ARN_TAG = ''function_trigger.event_source_arn''"

text \<open>The two span ids the inferrer may generate are arguments.\<close>

definition infer_span :: "('f, 'ptr) InferEnv \<Rightarrow> u64 \<Rightarrow> u64 \<Rightarrow> json \<Rightarrow> ('f, 'ptr) InferredSpanData" where
  "infer_span env id1 id2 payload =
     (let identified = from_value env payload;
          (wrapped, inferred) = get_wrapped_inferred_span env id2 identified (Span_default\<lparr>s_span_id := id1\<rparr>)
      in case get_trigger_type identified of
           None \<Rightarrow> InferredSpanData_default
         | Some t \<Rightarrow>
             (let inferred =
                    (if should_enrich_span identified
                     then apply_base_service_override env t
                            (enrich_span t (service_mapping env) (trace_aws_service_representation_enabled env) inferred)
                     else inferred);
                  inferred =
                    (case get_dd_resource_key t (region env) of
                       Some key \<Rightarrow> meta_insert ''dd_resource_key'' key inferred
                     | None \<Rightarrow> inferred);
                  data = InferredSpanData_default
                    \<lparr>wrapped_inferred_span := wrapped,
                     span_pointers := get_span_pointers identified,
                     trigger_tags := Some ((get_tags t)(FUNCTION_TRIGGER_EVENT_SOURCE_ARN_TAG \<mapsto> get_arn t (region env))),
                     is_async_span := is_async t\<rparr>
              in if should_skip_inferred_span (aws_trace_header env) identified then data
                 else data\<lparr>inferred_span := Some
                   (meta_insert ''_inferred_span.synchronicity'' (if is_async t then ''async'' else ''sync'')
                     (meta_insert ''_inferred_span.tag_source'' ''self'' inferred))\<rparr>))"

definition propagate_appsec :: "('f, 'ptr) InferEnv \<Rightarrow> 'f Span \<Rightarrow> 'f Span \<Rightarrow> 'f Span" where
  "propagate_appsec env invocation_span target =
     (let has_appsec = (case s_metrics invocation_span ''_dd.appsec.enabled'' of
            Some e \<Rightarrow> Some e
          | None \<Rightarrow> if serverless_appsec_enabled env then Some (f_one env) else None);
          target = (case has_appsec of
              Some e \<Rightarrow> target\<lparr>s_metrics := (s_metrics target)(''_dd.appsec.enabled'' \<mapsto> e)\<rparr>
            | None \<Rightarrow> target)
      in case s_meta invocation_span ''_dd.appsec.json'' of
           Some j \<Rightarrow> meta_insert ''_dd.appsec.json'' j target
         | None \<Rightarrow> target)"

definition complete_wrapped :: "('f, 'ptr) InferEnv \<Rightarrow> bool \<Rightarrow> 'f Span \<Rightarrow> 'f Span \<Rightarrow> 'f Span \<Rightarrow> 'f Span" where
  "complete_wrapped env async invocation_span s ws =
     (let ws = ws\<lparr>s_trace_id := s_trace_id invocation_span, s_error := s_error invocation_span\<rparr>;
          ws = meta_insert ''peer.service'' (s_service s) ws;
          ws = propagate_appsec env invocation_span ws;
          ws = ws\<lparr>s_parent_id := s_parent_id s\<rparr>
      in if async \<and> s_duration ws \<noteq> 0 then ws
         else ws\<lparr>s_duration := i64_sub (s_start s) (s_start ws)\<rparr>)"

definition complete_inferred_spans ::
    "('f, 'ptr) InferEnv \<Rightarrow> 'f Span \<Rightarrow> ('f, 'ptr) InferredSpanData \<Rightarrow> ('f, 'ptr) InferredSpanData" where
  "complete_inferred_spans env invocation_span data =
     (case inferred_span data of
        None \<Rightarrow> data
      | Some s \<Rightarrow>
          (let s = s\<lparr>s_trace_id := s_trace_id invocation_span, s_error := s_error invocation_span\<rparr>;
               s = meta_insert ''peer.service'' (s_service invocation_span) s;
               s = meta_insert ''span.kind'' ''server'' s;
               s = propagate_appsec env invocation_span s;
               (s, wrapped) = (case wrapped_inferred_span data of
                   None \<Rightarrow> (s, None)
                 | Some ws \<Rightarrow>
                     (s\<lparr>s_parent_id := s_span_id ws\<rparr>,
                      Some (complete_wrapped env (is_async_span data) invocation_span s ws)));
               s = (if is_async_span data
                    then (if s_duration s = 0 then s\<lparr>s_duration := i64_sub (s_start invocation_span) (s_start s)\<rparr> else s)
                    else s\<lparr>s_duration :=
                           i64_sub (i64_add (s_start invocation_span) (s_duration invocation_span)) (s_start s)\<rparr>)
           in data\<lparr>inferred_span := Some s, wrapped_inferred_span := wrapped\<rparr>))"

text \<open>\<open>propagate\<close> is the extraction of a trace context from a carrier by the propagator.\<close>

definition extract_payload_span_context ::
    "('f, 'ptr) InferEnv \<Rightarrow> (tags \<Rightarrow> SpanContext option) \<Rightarrow> json \<Rightarrow> SpanContext option" where
  "extract_payload_span_context env propagate payload =
     (let identified = from_value env payload;
          generated = extract_generated_span_context (aws_trace_header env) identified
      in case get_trigger_type identified of
           None \<Rightarrow> None
         | Some t \<Rightarrow>
             (case propagate (get_carrier t) of
                Some sc \<Rightarrow> Some sc
              | None \<Rightarrow> generated))"

end
