(* ===== verification/ContextBuffer.thy ===== *)
theory ContextBuffer
  imports Spans
begin

text \<open>
  The buffer of invocation contexts, \<open>bottlecap/src/lifecycle/invocation/context.rs\<close>. A \<open>VecDeque\<close> is
  a list with its front first; the capacity it was created with is kept in the record, because
  \<open>insert\<close> compares the length with it. The time a context is created is an argument of the operation
  that creates it. A mutable reference obtained by \<open>find\<close> is an update of the first match.
\<close>

section \<open>State\<close>

record ('f, 'ptr, 'md) Context =
  created_at :: int
  request_id :: string
  runtime_duration_ms :: 'f
  enhanced_metric_data :: "'md option"
  invocation_span :: "'f Span"
  runtime_done_received :: bool
  tracer_span :: "'f Span option"
  cold_start_span :: "'f Span option"
  snapstart_restore_span :: "'f Span option"
  extracted_span_context :: "SpanContext option"
  oom_emitted :: bool
  client_computed_stats :: bool
  inferred :: "('f, 'ptr) InferredSpanData"

record ReparentingInfo =
  ri_request_id :: string
  invocation_span_id :: u64
  parent_id_to_reparent :: u64
  guessed_trace_id :: u64
  needs_trace_id :: bool

definition Context_default :: "'f \<Rightarrow> int \<Rightarrow> ('f, 'ptr, 'md) Context" where
  "Context_default f0 now =
     \<lparr>created_at = now, request_id = [], runtime_duration_ms = f0, enhanced_metric_data = None,
      invocation_span = Span_default, runtime_done_received = False, tracer_span = None,
      cold_start_span = None, snapstart_restore_span = None, extracted_span_context = None,
      oom_emitted = False, client_computed_stats = False, inferred = InferredSpanData_default\<rparr>"

definition from_request_id :: "'f \<Rightarrow> int \<Rightarrow> string \<Rightarrow> ('f, 'ptr, 'md) Context" where
  "from_request_id f0 now rid = (Context_default f0 now)\<lparr>request_id := rid\<rparr>"

text \<open>The headers and the payload of one call of the tracer.\<close>

type_synonym instrumentation = "tags \<times> json"

record ('f, 'ptr, 'md) ContextBuffer =
  buffer :: "('f, 'ptr, 'md) Context list"
  buffer_capacity :: nat
  invoke_events_request_ids :: "string list"
  platform_runtime_done_events_request_ids :: "string list"
  universal_instrumentation_start_events :: "instrumentation list"
  universal_instrumentation_end_events :: "instrumentation list"
  universal_instrumentation_start_events_with_id :: "string \<rightharpoonup> instrumentation"
  universal_instrumentation_end_events_with_id :: "string \<rightharpoonup> instrumentation"
  sorted_reparenting_info :: "ReparentingInfo list"

definition with_capacity :: "nat \<Rightarrow> ('f, 'ptr, 'md) ContextBuffer" where
  "with_capacity capacity =
     \<lparr>buffer = [], buffer_capacity = capacity, invoke_events_request_ids = [],
      platform_runtime_done_events_request_ids = [], universal_instrumentation_start_events = [],
      universal_instrumentation_end_events = [], universal_instrumentation_start_events_with_id = Map.empty,
      universal_instrumentation_end_events_with_id = Map.empty, sorted_reparenting_info = []\<rparr>"

definition ContextBuffer_default :: "('f, 'ptr, 'md) ContextBuffer" where
  "ContextBuffer_default = with_capacity 500"

section \<open>Contexts\<close>

text \<open>The first element that satisfies a predicate, removed or updated in place.\<close>

fun remove_first :: "('a \<Rightarrow> bool) \<Rightarrow> 'a list \<Rightarrow> 'a list" where
  "remove_first P [] = []"
| "remove_first P (x # xs) = (if P x then xs else x # remove_first P xs)"

fun update_first :: "('a \<Rightarrow> bool) \<Rightarrow> ('a \<Rightarrow> 'a) \<Rightarrow> 'a list \<Rightarrow> 'a list" where
  "update_first P f [] = []"
| "update_first P f (x # xs) = (if P x then f x # xs else x # update_first P f xs)"

abbreviation for_request :: "string \<Rightarrow> ('f, 'ptr, 'md) Context \<Rightarrow> bool" where
  "for_request rid c \<equiv> request_id c = rid"

definition cb_get :: "string \<Rightarrow> ('f, 'ptr, 'md) ContextBuffer \<Rightarrow> ('f, 'ptr, 'md) Context option" where
  "cb_get rid cb = List.find (for_request rid) (buffer cb)"

definition cb_update ::
    "string \<Rightarrow> (('f, 'ptr, 'md) Context \<Rightarrow> ('f, 'ptr, 'md) Context) \<Rightarrow> ('f, 'ptr, 'md) ContextBuffer
      \<Rightarrow> ('f, 'ptr, 'md) ContextBuffer" where
  "cb_update rid f cb = cb\<lparr>buffer := update_first (for_request rid) f (buffer cb)\<rparr>"

definition cb_remove :: "string \<Rightarrow> ('f, 'ptr, 'md) ContextBuffer \<Rightarrow> ('f, 'ptr, 'md) ContextBuffer" where
  "cb_remove rid cb = cb\<lparr>buffer := remove_first (for_request rid) (buffer cb)\<rparr>"

definition cb_size :: "('f, 'ptr, 'md) ContextBuffer \<Rightarrow> nat" where
  "cb_size cb = length (buffer cb)"

definition cb_is_empty :: "('f, 'ptr, 'md) ContextBuffer \<Rightarrow> bool" where
  "cb_is_empty cb \<longleftrightarrow> buffer cb = []"

definition cb_insert ::
    "('f, 'ptr, 'md) Context \<Rightarrow> ('f, 'ptr, 'md) ContextBuffer \<Rightarrow> ('f, 'ptr, 'md) ContextBuffer" where
  "cb_insert c cb =
     (if cb_size cb = buffer_capacity cb then cb\<lparr>buffer := tl (buffer cb) @ [c]\<rparr>
      else
        (let cb = (if cb_get (request_id c) cb \<noteq> None then cb_remove (request_id c) cb else cb)
         in cb\<lparr>buffer := buffer cb @ [c]\<rparr>))"

text \<open>
  \<open>get_closest_mut\<close> keeps the position of the closest context seen so far; \<open>None\<close> when the buffer is
  empty, or when no difference is below \<open>i64::MAX\<close>.
\<close>

fun closest_index :: "int \<Rightarrow> nat \<Rightarrow> nat option \<Rightarrow> int \<Rightarrow> ('f, 'ptr, 'md) Context list \<Rightarrow> nat option" where
  "closest_index timestamp i best min_diff [] = best"
| "closest_index timestamp i best min_diff (c # cs) =
     (let diff = i64_abs (i64_sub (created_at c) timestamp)
      in if diff < min_diff then closest_index timestamp (Suc i) (Some i) diff cs
         else closest_index timestamp (Suc i) best min_diff cs)"

definition get_closest :: "int \<Rightarrow> ('f, 'ptr, 'md) ContextBuffer \<Rightarrow> nat option" where
  "get_closest timestamp cb =
     (if buffer cb = [] then None else closest_index timestamp 0 None I64_MAX (buffer cb))"

definition update_closest ::
    "int \<Rightarrow> (('f, 'ptr, 'md) Context \<Rightarrow> ('f, 'ptr, 'md) Context) \<Rightarrow> ('f, 'ptr, 'md) ContextBuffer
      \<Rightarrow> ('f, 'ptr, 'md) ContextBuffer" where
  "update_closest timestamp f cb =
     (case get_closest timestamp cb of
        None \<Rightarrow> cb
      | Some i \<Rightarrow> cb\<lparr>buffer := (buffer cb)[i := f (buffer cb ! i)]\<rparr>)"

section \<open>Pairing events in order of arrival\<close>

definition pair_invoke_event ::
    "string \<Rightarrow> ('f, 'ptr, 'md) ContextBuffer \<Rightarrow> instrumentation option \<times> ('f, 'ptr, 'md) ContextBuffer" where
  "pair_invoke_event rid cb =
     (case universal_instrumentation_start_events cb of
        e # es \<Rightarrow> (Some e, cb\<lparr>universal_instrumentation_start_events := es\<rparr>)
      | [] \<Rightarrow> (None, cb\<lparr>invoke_events_request_ids := invoke_events_request_ids cb @ [rid]\<rparr>))"

definition pair_universal_instrumentation_start_event ::
    "tags \<Rightarrow> json \<Rightarrow> ('f, 'ptr, 'md) ContextBuffer \<Rightarrow> string option \<times> ('f, 'ptr, 'md) ContextBuffer" where
  "pair_universal_instrumentation_start_event headers payload cb =
     (case invoke_events_request_ids cb of
        rid # rids \<Rightarrow> (Some rid, cb\<lparr>invoke_events_request_ids := rids\<rparr>)
      | [] \<Rightarrow> (None, cb\<lparr>universal_instrumentation_start_events :=
                       universal_instrumentation_start_events cb @ [(headers, payload)]\<rparr>))"

definition pair_universal_instrumentation_end_event ::
    "tags \<Rightarrow> json \<Rightarrow> ('f, 'ptr, 'md) ContextBuffer \<Rightarrow> string option \<times> ('f, 'ptr, 'md) ContextBuffer" where
  "pair_universal_instrumentation_end_event headers payload cb =
     (case platform_runtime_done_events_request_ids cb of
        rid # rids \<Rightarrow> (Some rid, cb\<lparr>platform_runtime_done_events_request_ids := rids\<rparr>)
      | [] \<Rightarrow> (None, cb\<lparr>universal_instrumentation_end_events :=
                       universal_instrumentation_end_events cb @ [(headers, payload)]\<rparr>))"

definition pair_platform_runtime_done_event ::
    "string \<Rightarrow> ('f, 'ptr, 'md) ContextBuffer \<Rightarrow> instrumentation option \<times> ('f, 'ptr, 'md) ContextBuffer" where
  "pair_platform_runtime_done_event rid cb =
     (case universal_instrumentation_end_events cb of
        e # es \<Rightarrow> (Some e, cb\<lparr>universal_instrumentation_end_events := es\<rparr>)
      | [] \<Rightarrow> (None, cb\<lparr>platform_runtime_done_events_request_ids :=
                       platform_runtime_done_events_request_ids cb @ [rid]\<rparr>))"

section \<open>Pairing events by request id\<close>

definition pair_universal_instrumentation_start_with_request_id ::
    "string \<Rightarrow> tags \<Rightarrow> json \<Rightarrow> ('f, 'ptr, 'md) ContextBuffer \<Rightarrow> bool \<times> ('f, 'ptr, 'md) ContextBuffer" where
  "pair_universal_instrumentation_start_with_request_id rid headers payload cb =
     (if rid \<in> set (invoke_events_request_ids cb)
      then (True, cb\<lparr>invoke_events_request_ids := remove1 rid (invoke_events_request_ids cb)\<rparr>)
      else (False, cb\<lparr>universal_instrumentation_start_events_with_id :=
                     (universal_instrumentation_start_events_with_id cb)(rid \<mapsto> (headers, payload))\<rparr>))"

definition take_universal_instrumentation_start_for_request_id ::
    "string \<Rightarrow> ('f, 'ptr, 'md) ContextBuffer \<Rightarrow> instrumentation option \<times> ('f, 'ptr, 'md) ContextBuffer" where
  "take_universal_instrumentation_start_for_request_id rid cb =
     (universal_instrumentation_start_events_with_id cb rid,
      cb\<lparr>universal_instrumentation_start_events_with_id :=
         (universal_instrumentation_start_events_with_id cb)(rid := None)\<rparr>)"

definition pair_universal_instrumentation_end_with_request_id ::
    "string \<Rightarrow> tags \<Rightarrow> json \<Rightarrow> ('f, 'ptr, 'md) ContextBuffer \<Rightarrow> bool \<times> ('f, 'ptr, 'md) ContextBuffer" where
  "pair_universal_instrumentation_end_with_request_id rid headers payload cb =
     (if rid \<in> set (platform_runtime_done_events_request_ids cb)
      then (True, cb\<lparr>platform_runtime_done_events_request_ids :=
                     remove1 rid (platform_runtime_done_events_request_ids cb)\<rparr>)
      else (False, cb\<lparr>universal_instrumentation_end_events_with_id :=
                     (universal_instrumentation_end_events_with_id cb)(rid \<mapsto> (headers, payload))\<rparr>))"

definition take_universal_instrumentation_end_for_request_id ::
    "string \<Rightarrow> ('f, 'ptr, 'md) ContextBuffer \<Rightarrow> instrumentation option \<times> ('f, 'ptr, 'md) ContextBuffer" where
  "take_universal_instrumentation_end_for_request_id rid cb =
     (universal_instrumentation_end_events_with_id cb rid,
      cb\<lparr>universal_instrumentation_end_events_with_id :=
         (universal_instrumentation_end_events_with_id cb)(rid := None)\<rparr>)"

section \<open>Updates of a context\<close>

definition start_context ::
    "'f \<Rightarrow> int \<Rightarrow> string \<Rightarrow> 'f Span \<Rightarrow> ('f, 'ptr, 'md) ContextBuffer \<Rightarrow> ('f, 'ptr, 'md) ContextBuffer" where
  "start_context f0 now rid span cb =
     cb_insert ((from_request_id f0 now rid)\<lparr>invocation_span := meta_insert ''request_id'' rid span\<rparr>) cb"

definition update_empty_context_request_id ::
    "string \<Rightarrow> ('f, 'ptr, 'md) ContextBuffer \<Rightarrow> bool \<times> ('f, 'ptr, 'md) ContextBuffer" where
  "update_empty_context_request_id rid cb =
     (if cb_get [] cb \<noteq> None
      then (True, cb_update [] (\<lambda>c. c\<lparr>request_id := rid,
                    invocation_span := meta_insert ''request_id'' rid (invocation_span c)\<rparr>) cb)
      else (False, cb))"

definition add_start_time ::
    "string \<Rightarrow> int \<Rightarrow> ('f, 'ptr, 'md) ContextBuffer \<Rightarrow> ('f, 'ptr, 'md) ContextBuffer" where
  "add_start_time rid start_time =
     cb_update rid (\<lambda>c. c\<lparr>invocation_span := (invocation_span c)\<lparr>s_start := start_time\<rparr>\<rparr>)"

text \<open>\<open>ms_to_ns_i64\<close> is \<open>(ms * MS_TO_NS).round() as i64\<close>.\<close>

definition add_runtime_duration ::
    "('f \<Rightarrow> int) \<Rightarrow> string \<Rightarrow> 'f \<Rightarrow> ('f, 'ptr, 'md) ContextBuffer \<Rightarrow> ('f, 'ptr, 'md) ContextBuffer" where
  "add_runtime_duration ms_to_ns_i64 rid ms =
     cb_update rid (\<lambda>c. c\<lparr>runtime_duration_ms := ms,
       invocation_span := (invocation_span c)\<lparr>s_duration := ms_to_ns_i64 ms\<rparr>\<rparr>)"

definition add_enhanced_metric_data ::
    "string \<Rightarrow> 'md option \<Rightarrow> ('f, 'ptr, 'md) ContextBuffer \<Rightarrow> ('f, 'ptr, 'md) ContextBuffer" where
  "add_enhanced_metric_data rid data = cb_update rid (\<lambda>c. c\<lparr>enhanced_metric_data := data\<rparr>)"

definition cb_add_tracer_span ::
    "string \<Rightarrow> 'f Span \<Rightarrow> bool \<Rightarrow> ('f, 'ptr, 'md) ContextBuffer \<Rightarrow> ('f, 'ptr, 'md) ContextBuffer" where
  "cb_add_tracer_span rid span computed_stats =
     cb_update rid (\<lambda>c. c\<lparr>client_computed_stats := computed_stats,
       invocation_span := (invocation_span c)
         \<lparr>s_meta := s_meta (invocation_span c) ++ s_meta span,
          s_meta_struct := s_meta_struct (invocation_span c) ++ s_meta_struct span,
          s_metrics := s_metrics (invocation_span c) ++ s_metrics span\<rparr>,
       tracer_span := Some span\<rparr>)"

definition has_cold_start :: "('f, 'ptr, 'md) Context \<Rightarrow> bool" where
  "has_cold_start c \<longleftrightarrow> cold_start_span c \<noteq> None"

definition get_context_with_cold_start ::
    "('f, 'ptr, 'md) ContextBuffer \<Rightarrow> ('f, 'ptr, 'md) Context option" where
  "get_context_with_cold_start cb = List.find has_cold_start (buffer cb)"

end
