(* ===== verification/EventPairing.thy ===== *)
theory EventPairing
  imports Main
begin

text \<open>
  An interface that two pairs of operations of the context buffer share: events of two kinds arrive in
  any interleaving, an event that finds one of the other kind waiting takes the oldest of them, and
  otherwise waits itself. The provider promises what one event does; the client gets the pairs made
  over a whole run: the \<open>n\<close>-th event of one kind with the \<open>n\<close>-th of the other, whatever the interleaving.
\<close>

fun pair_all ::
    "('l \<Rightarrow> 's \<Rightarrow> 'r option \<times> 's) \<Rightarrow> ('r \<Rightarrow> 's \<Rightarrow> 'l option \<times> 's) \<Rightarrow> ('l + 'r) list \<Rightarrow> 's
      \<Rightarrow> ('l \<times> 'r) list \<times> 's" where
  "pair_all putl putr [] s = ([], s)"
| "pair_all putl putr (Inl l # es) s =
     (let (r, s) = putl l s; (ps, s) = pair_all putl putr es s
      in (case r of Some r \<Rightarrow> (l, r) # ps | None \<Rightarrow> ps, s))"
| "pair_all putl putr (Inr r # es) s =
     (let (l, s) = putr r s; (ps, s) = pair_all putl putr es s
      in (case l of Some l \<Rightarrow> (l, r) # ps | None \<Rightarrow> ps, s))"

definition lefts_of :: "('l + 'r) list \<Rightarrow> 'l list" where
  "lefts_of es = map projl (filter isl es)"

definition rights_of :: "('l + 'r) list \<Rightarrow> 'r list" where
  "rights_of es = map projr (filter (\<lambda>e. \<not> isl e) es)"

lemma lefts_of_simps [simp]:
  "lefts_of [] = []" "lefts_of (Inl l # es) = l # lefts_of es" "lefts_of (Inr r # es) = lefts_of es"
  by (simp_all add: lefts_of_def)

lemma rights_of_simps [simp]:
  "rights_of [] = []" "rights_of (Inl l # es) = rights_of es" "rights_of (Inr r # es) = r # rights_of es"
  by (simp_all add: rights_of_def)

locale event_pairing =
  fixes putl :: "'l \<Rightarrow> 's \<Rightarrow> 'r option \<times> 's"
    and putr :: "'r \<Rightarrow> 's \<Rightarrow> 'l option \<times> 's"
    and lefts :: "'s \<Rightarrow> 'l list"
    and rights :: "'s \<Rightarrow> 'r list"
  assumes putl_waits: "rights s = [] \<Longrightarrow> fst (putl l s) = None \<and> lefts (snd (putl l s)) = lefts s @ [l]
      \<and> rights (snd (putl l s)) = []"
    and putl_takes: "rights s = r # rs \<Longrightarrow> fst (putl l s) = Some r \<and> lefts (snd (putl l s)) = lefts s
      \<and> rights (snd (putl l s)) = rs"
    and putr_waits: "lefts s = [] \<Longrightarrow> fst (putr r s) = None \<and> rights (snd (putr r s)) = rights s @ [r]
      \<and> lefts (snd (putr r s)) = []"
    and putr_takes: "lefts s = l # ls \<Longrightarrow> fst (putr r s) = Some l \<and> rights (snd (putr r s)) = rights s
      \<and> lefts (snd (putr r s)) = ls"
begin

lemma pairs_in_order:
  assumes "lefts s = [] \<or> rights s = []"
  shows "fst (pair_all putl putr es s) = zip (lefts s @ lefts_of es) (rights s @ rights_of es)
    \<and> lefts (snd (pair_all putl putr es s)) = drop (length (rights s @ rights_of es)) (lefts s @ lefts_of es)
    \<and> rights (snd (pair_all putl putr es s)) = drop (length (lefts s @ lefts_of es)) (rights s @ rights_of es)"
  using assms
proof (induction es arbitrary: s)
  case Nil
  then show ?case by auto
next
  case (Cons e es)
  show ?case
  proof (cases e)
    case (Inl l)
    show ?thesis
    proof (cases "rights s")
      case Nil
      with putl_waits [OF Nil, of l] Cons.IH [of "snd (putl l s)"] Inl show ?thesis
        by (simp add: split_beta)
    next
      case (Cons r rs)
      with Cons.prems have "lefts s = []" by simp
      with putl_takes [OF Cons, of l] Cons.IH [of "snd (putl l s)"] Inl Cons show ?thesis
        by (simp add: split_beta)
    qed
  next
    case (Inr r)
    show ?thesis
    proof (cases "lefts s")
      case Nil
      with putr_waits [OF Nil, of r] Cons.IH [of "snd (putr r s)"] Inr show ?thesis
        by (simp add: split_beta)
    next
      case (Cons l ls)
      with Cons.prems have "rights s = []" by simp
      with putr_takes [OF Cons, of r] Cons.IH [of "snd (putr r s)"] Inr Cons show ?thesis
        by (simp add: split_beta)
    qed
  qed
qed

end

end
