(* ===== verification/ContextProps.thy ===== *)
theory ContextProps
  imports ContextBuffer EventPairing
begin

text \<open>
  Correctness of the context buffer: how events of the tracer and of the platform are paired, which
  context is the closest to a time, and how the contents of the buffer change.
\<close>

section \<open>Pairing\<close>

lemmas pairing_defs = pair_invoke_event_def pair_universal_instrumentation_start_event_def
  pair_universal_instrumentation_end_event_def pair_platform_runtime_done_event_def

interpretation start_pairs: event_pairing pair_invoke_event
    "\<lambda>(headers, payload). pair_universal_instrumentation_start_event headers payload"
    invoke_events_request_ids universal_instrumentation_start_events
  by unfold_locales (auto simp: pairing_defs split: list.splits)

interpretation end_pairs: event_pairing pair_platform_runtime_done_event
    "\<lambda>(headers, payload). pair_universal_instrumentation_end_event headers payload"
    platform_runtime_done_events_request_ids universal_instrumentation_end_events
  by unfold_locales (auto simp: pairing_defs split: list.splits)

text \<open>
  C18. Events of the platform and of a tracer that sends no request ids are paired in order of arrival,
  whatever their interleaving: the \<open>n\<close>-th invoke event with the \<open>n\<close>-th start of the instrumentation, and
  the \<open>n\<close>-th runtime-done event with the \<open>n\<close>-th end. No event is lost or used twice: what is not paired
  yet waits in its queue.
\<close>

theorem tracer_events_paired_in_order:
  "fst (pair_all pair_invoke_event (\<lambda>(h, pl). pair_universal_instrumentation_start_event h pl) es
       (with_capacity n :: ('f, 'ptr, 'md) ContextBuffer)) = zip (lefts_of es) (rights_of es)
   \<and> invoke_events_request_ids (snd (pair_all pair_invoke_event
       (\<lambda>(h, pl). pair_universal_instrumentation_start_event h pl) es (with_capacity n :: ('f, 'ptr, 'md) ContextBuffer)))
     = drop (length (rights_of es)) (lefts_of es)
   \<and> universal_instrumentation_start_events (snd (pair_all pair_invoke_event
       (\<lambda>(h, pl). pair_universal_instrumentation_start_event h pl) es (with_capacity n :: ('f, 'ptr, 'md) ContextBuffer)))
     = drop (length (lefts_of es)) (rights_of es)
   \<and> fst (pair_all pair_platform_runtime_done_event (\<lambda>(h, pl). pair_universal_instrumentation_end_event h pl) es
       (with_capacity n :: ('f, 'ptr, 'md) ContextBuffer)) = zip (lefts_of es) (rights_of es)
   \<and> platform_runtime_done_events_request_ids (snd (pair_all pair_platform_runtime_done_event
       (\<lambda>(h, pl). pair_universal_instrumentation_end_event h pl) es (with_capacity n :: ('f, 'ptr, 'md) ContextBuffer)))
     = drop (length (rights_of es)) (lefts_of es)"
  using start_pairs.pairs_in_order [of "with_capacity n :: ('f, 'ptr, 'md) ContextBuffer" es]
    end_pairs.pairs_in_order [of "with_capacity n :: ('f, 'ptr, 'md) ContextBuffer" es]
  by (simp add: with_capacity_def)

section \<open>The closest context\<close>

definition in_range :: "int \<Rightarrow> bool" where
  "in_range t \<longleftrightarrow> 0 \<le> t \<and> t < I64_MAX"

lemma diff_in_range:
  assumes "in_range a" and "in_range b"
  shows "i64_abs (i64_sub a b) = \<bar>a - b\<bar>" and "\<bar>a - b\<bar> < I64_MAX"
proof -
  have bounds: "- (2 ^ 63) \<le> a - b" "a - b < 2 ^ 63" "\<bar>a - b\<bar> < 2 ^ 63"
    using assms by (auto simp: in_range_def I64_MAX_def)
  then show "i64_abs (i64_sub a b) = \<bar>a - b\<bar>"
    by (simp add: i64_abs_def i64_sub_def)
  show "\<bar>a - b\<bar> < I64_MAX" using assms by (auto simp: in_range_def)
qed

text \<open>
  The loop over the buffer: the result is the first position with the least distance, if that is below
  the distance seen before.
\<close>

definition distance :: "int \<Rightarrow> ('f, 'ptr, 'md) Context \<Rightarrow> int" where
  "distance t c = \<bar>created_at c - t\<bar>"

lemma closest_index_spec:
  assumes "in_range t" and "\<forall>c \<in> set cs. in_range (created_at c)"
  shows "(\<forall>c \<in> set cs. md \<le> distance t c) \<and> closest_index t i best md cs = best
    \<or> (\<exists>j < length cs. closest_index t i best md cs = Some (i + j) \<and> distance t (cs ! j) < md
        \<and> (\<forall>k < length cs. distance t (cs ! j) \<le> distance t (cs ! k))
        \<and> (\<forall>k < j. distance t (cs ! j) < distance t (cs ! k)))"
  using assms(2)
proof (induction cs arbitrary: i best md)
  case (Cons c cs)
  have d: "i64_abs (i64_sub (created_at c) t) = distance t c"
    using diff_in_range [of "created_at c" t] Cons.prems assms(1) by (simp add: distance_def)
  show ?case
  proof (cases "distance t c < md")
    case True
    then have eq: "closest_index t i best md (c # cs) = closest_index t (Suc i) (Some i) (distance t c) cs"
      by (simp add: d)
    from Cons.IH [of "distance t c" "Suc i" "Some i"] Cons.prems consider
      (here) "\<forall>c' \<in> set cs. distance t c \<le> distance t c'" "closest_index t (Suc i) (Some i) (distance t c) cs = Some i"
    | (later) j where "j < length cs" "closest_index t (Suc i) (Some i) (distance t c) cs = Some (Suc i + j)"
        "distance t (cs ! j) < distance t c" "\<forall>k < length cs. distance t (cs ! j) \<le> distance t (cs ! k)"
        "\<forall>k < j. distance t (cs ! j) < distance t (cs ! k)" by auto
    then show ?thesis
    proof cases
      case here
      with True eq show ?thesis
        by (intro disjI2 exI [of _ 0]) (auto simp: nth_Cons split: nat.splits)
    next
      case later
      with True eq show ?thesis
        by (intro disjI2 exI [of _ "Suc j"]) (auto simp: nth_Cons split: nat.splits)
    qed
  next
    case False
    then have eq: "closest_index t i best md (c # cs) = closest_index t (Suc i) best md cs"
      by (simp add: d)
    from Cons.IH [of md "Suc i" best] Cons.prems consider
      (none) "\<forall>c' \<in> set cs. md \<le> distance t c'" "closest_index t (Suc i) best md cs = best"
    | (later) j where "j < length cs" "closest_index t (Suc i) best md cs = Some (Suc i + j)"
        "distance t (cs ! j) < md" "\<forall>k < length cs. distance t (cs ! j) \<le> distance t (cs ! k)"
        "\<forall>k < j. distance t (cs ! j) < distance t (cs ! k)" by auto
    then show ?thesis
    proof cases
      case none
      with False eq show ?thesis by auto
    next
      case later
      with False eq show ?thesis
        by (intro disjI2 exI [of _ "Suc j"]) (auto simp: nth_Cons split: nat.splits)
    qed
  qed
qed simp

lemma get_closest_spec:
  assumes "buffer cb \<noteq> []" and "in_range t" and "\<forall>c \<in> set (buffer cb). in_range (created_at c)"
  obtains i where "get_closest t cb = Some i" and "i < length (buffer cb)"
    and "\<forall>k < length (buffer cb). distance t (buffer cb ! i) \<le> distance t (buffer cb ! k)"
    and "\<forall>k < i. distance t (buffer cb ! i) < distance t (buffer cb ! k)"
proof -
  have "distance t (hd (buffer cb)) < I64_MAX"
    using diff_in_range(2) [of "created_at (hd (buffer cb))" t] assms by (simp add: distance_def)
  with assms(1) have "\<not> (\<forall>c \<in> set (buffer cb). I64_MAX \<le> distance t c)"
    by (meson hd_in_set not_le)
  with closest_index_spec [OF assms(2,3), of I64_MAX 0 None] assms(1) that show ?thesis
    by (auto simp: get_closest_def)
qed

text \<open>
  \<open>get_closest_mut\<close> finds the context created closest to a time, the oldest of several equally
  close ones in the order of the buffer.
\<close>

theorem closest_context_is_closest:
  assumes "buffer cb \<noteq> []" and "in_range t" and "\<forall>c \<in> set (buffer cb). in_range (created_at c)"
  shows "\<exists>i < length (buffer cb). get_closest t cb = Some i
    \<and> (\<forall>k < length (buffer cb). \<bar>created_at (buffer cb ! i) - t\<bar> \<le> \<bar>created_at (buffer cb ! k) - t\<bar>)
    \<and> (\<forall>k < i. \<bar>created_at (buffer cb ! i) - t\<bar> < \<bar>created_at (buffer cb ! k) - t\<bar>)"
proof -
  from get_closest_spec [OF assms] obtain i where
    "get_closest t cb = Some i" "i < length (buffer cb)"
    "\<forall>k < length (buffer cb). distance t (buffer cb ! i) \<le> distance t (buffer cb ! k)"
    "\<forall>k < i. distance t (buffer cb ! i) < distance t (buffer cb ! k)" .
  then show ?thesis unfolding distance_def by (intro exI [of _ i] conjI)
qed

definition two_contexts :: "(nat, nat, nat) ContextBuffer" where
  "two_contexts = (with_capacity 500)\<lparr>buffer := [Context_default 0 1700000000000000000, Context_default 0 1800000000000000000]\<rparr>"

theorem closest_context_is_closest_witness:
  "\<exists>i < length (buffer two_contexts). get_closest 1800000000000000005 two_contexts = Some i
    \<and> (\<forall>k < length (buffer two_contexts). \<bar>created_at (buffer two_contexts ! i) - 1800000000000000005\<bar>
         \<le> \<bar>created_at (buffer two_contexts ! k) - 1800000000000000005\<bar>)"
proof -
  have "buffer two_contexts \<noteq> []" "in_range 1800000000000000005"
    "\<forall>c \<in> set (buffer two_contexts). in_range (created_at c)"
    by (simp_all add: two_contexts_def in_range_def I64_MAX_def Context_default_def)
  from closest_context_is_closest [OF this] show ?thesis
    by (elim exE conjE) (intro exI conjI)
qed

text \<open>
  C35. A time given in seconds instead of nanoseconds always finds the oldest context: as long as the
  contexts were created after that number of nanoseconds since 1970, the result does not depend on the
  time of the event. The handlers of \<open>platform.initReport\<close> and \<open>platform.restoreReport\<close> call
  \<open>get_closest_mut\<close> with such a time.
\<close>

theorem seconds_find_oldest_context:
  assumes "buffer cb \<noteq> []" and "0 \<le> secs"
    and "\<forall>c \<in> set (buffer cb). secs \<le> created_at c \<and> created_at c < I64_MAX"
  shows "\<exists>i < length (buffer cb). get_closest secs cb = Some i
    \<and> (\<forall>k < length (buffer cb). created_at (buffer cb ! i) \<le> created_at (buffer cb ! k))"
proof -
  have "hd (buffer cb) \<in> set (buffer cb)" using assms(1) by simp
  with assms(3) have "secs < I64_MAX" by fastforce
  with assms(2,3) have range: "in_range secs" "\<forall>c \<in> set (buffer cb). in_range (created_at c)"
    unfolding in_range_def by (simp, fastforce)
  from get_closest_spec [OF assms(1) range] obtain i where
    i: "get_closest secs cb = Some i" "i < length (buffer cb)"
    "\<forall>k < length (buffer cb). distance secs (buffer cb ! i) \<le> distance secs (buffer cb ! k)"
    "\<forall>k < i. distance secs (buffer cb ! i) < distance secs (buffer cb ! k)" .
  have dist: "distance secs c = created_at c - secs" if "c \<in> set (buffer cb)" for c
    using assms(3) [rule_format, OF that] by (simp add: distance_def)
  have "created_at (buffer cb ! i) \<le> created_at (buffer cb ! k)" if "k < length (buffer cb)" for k
    using i(3) [rule_format, OF that] dist [OF nth_mem [OF i(2)]] dist [OF nth_mem [OF that]] by linarith
  with i(1,2) show ?thesis by blast
qed

theorem seconds_find_oldest_context_witness:
  "(\<exists>i < length (buffer two_contexts). get_closest 1800000000 two_contexts = Some i
    \<and> (\<forall>k < length (buffer two_contexts). created_at (buffer two_contexts ! i) \<le> created_at (buffer two_contexts ! k)))
   \<and> get_closest 1800000000 two_contexts = Some 0 \<and> get_closest 1800000000000000000 two_contexts = Some 1"
proof -
  have "buffer two_contexts \<noteq> []" "(0 :: int) \<le> 1800000000"
    "\<forall>c \<in> set (buffer two_contexts). 1800000000 \<le> created_at c \<and> created_at c < I64_MAX"
    by (simp_all add: two_contexts_def I64_MAX_def Context_default_def)
  from seconds_find_oldest_context [OF this] show ?thesis
    by (simp add: two_contexts_def Context_default_def get_closest_def i64_abs_def i64_sub_def I64_MAX_def)
qed

end
