(* ===== verification/EnhancedMetrics.thy ===== *)
theory EnhancedMetrics
  imports TelemetryEvents Spans
begin

text \<open>
  Enhanced metrics: \<open>bottlecap/src/metrics/enhanced/lambda.rs\<close> and \<open>usage_metrics.rs\<close>. A metric
  handed to the aggregator is appended to \<open>emitted\<close>, a failed insertion being only logged. What the
  sources do with \<open>f64\<close> numbers is the parameter record \<open>F64\<close>; the parser of tag lists belongs to the
  \<open>dogstatsd\<close> package and is a parameter, as is the iteration order of the hash map of tags. Readings of
  the clock and of \<open>/proc\<close> are arguments.
\<close>

section \<open>Numbers, readings and metrics\<close>

record 'f F64 =
  f_add :: "'f \<Rightarrow> 'f \<Rightarrow> 'f"
  f_sub :: "'f \<Rightarrow> 'f \<Rightarrow> 'f"
  f_mul :: "'f \<Rightarrow> 'f \<Rightarrow> 'f"
  f_div :: "'f \<Rightarrow> 'f \<Rightarrow> 'f"
  f_max :: "'f \<Rightarrow> 'f \<Rightarrow> 'f"
  f_less :: "'f \<Rightarrow> 'f \<Rightarrow> bool"
  f_eq :: "'f \<Rightarrow> 'f \<Rightarrow> bool"
  f_round :: "'f \<Rightarrow> 'f"
  f_of_u64 :: "u64 \<Rightarrow> 'f"
  f_of_nat :: "nat \<Rightarrow> 'f"
  f_to_i64 :: "'f \<Rightarrow> int"
  f_MAX :: 'f
  f_lit :: "int \<Rightarrow> nat \<Rightarrow> 'f"

text \<open>The literal \<open>f_lit ops m e\<close> is the number \<open>m * 10^-e\<close>.\<close>

abbreviation f_zero :: "'f F64 \<Rightarrow> 'f" where
  "f_zero ops \<equiv> f_lit ops 0 0"

record 'f NetworkData =
  rx_bytes :: 'f
  tx_bytes :: 'f

record 'f CPUData =
  total_user_time_ms :: 'f
  total_system_time_ms :: 'f
  total_idle_time_ms :: 'f
  individual_cpu_idle_times :: "(string \<times> 'f) list"

record 'f EnhancedMetricData =
  network_offset :: "'f NetworkData option"
  cpu_offset :: "'f CPUData option"
  uptime_offset :: "'f option"

text \<open>What the sources read outside the process in one call; every reading may fail.\<close>

record 'f Readings =
  now_secs :: int
  read_network :: "'f NetworkData option"
  read_cpu :: "'f CPUData option"
  read_uptime :: "'f option"
  read_fd_max :: 'f
  read_threads_max :: 'f
  read_tmp_max :: "'f option"

record ('f, 'g) Metric =
  metric_name :: string
  metric_value :: 'f
  metric_tags :: "'g option"
  metric_timestamp :: "int option"

section \<open>Usage metrics\<close>

record 'f UsageMetrics =
  tmp_used :: 'f
  fd_use :: 'f
  threads_use :: 'f

definition UsageMetrics_new :: "'f F64 \<Rightarrow> 'f UsageMetrics" where
  "UsageMetrics_new ops = \<lparr>tmp_used = f_zero ops, fd_use = f_zero ops, threads_use = f_zero ops\<rparr>"

definition keep_max :: "'f F64 \<Rightarrow> 'f option \<Rightarrow> 'f \<Rightarrow> 'f" where
  "keep_max ops new old = (case new of Some v \<Rightarrow> if f_less ops old v then v else old | None \<Rightarrow> old)"

definition usage_update ::
    "'f F64 \<Rightarrow> 'f option \<Rightarrow> 'f option \<Rightarrow> 'f option \<Rightarrow> 'f UsageMetrics \<Rightarrow> 'f UsageMetrics" where
  "usage_update ops tmp fd threads m =
     \<lparr>tmp_used = keep_max ops tmp (tmp_used m), fd_use = keep_max ops fd (fd_use m),
      threads_use = keep_max ops threads (threads_use m)\<rparr>"

definition usage_reset :: "'f F64 \<Rightarrow> 'f UsageMetrics \<Rightarrow> 'f UsageMetrics" where
  "usage_reset ops m = m\<lparr>tmp_used := f_zero ops, fd_use := f_zero ops, threads_use := f_zero ops\<rparr>"

datatype 'f UsageCommand =
    UpdateUsage "'f option" "'f option" "'f option"
  | ResetUsage
  | GetUsage
  | ShutdownUsage

text \<open>The service answers the \<open>GetUsage\<close> commands in order and stops at \<open>ShutdownUsage\<close>.\<close>

fun usage_run :: "'f F64 \<Rightarrow> 'f UsageCommand list \<Rightarrow> 'f UsageMetrics \<Rightarrow> 'f UsageMetrics list" where
  "usage_run ops [] m = []"
| "usage_run ops (UpdateUsage tmp fd threads # cs) m = usage_run ops cs (usage_update ops tmp fd threads m)"
| "usage_run ops (ResetUsage # cs) m = usage_run ops cs (usage_reset ops m)"
| "usage_run ops (GetUsage # cs) m = m # usage_run ops cs m"
| "usage_run ops (ShutdownUsage # cs) m = []"

section \<open>The metrics of a Lambda sandbox\<close>

text \<open>
  \<open>usage_commands\<close> is the channel to the usage service and \<open>monitoring\<close> the value of the watch that
  starts and pauses it.
\<close>

record ('f, 'g) LambdaMetrics =
  dynamic_value_tags :: tags
  invoked_received :: bool
  monitoring :: bool
  usage_commands :: "'f UsageCommand list"
  emitted :: "('f, 'g) Metric list"

definition LambdaMetrics_new :: "('f, 'g) LambdaMetrics" where
  "LambdaMetrics_new = \<lparr>dynamic_value_tags = Map.empty, invoked_received = False, monitoring = False,
     usage_commands = [], emitted = []\<rparr>"

datatype cpu_arch = X86_64 | Aarch64 | OtherArch

record ('f, 'g) MetricsEnv =
  ops :: "'f F64"
  enhanced_metrics :: bool
  parse_tags :: "string \<Rightarrow> 'g option"
  tag_order :: "string set \<Rightarrow> string list"
  arch :: cpu_arch

definition set_init_tags_metrics :: "bool \<Rightarrow> bool \<Rightarrow> ('f, 'g) LambdaMetrics \<Rightarrow> ('f, 'g) LambdaMetrics" where
  "set_init_tags_metrics proactive_initialization cold_start m =
     (let t = (dynamic_value_tags m)(''cold_start'' := None, ''proactive_initialization'' := None);
          t = t(''cold_start'' \<mapsto> bool_str cold_start);
          t = (if proactive_initialization then t(''proactive_initialization'' \<mapsto> ''true'') else t)
      in m\<lparr>dynamic_value_tags := t\<rparr>)"

definition set_runtime_tag :: "string \<Rightarrow> ('f, 'g) LambdaMetrics \<Rightarrow> ('f, 'g) LambdaMetrics" where
  "set_runtime_tag runtime m = m\<lparr>dynamic_value_tags := (dynamic_value_tags m)(''runtime'' \<mapsto> runtime)\<rparr>"

definition set_durable_function_tag :: "('f, 'g) LambdaMetrics \<Rightarrow> ('f, 'g) LambdaMetrics" where
  "set_durable_function_tag m =
     m\<lparr>dynamic_value_tags := (dynamic_value_tags m)(''durable_function'' \<mapsto> ''true'')\<rparr>"

fun join_with :: "string \<Rightarrow> string list \<Rightarrow> string" where
  "join_with sep [] = []"
| "join_with sep [s] = s"
| "join_with sep (s # ss) = s @ sep @ join_with sep ss"

definition get_dynamic_value_tags :: "('f, 'g) MetricsEnv \<Rightarrow> ('f, 'g) LambdaMetrics \<Rightarrow> 'g option" where
  "get_dynamic_value_tags env m =
     (let vec_tags = map (\<lambda>k. k @ '':'' @ the (dynamic_value_tags m k)) (tag_order env (dom (dynamic_value_tags m)))
      in parse_tags env (join_with '','' vec_tags))"

text \<open>Hand one distribution metric with the dynamic tags to the aggregator.\<close>

definition emit :: "('f, 'g) MetricsEnv \<Rightarrow> string \<Rightarrow> 'f \<Rightarrow> int \<Rightarrow> ('f, 'g) LambdaMetrics \<Rightarrow> ('f, 'g) LambdaMetrics" where
  "emit env name v timestamp m =
     m\<lparr>emitted := emitted m @ [\<lparr>metric_name = name, metric_value = v,
        metric_tags = get_dynamic_value_tags env m, metric_timestamp = Some timestamp\<rparr>]\<rparr>"

definition increment_metric :: "('f, 'g) MetricsEnv \<Rightarrow> string \<Rightarrow> int \<Rightarrow> ('f, 'g) LambdaMetrics \<Rightarrow> ('f, 'g) LambdaMetrics" where
  "increment_metric env name timestamp m =
     (if \<not> enhanced_metrics env then m else emit env name (f_lit (ops env) 1 0) timestamp m)"

definition INVOCATIONS_METRIC :: string where "INVOCATIONS_METRIC = ''aws.lambda.enhanced.invocations''"
definition ERRORS_METRIC :: string where "ERRORS_METRIC = ''aws.lambda.enhanced.errors''"
definition TIMEOUTS_METRIC :: string where "TIMEOUTS_METRIC = ''aws.lambda.enhanced.timeouts''"
definition OUT_OF_MEMORY_METRIC :: string where "OUT_OF_MEMORY_METRIC = ''aws.lambda.enhanced.out_of_memory''"
definition INIT_DURATION_METRIC :: string where "INIT_DURATION_METRIC = ''aws.lambda.enhanced.init_duration''"
definition SHUTDOWNS_METRIC :: string where "SHUTDOWNS_METRIC = ''aws.lambda.enhanced.shutdowns''"
definition UNUSED_INIT :: string where "UNUSED_INIT = ''aws.lambda.enhanced.unused_init''"

definition increment_invocation_metric :: "('f, 'g) MetricsEnv \<Rightarrow> int \<Rightarrow> ('f, 'g) LambdaMetrics \<Rightarrow> ('f, 'g) LambdaMetrics" where
  "increment_invocation_metric env = increment_metric env INVOCATIONS_METRIC"

definition increment_errors_metric :: "('f, 'g) MetricsEnv \<Rightarrow> int \<Rightarrow> ('f, 'g) LambdaMetrics \<Rightarrow> ('f, 'g) LambdaMetrics" where
  "increment_errors_metric env = increment_metric env ERRORS_METRIC"

definition increment_timeout_metric :: "('f, 'g) MetricsEnv \<Rightarrow> int \<Rightarrow> ('f, 'g) LambdaMetrics \<Rightarrow> ('f, 'g) LambdaMetrics" where
  "increment_timeout_metric env = increment_metric env TIMEOUTS_METRIC"

definition increment_oom_metric :: "('f, 'g) MetricsEnv \<Rightarrow> int \<Rightarrow> ('f, 'g) LambdaMetrics \<Rightarrow> ('f, 'g) LambdaMetrics" where
  "increment_oom_metric env = increment_metric env OUT_OF_MEMORY_METRIC"

fun init_type_str :: "InitType \<Rightarrow> string" where
  "init_type_str OnDemandInit = ''on-demand''"
| "init_type_str ProvisionedConcurrency = ''provisioned-concurrency''"
| "init_type_str SnapStart = ''SnapStart''"
| "init_type_str ManagedInstanceInit = ''lambda-managed-instances''"

definition set_init_duration_metric ::
    "('f, 'g) MetricsEnv \<Rightarrow> InitType \<Rightarrow> 'f \<Rightarrow> int \<Rightarrow> ('f, 'g) LambdaMetrics \<Rightarrow> ('f, 'g) LambdaMetrics" where
  "set_init_duration_metric env init_type ms timestamp m =
     (if \<not> enhanced_metrics env then m
      else emit env INIT_DURATION_METRIC (f_mul (ops env) ms (f_lit (ops env) 1 3)) timestamp
             (m\<lparr>dynamic_value_tags := (dynamic_value_tags m)(''init_type'' \<mapsto> init_type_str init_type)\<rparr>))"

definition set_snapstart_restore_duration_metric ::
    "('f, 'g) MetricsEnv \<Rightarrow> 'f \<Rightarrow> int \<Rightarrow> ('f, 'g) LambdaMetrics \<Rightarrow> ('f, 'g) LambdaMetrics" where
  "set_snapstart_restore_duration_metric env ms timestamp m =
     (if \<not> enhanced_metrics env then m
      else emit env ''aws.lambda.enhanced.snapstart_restore_duration''
             (f_mul (ops env) ms (f_lit (ops env) 1 3)) timestamp m)"

definition set_invoked_received :: "('f, 'g) LambdaMetrics \<Rightarrow> ('f, 'g) LambdaMetrics" where
  "set_invoked_received m = m\<lparr>invoked_received := True\<rparr>"

definition set_runtime_done_metrics ::
    "('f, 'g) MetricsEnv \<Rightarrow> 'f RuntimeDoneMetrics \<Rightarrow> int \<Rightarrow> ('f, 'g) LambdaMetrics \<Rightarrow> ('f, 'g) LambdaMetrics" where
  "set_runtime_done_metrics env metrics timestamp m =
     (if \<not> enhanced_metrics env then m
      else
        (let m = emit env ''aws.lambda.enhanced.runtime_duration'' (rd_duration_ms metrics) timestamp m
         in case produced_bytes metrics of
              Some n \<Rightarrow> emit env ''aws.lambda.enhanced.produced_bytes'' (f_of_u64 (ops env) n) timestamp m
            | None \<Rightarrow> m))"

definition set_shutdown_metric :: "('f, 'g) MetricsEnv \<Rightarrow> int \<Rightarrow> ('f, 'g) LambdaMetrics \<Rightarrow> ('f, 'g) LambdaMetrics" where
  "set_shutdown_metric env timestamp m =
     (if \<not> enhanced_metrics env then m else increment_metric env SHUTDOWNS_METRIC timestamp m)"

definition set_unused_init_metric :: "('f, 'g) MetricsEnv \<Rightarrow> int \<Rightarrow> ('f, 'g) LambdaMetrics \<Rightarrow> ('f, 'g) LambdaMetrics" where
  "set_unused_init_metric env timestamp m =
     (if \<not> invoked_received m then increment_metric env UNUSED_INIT timestamp m else m)"

definition set_post_runtime_duration_metric ::
    "('f, 'g) MetricsEnv \<Rightarrow> 'f \<Rightarrow> int \<Rightarrow> ('f, 'g) LambdaMetrics \<Rightarrow> ('f, 'g) LambdaMetrics" where
  "set_post_runtime_duration_metric env ms timestamp m =
     (if \<not> enhanced_metrics env then m
      else emit env ''aws.lambda.enhanced.post_runtime_duration'' ms timestamp m)"

subsection \<open>Metrics from \<open>/proc\<close>\<close>

definition generate_network_enhanced_metrics ::
    "('f, 'g) MetricsEnv \<Rightarrow> int \<Rightarrow> 'f NetworkData \<Rightarrow> 'f NetworkData \<Rightarrow> ('f, 'g) LambdaMetrics \<Rightarrow> ('f, 'g) LambdaMetrics" where
  "generate_network_enhanced_metrics env now offset end_data m =
     (let rx = f_sub (ops env) (rx_bytes end_data) (rx_bytes offset);
          tx = f_sub (ops env) (tx_bytes end_data) (tx_bytes offset);
          m = emit env ''aws.lambda.enhanced.rx_bytes'' rx now m;
          m = emit env ''aws.lambda.enhanced.tx_bytes'' tx now m
      in emit env ''aws.lambda.enhanced.total_network'' (f_add (ops env) rx tx) now m)"

definition set_network_enhanced_metrics ::
    "('f, 'g) MetricsEnv \<Rightarrow> 'f Readings \<Rightarrow> 'f NetworkData option \<Rightarrow> ('f, 'g) LambdaMetrics \<Rightarrow> ('f, 'g) LambdaMetrics" where
  "set_network_enhanced_metrics env rd offset m =
     (if \<not> enhanced_metrics env then m
      else case (offset, read_network rd) of
        (Some offset, Some data) \<Rightarrow> generate_network_enhanced_metrics env (now_secs rd) offset data m
      | _ \<Rightarrow> m)"

definition generate_cpu_time_enhanced_metrics ::
    "('f, 'g) MetricsEnv \<Rightarrow> int \<Rightarrow> 'f CPUData \<Rightarrow> 'f CPUData \<Rightarrow> ('f, 'g) LambdaMetrics \<Rightarrow> ('f, 'g) LambdaMetrics" where
  "generate_cpu_time_enhanced_metrics env now offset end_data m =
     (let user = f_sub (ops env) (total_user_time_ms end_data) (total_user_time_ms offset);
          system = f_sub (ops env) (total_system_time_ms end_data) (total_system_time_ms offset);
          m = emit env ''aws.lambda.enhanced.cpu_user_time'' user now m;
          m = emit env ''aws.lambda.enhanced.cpu_system_time'' system now m
      in emit env ''aws.lambda.enhanced.cpu_total_time'' (f_add (ops env) user system) now m)"

definition set_cpu_time_enhanced_metrics ::
    "('f, 'g) MetricsEnv \<Rightarrow> 'f Readings \<Rightarrow> 'f CPUData option \<Rightarrow> ('f, 'g) LambdaMetrics \<Rightarrow> ('f, 'g) LambdaMetrics" where
  "set_cpu_time_enhanced_metrics env rd offset m =
     (if \<not> enhanced_metrics env then m
      else case (offset, read_cpu rd) of
        (Some offset, Some data) \<Rightarrow> generate_cpu_time_enhanced_metrics env (now_secs rd) offset data m
      | _ \<Rightarrow> m)"

text \<open>The least and the greatest idle time over the cores that both readings know.\<close>

fun idle_times :: "'f F64 \<Rightarrow> (string \<times> 'f) list \<Rightarrow> (string \<times> 'f) list \<Rightarrow> 'f \<times> 'f \<Rightarrow> 'f \<times> 'f" where
  "idle_times fo offsets [] acc = acc"
| "idle_times fo offsets ((cpu, idle) # cpus) (min_idle, max_idle) =
     idle_times fo offsets cpus
       (case map_of offsets cpu of
          None \<Rightarrow> (min_idle, max_idle)
        | Some off \<Rightarrow>
            (let t = f_max fo (f_sub fo idle off) (f_zero fo)
             in (if f_less fo t min_idle then t else min_idle, if f_less fo max_idle t then t else max_idle)))"

definition generate_cpu_utilization_enhanced_metrics ::
    "('f, 'g) MetricsEnv \<Rightarrow> int \<Rightarrow> 'f CPUData \<Rightarrow> 'f CPUData \<Rightarrow> 'f \<Rightarrow> 'f \<Rightarrow> ('f, 'g) LambdaMetrics \<Rightarrow> ('f, 'g) LambdaMetrics" where
  "generate_cpu_utilization_enhanced_metrics env now offset end_data uptime_start uptime_end m =
     (let fo = ops env;
          num_cores = f_of_nat fo (length (individual_cpu_idle_times end_data));
          uptime = f_sub fo uptime_end uptime_start;
          total_idle = f_sub fo (total_idle_time_ms end_data) (total_idle_time_ms offset)
      in if f_less fo uptime (f_zero fo) \<or> f_eq fo uptime (f_zero fo) then m
         else
           (let (min_idle, max_idle) = idle_times fo (individual_cpu_idle_times offset)
                  (individual_cpu_idle_times end_data) (f_MAX fo, f_zero fo);
                pct = (\<lambda>idle. f_max fo (f_mul fo (f_div fo (f_sub fo uptime idle) uptime) (f_lit fo 100 0)) (f_zero fo));
                cores = f_mul fo uptime num_cores;
                decimal = f_max fo (f_div fo (f_sub fo cores total_idle) cores) (f_zero fo);
                m = emit env ''aws.lambda.enhanced.cpu_total_utilization_pct'' (f_mul fo decimal (f_lit fo 100 0)) now m;
                m = emit env ''aws.lambda.enhanced.cpu_total_utilization'' (f_mul fo decimal num_cores) now m;
                m = emit env ''aws.lambda.enhanced.num_cores'' num_cores now m;
                m = emit env ''aws.lambda.enhanced.cpu_max_utilization'' (pct min_idle) now m
            in emit env ''aws.lambda.enhanced.cpu_min_utilization'' (pct max_idle) now m))"

definition set_cpu_utilization_enhanced_metrics ::
    "('f, 'g) MetricsEnv \<Rightarrow> 'f Readings \<Rightarrow> 'f CPUData option \<Rightarrow> 'f option \<Rightarrow> ('f, 'g) LambdaMetrics \<Rightarrow> ('f, 'g) LambdaMetrics" where
  "set_cpu_utilization_enhanced_metrics env rd cpu_off uptime_off m =
     (if \<not> enhanced_metrics env then m
      else case (cpu_off, read_cpu rd, uptime_off, read_uptime rd) of
        (Some cpu_off, Some data, Some uptime_off, Some uptime) \<Rightarrow>
          generate_cpu_utilization_enhanced_metrics env (now_secs rd) cpu_off data uptime_off uptime m
      | _ \<Rightarrow> m)"

subsection \<open>Metrics of the report\<close>

definition calculate_estimated_cost_usd :: "('f, 'g) MetricsEnv \<Rightarrow> u64 \<Rightarrow> u64 \<Rightarrow> 'f" where
  "calculate_estimated_cost_usd env billed_ms memory_mb =
     (let fo = ops env;
          gb_seconds = f_mul fo (f_mul fo (f_of_u64 fo billed_ms) (f_lit fo 1 3))
                         (f_div fo (f_of_u64 fo memory_mb) (f_lit fo 1024 0));
          cost = (\<lambda>price. f_div fo (f_round fo (f_mul fo (f_add fo (f_lit fo 2 7) (f_mul fo gb_seconds price))
                    (f_lit fo 1000000000000 0))) (f_lit fo 1000000000000 0))
      in case arch env of
           X86_64 \<Rightarrow> cost (f_lit fo 166667 10)
         | Aarch64 \<Rightarrow> cost (f_lit fo 133334 10)
         | OtherArch \<Rightarrow> f_zero fo)"

definition set_report_log_metrics ::
    "('f, 'g) MetricsEnv \<Rightarrow> 'f ReportMetrics \<Rightarrow> int \<Rightarrow> ('f, 'g) LambdaMetrics \<Rightarrow> ('f, 'g) LambdaMetrics" where
  "set_report_log_metrics env metrics timestamp m =
     (if \<not> enhanced_metrics env then m
      else
        (let fo = ops env;
             m = emit env ''aws.lambda.enhanced.duration'' (f_mul fo (duration_ms metrics) (f_lit fo 1 3)) timestamp m
         in case metrics of
              ManagedInstance _ \<Rightarrow> m
            | OnDemand r \<Rightarrow>
                (let m = emit env ''aws.lambda.enhanced.billed_duration''
                           (f_mul fo (f_of_u64 fo (billed_duration_ms r)) (f_lit fo 1 3)) timestamp m;
                     m = emit env ''aws.lambda.enhanced.max_memory_used'' (f_of_u64 fo (max_memory_used_mb r)) timestamp m;
                     m = emit env ''aws.lambda.enhanced.memorysize'' (f_of_u64 fo (memory_size_mb r)) timestamp m
                 in emit env ''aws.lambda.enhanced.estimated_cost''
                      (calculate_estimated_cost_usd env (billed_duration_ms r) (memory_size_mb r)) timestamp m)))"

subsection \<open>Usage monitoring\<close>

definition restart_usage_metrics_monitoring :: "('f, 'g) MetricsEnv \<Rightarrow> ('f, 'g) LambdaMetrics \<Rightarrow> ('f, 'g) LambdaMetrics" where
  "restart_usage_metrics_monitoring env m =
     (if \<not> enhanced_metrics env then m
      else m\<lparr>usage_commands := usage_commands m @ [ResetUsage], monitoring := True\<rparr>)"

definition resume_usage_metrics_monitoring :: "('f, 'g) MetricsEnv \<Rightarrow> ('f, 'g) LambdaMetrics \<Rightarrow> ('f, 'g) LambdaMetrics" where
  "resume_usage_metrics_monitoring env m = (if \<not> enhanced_metrics env then m else m\<lparr>monitoring := True\<rparr>)"

definition pause_usage_metrics_monitoring :: "('f, 'g) MetricsEnv \<Rightarrow> ('f, 'g) LambdaMetrics \<Rightarrow> ('f, 'g) LambdaMetrics" where
  "pause_usage_metrics_monitoring env m = (if \<not> enhanced_metrics env then m else m\<lparr>monitoring := False\<rparr>)"

text \<open>
  \<open>set_usage_enhanced_metrics\<close> pauses the monitoring and spawns a task that asks the usage service for
  its values and emits them, with the tags of the time of the call.
\<close>

definition emit_usage ::
    "('f, 'g) MetricsEnv \<Rightarrow> 'f Readings \<Rightarrow> 'f UsageMetrics \<Rightarrow> ('f, 'g) LambdaMetrics \<Rightarrow> ('f, 'g) LambdaMetrics" where
  "emit_usage env rd u m =
     (let fo = ops env; now = now_secs rd;
          m = (if f_less fo (f_zero fo) (tmp_used u) then
                 (let m = emit env ''aws.lambda.enhanced.tmp_used'' (tmp_used u) now m
                  in case read_tmp_max rd of
                       None \<Rightarrow> m
                     | Some tmp_max \<Rightarrow>
                         emit env ''aws.lambda.enhanced.tmp_free'' (f_sub fo tmp_max (tmp_used u)) now
                           (emit env ''aws.lambda.enhanced.tmp_max'' tmp_max now m))
               else m);
          m = (if f_less fo (f_zero fo) (fd_use u) then emit env ''aws.lambda.enhanced.fd_use'' (fd_use u) now m else m)
      in if f_less fo (f_zero fo) (threads_use u)
         then emit env ''aws.lambda.enhanced.threads_use'' (threads_use u) now m else m)"

definition set_usage_enhanced_metrics ::
    "('f, 'g) MetricsEnv \<Rightarrow> 'f Readings \<Rightarrow> 'f UsageMetrics option \<Rightarrow> ('f, 'g) LambdaMetrics \<Rightarrow> ('f, 'g) LambdaMetrics" where
  "set_usage_enhanced_metrics env rd usage m =
     (if \<not> enhanced_metrics env then m
      else
        (let m = m\<lparr>monitoring := False, usage_commands := usage_commands m @ [GetUsage]\<rparr>
         in case usage of Some u \<Rightarrow> emit_usage env rd u m | None \<Rightarrow> m))"

definition set_max_enhanced_metrics ::
    "('f, 'g) MetricsEnv \<Rightarrow> 'f Readings \<Rightarrow> ('f, 'g) LambdaMetrics \<Rightarrow> ('f, 'g) LambdaMetrics" where
  "set_max_enhanced_metrics env rd m =
     (if \<not> enhanced_metrics env then m
      else emit env ''aws.lambda.enhanced.threads_max'' (read_threads_max rd) (now_secs rd)
             (emit env ''aws.lambda.enhanced.fd_max'' (read_fd_max rd) (now_secs rd) m))"

end
