(* ===== verification/InvocationProcessor.thy ===== *)
theory InvocationProcessor
  imports ContextBuffer EnhancedMetrics DsmPathway DurableContext
begin

text \<open>
  The invocation processor, \<open>bottlecap/src/lifecycle/invocation/processor.rs\<close>, and the service that
  runs it on a queue of commands, \<open>processor_service.rs\<close>. The state is the record \<open>Processor\<close>; what it
  hands to other components is kept in it: the metrics in \<open>emitted\<close>, the spans given to the trace
  sender in \<open>sent_traces\<close> and the durable contexts in \<open>forwarded\<close>. The settings and the code outside
  the repository are the record \<open>ProcEnv\<close>; what one call reads from the clock, the random number
  generator and \<open>/proc\<close> is the record \<open>Tick\<close>. A handler returns \<open>None\<close> when it panics, which aborts the
  process.
\<close>

section \<open>State and environment\<close>

definition MS_TO_NS_F :: "'f F64 \<Rightarrow> 'f" where
  "MS_TO_NS_F fo = f_lit fo 1000000 0"

definition PROACTIVE_INITIALIZATION_THRESHOLD_MS :: nat where
  "PROACTIVE_INITIALIZATION_THRESHOLD_MS = 10000"

datatype FirstInvocationMetricStatus = Pending | InitStartSeen | HeldBack int | Resolved

record ('f, 'ptr) SentTraces =
  sent_spans :: "'f Span list"
  sent_body_size :: nat
  sent_client_computed_stats :: bool
  sent_span_pointers :: "'ptr list option"

record ('f, 'g, 'ptr) Processor =
  context_buffer :: "('f, 'ptr, 'f EnhancedMetricData) ContextBuffer"
  lambda_metrics :: "('f, 'g) LambdaMetrics"
  tracer_detected :: bool
  proc_runtime :: "string option"
  proc_service :: string
  proc_resource :: string
  dynamic_tags :: tags
  active_invocations :: nat
  awaiting_first_invocation :: bool
  forwarded :: "DurableContextUpdate list"
  restore_time :: "nat option"
  init_duration_metric_emitted :: bool
  dsm_processor :: "DsmProcessor option"
  dsm_processed_request_ids :: "string set"
  first_invocation_metric_status :: FirstInvocationMetricStatus
  sent_traces :: "('f, 'ptr) SentTraces list"

record ('f, 'g, 'ptr) ProcEnv =
  metrics_env :: "('f, 'g) MetricsEnv"
  infer_env :: "('f, 'ptr) InferEnv"
  dsm_floats :: "'f Floats"
  initialization_type :: string
  sandbox_init_time :: nat
  canonical_resource_name :: "string option"
  lambda_proc_enhanced_metrics :: bool
  capture_lambda_payload :: bool
  capture_lambda_payload_max_depth :: nat
  dsm_exchange_name :: "string option"
  dsm_kafka_group :: "string option"
  extract_from_tags :: "tags \<Rightarrow> SpanContext option"
  extract_from_json :: "json \<Rightarrow> SpanContext option"
  json_parse :: "string \<Rightarrow> json option"
  json_print :: "json \<Rightarrow> string"
  json_as_i64 :: "json \<Rightarrow> int option"
  parse_f64 :: "string \<Rightarrow> 'f option"
  base64_decode :: "string \<Rightarrow> bytes option"
  sha256 :: "bytes \<Rightarrow> bytes"
  size_of_span :: nat

text \<open>Instants of the monotonic clock are nanoseconds.\<close>

record 'f Tick =
  readings :: "'f Readings"
  now_ns :: int
  instant_now :: nat
  resolved_runtime :: string
  span_id1 :: u64
  span_id2 :: u64
  dsm_now_ns :: "nat \<Rightarrow> u64"
  usage_answer :: "'f UsageMetrics option"

definition is_managed_instance_mode :: "('f, 'g, 'ptr) ProcEnv \<Rightarrow> bool" where
  "is_managed_instance_mode env \<longleftrightarrow> initialization_type env = ''lambda-managed-instances''"

definition is_snapstart :: "('f, 'g, 'ptr) ProcEnv \<Rightarrow> bool" where
  "is_snapstart env \<longleftrightarrow> initialization_type env = ''snap-start''"

definition Processor_new :: "('f, 'g, 'ptr) ProcEnv \<Rightarrow> ('f, 'g, 'ptr) Processor" where
  "Processor_new env =
     (let resource = (case canonical_resource_name env of Some r \<Rightarrow> r | None \<Rightarrow> ''aws.lambda'');
          service = to_lowercase (infer_env env)
            (get_default_service_name
               (case conf_service (infer_env env) of Some s \<Rightarrow> s | None \<Rightarrow> resource) ''aws.lambda''
               (trace_aws_service_representation_enabled (infer_env env)))
      in \<lparr>context_buffer = ContextBuffer_default, lambda_metrics = LambdaMetrics_new, tracer_detected = False,
          proc_runtime = None, proc_service = service, proc_resource = resource, dynamic_tags = Map.empty,
          active_invocations = 0, awaiting_first_invocation = False, forwarded = [], restore_time = None,
          init_duration_metric_emitted = False, dsm_processor = None, dsm_processed_request_ids = {},
          first_invocation_metric_status = Pending, sent_traces = []\<rparr>)"

definition set_dsm_processor :: "DsmProcessor \<Rightarrow> ('f, 'g, 'ptr) Processor \<Rightarrow> ('f, 'g, 'ptr) Processor" where
  "set_dsm_processor dsm p = p\<lparr>dsm_processor := Some dsm\<rparr>"

abbreviation on_metrics ::
    "(('f, 'g) LambdaMetrics \<Rightarrow> ('f, 'g) LambdaMetrics) \<Rightarrow> ('f, 'g, 'ptr) Processor \<Rightarrow> ('f, 'g, 'ptr) Processor" where
  "on_metrics f p \<equiv> p\<lparr>lambda_metrics := f (lambda_metrics p)\<rparr>"

abbreviation on_buffer ::
    "(('f, 'ptr, 'f EnhancedMetricData) ContextBuffer \<Rightarrow> ('f, 'ptr, 'f EnhancedMetricData) ContextBuffer)
      \<Rightarrow> ('f, 'g, 'ptr) Processor \<Rightarrow> ('f, 'g, 'ptr) Processor" where
  "on_buffer f p \<equiv> p\<lparr>context_buffer := f (context_buffer p)\<rparr>"

abbreviation aws_lambda_span :: "('f, 'g, 'ptr) Processor \<Rightarrow> string \<Rightarrow> 'f Span" where
  "aws_lambda_span p name \<equiv> create_empty_span name (proc_resource p) (proc_service p)"

abbreviation metric_ops :: "('f, 'g, 'ptr) ProcEnv \<Rightarrow> 'f F64" where
  "metric_ops env \<equiv> ops (metrics_env env)"

text \<open>
  \<open>SystemTime::from(time).duration_since(UNIX_EPOCH)\<close> panics before the epoch; nanoseconds that do not
  fit an \<open>i64\<close> become 0.
\<close>

definition start_time_of :: "int \<Rightarrow> int option" where
  "start_time_of t = (if t < 0 then None else Some (if t < 2 ^ 63 then t else 0))"

section \<open>Data streams checkpoints of a payload\<close>

definition strip_prefix :: "string \<Rightarrow> string \<Rightarrow> string option" where
  "strip_prefix p s = (if starts_with p s then Some (drop (length p) s) else None)"

definition resolve_dsm_eventbridge_exchange :: "string option \<Rightarrow> string list \<Rightarrow> string list" where
  "resolve_dsm_eventbridge_exchange configured edge_tags =
     (if ''type:eventbridge'' \<notin> set edge_tags then edge_tags
      else
        (let payload_exchange =
               (case List.find (starts_with ''exchange:'') edge_tags of
                  Some t \<Rightarrow> strip_prefix ''exchange:'' t | None \<Rightarrow> None);
             exchange = (case configured of
                 Some e \<Rightarrow> e
               | None \<Rightarrow> (case payload_exchange of Some e \<Rightarrow> e | None \<Rightarrow> ''default''))
         in filter (\<lambda>t. \<not> starts_with ''exchange:'' t) edge_tags @ [''exchange:'' @ exchange]))"

definition apply_dsm_kafka_group_fallback :: "string option \<Rightarrow> string list \<Rightarrow> string list" where
  "apply_dsm_kafka_group_fallback grp edge_tags =
     (case grp of
        None \<Rightarrow> edge_tags
      | Some g \<Rightarrow>
          (if ''type:kafka'' \<in> set edge_tags \<and> \<not> list_ex (starts_with ''group:'') edge_tags
           then edge_tags @ [''group:'' @ g] else edge_tags))"

text \<open>The clock is read for every checkpoint: \<open>now i\<close> is the \<open>i\<close>-th reading.\<close>

fun record_checkpoints ::
    "('f, 'g, 'ptr) ProcEnv \<Rightarrow> (nat \<Rightarrow> u64) \<Rightarrow> nat \<Rightarrow> 'f DsmCheckpointInput list \<Rightarrow> DsmProcessor \<Rightarrow> DsmProcessor option" where
  "record_checkpoints env now i [] dsm = Some dsm"
| "record_checkpoints env now i (c # cs) dsm =
     (let edge_tags = apply_dsm_kafka_group_fallback (dsm_kafka_group env)
            (resolve_dsm_eventbridge_exchange (dsm_exchange_name env) (dci_edge_tags c))
      in Option.bind
           (record_consume (sha256 env) (base64_decode env) (dsm_floats env) (now i) edge_tags (dci_carrier c)
              (dci_payload_size_bytes c) dsm)
           (record_checkpoints env now (Suc i) cs))"

definition record_dsm_consume_from_payload ::
    "('f, 'g, 'ptr) ProcEnv \<Rightarrow> 'f Tick \<Rightarrow> string \<Rightarrow> json \<Rightarrow> ('f, 'g, 'ptr) Processor \<Rightarrow> ('f, 'g, 'ptr) Processor option" where
  "record_dsm_consume_from_payload env tk rid payload p =
     (case dsm_processor p of
        None \<Rightarrow> Some p
      | Some dsm \<Rightarrow>
          (if rid \<in> dsm_processed_request_ids p then Some p
           else
             (let p = p\<lparr>dsm_processed_request_ids := insert rid (dsm_processed_request_ids p)\<rparr>
              in case get_trigger_type (from_value (infer_env env) payload) of
                   None \<Rightarrow> Some p
                 | Some t \<Rightarrow>
                     map_option (\<lambda>dsm. p\<lparr>dsm_processor := Some dsm\<rparr>)
                       (record_checkpoints env (dsm_now_ns tk) 0 (get_dsm_checkpoints t payload) dsm))))"

section \<open>Start of an invocation\<close>

definition proc_extract_span_context ::
    "('f, 'g, 'ptr) ProcEnv \<Rightarrow> tags \<Rightarrow> json \<Rightarrow> SpanContext option" where
  "proc_extract_span_context env headers payload =
     (case extract_payload_span_context (infer_env env) (extract_from_tags env) payload of
        Some sc \<Rightarrow> Some sc
      | None \<Rightarrow>
          (case Option.bind (Option.bind (json_get payload ''request'') (\<lambda>r. json_get r ''headers''))
                  (extract_from_json env) of
             Some sc \<Rightarrow> Some sc
           | None \<Rightarrow>
               (case Option.bind (json_get payload ''headers'') (extract_from_json env) of
                  Some sc \<Rightarrow> Some sc
                | None \<Rightarrow> extract_from_tags env headers)))"

text \<open>What the start of the instrumentation does to the context of its request.\<close>

definition start_instrumentation ::
    "('f, 'g, 'ptr) ProcEnv \<Rightarrow> ('f, 'ptr) InferredSpanData \<Rightarrow> tags \<Rightarrow> json
      \<Rightarrow> ('f, 'ptr, 'md) Context \<Rightarrow> ('f, 'ptr, 'md) Context" where
  "start_instrumentation env isd headers payload c =
     (let c = c\<lparr>inferred := isd\<rparr>;
          c = (if capture_lambda_payload env
               then c\<lparr>invocation_span := meta_extend
                      (get_metadata_from_value (json_parse env) (json_print env) ''function.request'' payload 0
                         (capture_lambda_payload_max_depth env)) (invocation_span c)\<rparr>
               else c);
          c = c\<lparr>extracted_span_context := proc_extract_span_context env headers payload\<rparr>;
          c = (case extracted_span_context c of
                 None \<Rightarrow> c
               | Some sc \<Rightarrow>
                   (let c = c\<lparr>invocation_span := (invocation_span c)
                              \<lparr>s_trace_id := ucast (sc_trace_id sc), s_parent_id := sc_span_id sc\<rparr>\<rparr>
                    in if inferred_span (inferred c) \<noteq> None
                       then c\<lparr>inferred := extend_meta (sc_tags sc) (set_parent_id (sc_span_id sc) (inferred c))\<rparr>
                       else c\<lparr>invocation_span := meta_extend (sc_tags sc) (invocation_span c)\<rparr>))
      in case inferred_span (inferred c) of
           Some s \<Rightarrow> c\<lparr>invocation_span := (invocation_span c)\<lparr>s_parent_id := s_span_id s\<rparr>\<rparr>
         | None \<Rightarrow> c)"

definition process_on_universal_instrumentation_start ::
    "('f, 'g, 'ptr) ProcEnv \<Rightarrow> 'f Tick \<Rightarrow> string \<Rightarrow> tags \<Rightarrow> json \<Rightarrow> ('f, 'g, 'ptr) Processor \<Rightarrow> ('f, 'g, 'ptr) Processor option" where
  "process_on_universal_instrumentation_start env tk rid headers payload p =
     (let isd = infer_span (infer_env env) (span_id1 tk) (span_id2 tk) payload
      in if cb_get rid (context_buffer p) = None then Some p
         else record_dsm_consume_from_payload env tk rid payload
                (on_buffer (cb_update rid (start_instrumentation env isd headers payload)) p))"

definition set_init_tags ::
    "('f, 'g, 'ptr) ProcEnv \<Rightarrow> 'f Tick \<Rightarrow> ('f, 'g, 'ptr) Processor \<Rightarrow> ('f, 'g, 'ptr) Processor" where
  "set_init_tags env tk p =
     (let late = (\<lambda>since. (instant_now tk - since) div 1000000 > PROACTIVE_INITIALIZATION_THRESHOLD_MS);
          empty = cb_is_empty (context_buffer p);
          proactive_initialization = (empty \<and>
            (if is_snapstart env then (case restore_time p of None \<Rightarrow> False | Some t \<Rightarrow> late t)
             else late (sandbox_init_time env)));
          cold_start = (empty \<and> \<not> proactive_initialization);
          p = (if empty then p\<lparr>proc_runtime := Some (resolved_runtime tk)\<rparr> else p);
          p = (if \<not> is_managed_instance_mode env
               then p\<lparr>dynamic_tags := (dynamic_tags p)(''cold_start'' \<mapsto> bool_str cold_start)\<rparr> else p);
          p = (if proactive_initialization
               then p\<lparr>dynamic_tags := (dynamic_tags p)(''proactive_initialization'' \<mapsto> bool_str True)\<rparr> else p);
          p = (case proc_runtime p of
                 Some r \<Rightarrow> on_metrics (set_runtime_tag r) (p\<lparr>dynamic_tags := (dynamic_tags p)(''runtime'' \<mapsto> r)\<rparr>)
               | None \<Rightarrow> p)
      in on_metrics (set_init_tags_metrics proactive_initialization cold_start) p)"

definition new_invocation ::
    "('f, 'g, 'ptr) ProcEnv \<Rightarrow> 'f Tick \<Rightarrow> string \<Rightarrow> ('f, 'g, 'ptr) Processor \<Rightarrow> ('f, 'g, 'ptr) Processor" where
  "new_invocation env tk rid p =
     (let span = aws_lambda_span p ''aws.lambda''
      in on_buffer (start_context (f_zero (metric_ops env)) (now_ns tk) rid span) (set_init_tags env tk p))"

text \<open>The context of the invocation and the usage monitoring: the first half of \<open>on_invoke_event\<close>.\<close>

definition open_context ::
    "('f, 'g, 'ptr) ProcEnv \<Rightarrow> 'f Tick \<Rightarrow> string \<Rightarrow> ('f, 'g, 'ptr) Processor \<Rightarrow> ('f, 'g, 'ptr) Processor" where
  "open_context env tk rid p =
     (if is_managed_instance_mode env \<and> awaiting_first_invocation p then
        (let (found, cb) = update_empty_context_request_id rid (context_buffer p);
             p = (if found then p\<lparr>context_buffer := cb\<rparr> else new_invocation env tk rid p)
         in p\<lparr>awaiting_first_invocation := False\<rparr>)
      else new_invocation env tk rid p)"

definition start_monitoring ::
    "('f, 'g, 'ptr) ProcEnv \<Rightarrow> 'f Tick \<Rightarrow> string \<Rightarrow> ('f, 'g, 'ptr) Processor \<Rightarrow> ('f, 'g, 'ptr) Processor" where
  "start_monitoring env tk rid p =
     (if \<not> lambda_proc_enhanced_metrics env then p
      else
        (let p = (if is_managed_instance_mode env then
                    (let p = p\<lparr>active_invocations := active_invocations p + 1\<rparr>
                     in if active_invocations p = 1
                        then on_metrics (resume_usage_metrics_monitoring (metrics_env env)) p else p)
                  else on_metrics (restart_usage_metrics_monitoring (metrics_env env)) p);
             rd = readings tk
         in on_buffer (add_enhanced_metric_data rid
              (Some \<lparr>network_offset = read_network rd, cpu_offset = read_cpu rd, uptime_offset = read_uptime rd\<rparr>)) p))"

definition count_invocation ::
    "('f, 'g, 'ptr) ProcEnv \<Rightarrow> 'f Tick \<Rightarrow> FirstInvocationMetricStatus \<Rightarrow> ('f, 'g, 'ptr) Processor \<Rightarrow> ('f, 'g, 'ptr) Processor" where
  "count_invocation env tk status p =
     (let first = (\<not> is_managed_instance_mode env \<and> status \<in> {Pending, InitStartSeen});
          hold = (status = Pending \<and> first);
          timestamp = now_secs (readings tk);
          p = (if hold then p\<lparr>first_invocation_metric_status := HeldBack timestamp\<rparr>
               else
                 (let p = on_metrics (increment_invocation_metric (metrics_env env) timestamp) p
                  in if first then p\<lparr>first_invocation_metric_status := Resolved\<rparr> else p))
      in on_metrics set_invoked_received p)"

definition on_invoke_event ::
    "('f, 'g, 'ptr) ProcEnv \<Rightarrow> 'f Tick \<Rightarrow> string \<Rightarrow> ('f, 'g, 'ptr) Processor \<Rightarrow> ('f, 'g, 'ptr) Processor option" where
  "on_invoke_event env tk rid p =
     (let status = first_invocation_metric_status p;
          p = open_context env tk rid p;
          p = start_monitoring env tk rid p;
          p = count_invocation env tk status p;
          (buffered, cb) = take_universal_instrumentation_start_for_request_id rid (context_buffer p);
          p = p\<lparr>context_buffer := cb\<rparr>
      in case buffered of
           Some (headers, payload) \<Rightarrow> process_on_universal_instrumentation_start env tk rid headers payload p
         | None \<Rightarrow>
             (if is_managed_instance_mode env then Some p
              else
                (let (paired, cb) = pair_invoke_event rid (context_buffer p);
                     p = p\<lparr>context_buffer := cb\<rparr>
                 in case paired of
                      Some (headers, payload) \<Rightarrow> process_on_universal_instrumentation_start env tk rid headers payload p
                    | None \<Rightarrow> Some p)))"

definition on_universal_instrumentation_start ::
    "('f, 'g, 'ptr) ProcEnv \<Rightarrow> 'f Tick \<Rightarrow> tags \<Rightarrow> json \<Rightarrow> string option \<Rightarrow> ('f, 'g, 'ptr) Processor \<Rightarrow> ('f, 'g, 'ptr) Processor option" where
  "on_universal_instrumentation_start env tk headers payload rid p =
     (let p = p\<lparr>tracer_detected := True\<rparr>
      in case rid of
           Some rid \<Rightarrow>
             (if is_managed_instance_mode env \<and> cb_get rid (context_buffer p) \<noteq> None
              then process_on_universal_instrumentation_start env tk rid headers payload p
              else
                (let (paired, cb) = pair_universal_instrumentation_start_with_request_id rid headers payload (context_buffer p);
                     p = p\<lparr>context_buffer := cb\<rparr>
                 in if paired then process_on_universal_instrumentation_start env tk rid headers payload p else Some p))
         | None \<Rightarrow>
             (let (paired, cb) = pair_universal_instrumentation_start_event headers payload (context_buffer p);
                  p = p\<lparr>context_buffer := cb\<rparr>
              in case paired of
                   Some rid \<Rightarrow> process_on_universal_instrumentation_start env tk rid headers payload p
                 | None \<Rightarrow> Some p))"

section \<open>Platform events\<close>

definition flush_pending_first_invocation_metric ::
    "('f, 'g, 'ptr) ProcEnv \<Rightarrow> ('f, 'g, 'ptr) Processor \<Rightarrow> ('f, 'g, 'ptr) Processor" where
  "flush_pending_first_invocation_metric env p =
     (case first_invocation_metric_status p of
        HeldBack timestamp \<Rightarrow>
          (on_metrics (increment_invocation_metric (metrics_env env) timestamp) p)
            \<lparr>first_invocation_metric_status := Resolved\<rparr>
      | _ \<Rightarrow> p)"

definition on_platform_init_start ::
    "('f, 'g, 'ptr) ProcEnv \<Rightarrow> 'f Tick \<Rightarrow> int \<Rightarrow> string option \<Rightarrow> ('f, 'g, 'ptr) Processor \<Rightarrow> ('f, 'g, 'ptr) Processor option" where
  "on_platform_init_start env tk time runtime_version p =
     (let p = (case runtime_version of
                 Some rv \<Rightarrow> if contains ''DurableFunction'' rv then on_metrics set_durable_function_tag p else p
               | None \<Rightarrow> p);
          p = (if first_invocation_metric_status p = Pending
               then p\<lparr>first_invocation_metric_status := InitStartSeen\<rparr> else p);
          p = flush_pending_first_invocation_metric env p
      in case start_time_of time of
           None \<Rightarrow> None
         | Some start_time \<Rightarrow>
             (if is_managed_instance_mode env
              then Some ((new_invocation env tk [] p)\<lparr>awaiting_first_invocation := True\<rparr>)
              else
                (let span = (aws_lambda_span p ''aws.lambda.cold_start'')\<lparr>s_span_id := span_id1 tk, s_start := start_time\<rparr>
                 in Some (on_buffer (update_closest start_time (\<lambda>c. c\<lparr>cold_start_span := Some span\<rparr>)) p))))"

definition ms_to_ns_trunc :: "'f F64 \<Rightarrow> 'f \<Rightarrow> int" where
  "ms_to_ns_trunc fo ms = f_to_i64 fo (f_mul fo ms (MS_TO_NS_F fo))"

definition ms_to_ns_round :: "'f F64 \<Rightarrow> 'f \<Rightarrow> int" where
  "ms_to_ns_round fo ms = f_to_i64 fo (f_round fo (f_mul fo ms (MS_TO_NS_F fo)))"

definition on_platform_init_report ::
    "('f, 'g, 'ptr) ProcEnv \<Rightarrow> InitType \<Rightarrow> 'f \<Rightarrow> int \<Rightarrow> ('f, 'g, 'ptr) Processor \<Rightarrow> ('f, 'g, 'ptr) Processor" where
  "on_platform_init_report env init_type ms timestamp p =
     (let p = (if init_duration_metric_emitted p then p
               else (on_metrics (set_init_duration_metric (metrics_env env) init_type ms timestamp) p)
                      \<lparr>init_duration_metric_emitted := True\<rparr>);
          set_duration = (\<lambda>c. c\<lparr>cold_start_span :=
            map_option (\<lambda>s. s\<lparr>s_duration := ms_to_ns_trunc (metric_ops env) ms\<rparr>) (cold_start_span c)\<rparr>)
      in if is_managed_instance_mode env then on_buffer (cb_update [] set_duration) p
         else on_buffer (update_closest timestamp set_duration) p)"

definition on_platform_restore_start ::
    "('f, 'g, 'ptr) ProcEnv \<Rightarrow> 'f Tick \<Rightarrow> int \<Rightarrow> ('f, 'g, 'ptr) Processor \<Rightarrow> ('f, 'g, 'ptr) Processor option" where
  "on_platform_restore_start env tk time p =
     (let p = p\<lparr>restore_time := Some (instant_now tk)\<rparr>
      in map_option (\<lambda>start_time.
           (let span = (aws_lambda_span p ''aws.lambda.snapstart_restore'')\<lparr>s_span_id := span_id1 tk, s_start := start_time\<rparr>
            in on_buffer (update_closest start_time (\<lambda>c. c\<lparr>snapstart_restore_span := Some span\<rparr>)) p))
         (start_time_of time))"

definition on_platform_restore_report ::
    "('f, 'g, 'ptr) ProcEnv \<Rightarrow> 'f \<Rightarrow> int \<Rightarrow> ('f, 'g, 'ptr) Processor \<Rightarrow> ('f, 'g, 'ptr) Processor" where
  "on_platform_restore_report env ms timestamp p =
     on_buffer (update_closest timestamp (\<lambda>c. c\<lparr>snapstart_restore_span :=
         map_option (\<lambda>s. s\<lparr>s_duration := ms_to_ns_trunc (metric_ops env) ms\<rparr>) (snapstart_restore_span c)\<rparr>))
       (on_metrics (set_snapstart_restore_duration_metric (metrics_env env) ms timestamp) p)"

definition on_platform_start ::
    "('f, 'g, 'ptr) ProcEnv \<Rightarrow> 'f Tick \<Rightarrow> string \<Rightarrow> int \<Rightarrow> ('f, 'g, 'ptr) Processor \<Rightarrow> ('f, 'g, 'ptr) Processor option" where
  "on_platform_start env tk rid time p =
     Option.bind (if is_managed_instance_mode env then on_invoke_event env tk rid p else Some p)
       (\<lambda>p. map_option (\<lambda>start_time. on_buffer (add_start_time rid start_time) p) (start_time_of time))"

subsection \<open>Out of memory\<close>

definition try_increment_oom_metric ::
    "('f, 'g, 'ptr) ProcEnv \<Rightarrow> string option \<Rightarrow> int \<Rightarrow> ('f, 'g, 'ptr) Processor \<Rightarrow> ('f, 'g, 'ptr) Processor" where
  "try_increment_oom_metric env rid timestamp p =
     (let count = on_metrics (increment_oom_metric (metrics_env env) timestamp)
      in case rid of
           None \<Rightarrow> count p
         | Some rid \<Rightarrow>
             (case cb_get rid (context_buffer p) of
                None \<Rightarrow> count p
              | Some c \<Rightarrow>
                  (if oom_emitted c then p
                   else count (on_buffer (cb_update rid (\<lambda>c. c\<lparr>oom_emitted := True\<rparr>)) p))))"

section \<open>End of an invocation\<close>

definition parse_u64 :: "string \<Rightarrow> u64 option" where
  "parse_u64 s =
     (let ds = (case s of c # cs \<Rightarrow> if c = CHR ''+'' then cs else s | [] \<Rightarrow> []);
          n = foldl (\<lambda>n c. 10 * n + (of_char c - 48)) 0 ds
      in if ds \<noteq> [] \<and> list_all (\<lambda>c. CHR ''0'' \<le> c \<and> c \<le> CHR ''9'') ds \<and> n < (2 :: nat) ^ 64 then Some (of_nat n) else None)"

definition int_str :: "int \<Rightarrow> string" where
  "int_str n = (if n < 0 then ''-'' @ nat_str (nat (- n)) else nat_str (nat n))"

fun split_char :: "char \<Rightarrow> string \<Rightarrow> string list" where
  "split_char sep [] = [[]]"
| "split_char sep (c # cs) =
     (case split_char sep cs of
        [] \<Rightarrow> [[c]]
      | w # ws \<Rightarrow> if c = sep then [] # w # ws else (c # w) # ws)"

definition PROPAGATION_TAG_PREFIX :: string where
  "PROPAGATION_TAG_PREFIX = ''_dd.p.''"

definition extract_propagation_tags :: "string \<Rightarrow> tags" where
  "extract_propagation_tags s =
     fold (\<lambda>pair m. case split_once ''='' pair of
         Some (k, v) \<Rightarrow> if starts_with PROPAGATION_TAG_PREFIX k then m(k \<mapsto> v) else m
       | None \<Rightarrow> m) (split_char CHR '','' s) Map.empty"

definition base64_to_string :: "('f, 'g, 'ptr) ProcEnv \<Rightarrow> string \<Rightarrow> string option" where
  "base64_to_string env s = map_option (\<lambda>bs. map (\<lambda>b. char_of (unat b)) (from_utf8_lossy bs)) (base64_decode env s)"

definition get_error_tags_from_headers ::
    "('f, 'g, 'ptr) ProcEnv \<Rightarrow> tags \<Rightarrow> bool \<Rightarrow> tags option" where
  "get_error_tags_from_headers env headers has_error =
     (let msg = headers ''x-datadog-invocation-error-msg'';
          typ = headers ''x-datadog-invocation-error-type'';
          stack = headers ''x-datadog-invocation-error-stack'';
          decode = (\<lambda>s. case base64_to_string env s of Some d \<Rightarrow> d | None \<Rightarrow> s);
          flag = (case headers ''x-datadog-invocation-error'' of
                    Some v \<Rightarrow> to_lowercase (infer_env env) v = ''true'' | None \<Rightarrow> False);
          put = (\<lambda>k v m. case v of Some v \<Rightarrow> m(k \<mapsto> decode v) | None \<Rightarrow> m)
      in if flag \<or> msg \<noteq> None \<or> stack \<noteq> None \<or> typ \<noteq> None \<or> has_error
         then Some (put ''error.stack'' stack (put ''error.type'' typ (put ''error.msg'' msg Map.empty)))
         else None)"

text \<open>The status code of the response.\<close>

definition tag_status_code ::
    "('f, 'g, 'ptr) ProcEnv \<Rightarrow> json \<Rightarrow> ('f, 'ptr, 'md) Context \<Rightarrow> ('f, 'ptr, 'md) Context" where
  "tag_status_code env payload c =
     (case Option.bind (json_get payload ''statusCode'') (json_as_i64 env) of
        None \<Rightarrow> c
      | Some status_code \<Rightarrow>
          (let st = int_str status_code;
               c = c\<lparr>invocation_span := meta_insert ''http.status_code'' st (invocation_span c)\<rparr>;
               c = (if length st = 3 \<and> starts_with ''5'' st
                    then c\<lparr>invocation_span := (invocation_span c)\<lparr>s_error := 1\<rparr>\<rparr> else c)
           in c\<lparr>inferred := set_status_code st (inferred c)\<rparr>))"

text \<open>The trace context of an invocation that is its own root comes from the headers.\<close>

definition tag_trace_context ::
    "('f, 'g, 'ptr) ProcEnv \<Rightarrow> tags \<Rightarrow> ('f, 'ptr, 'md) Context \<Rightarrow> ('f, 'ptr, 'md) Context" where
  "tag_trace_context env headers c =
     (let number = (\<lambda>key n. case headers key of
              Some h \<Rightarrow> (case parse_u64 h of Some n \<Rightarrow> n | None \<Rightarrow> 0) | None \<Rightarrow> n);
          (trace_id, parent_id, tgs) =
            (case extracted_span_context c of
               Some sc \<Rightarrow> (ucast (sc_trace_id sc), sc_span_id sc, sc_tags sc)
             | None \<Rightarrow> (0, 0, Map.empty));
          root = (trace_id = 0);
          priority = (if root then Option.bind (headers ''x-datadog-sampling-priority'') (parse_f64 env) else None);
          (trace_id, parent_id, tgs) =
            (if root then (number ''x-datadog-trace-id'' trace_id, number ''x-datadog-parent-id'' parent_id,
                extract_propagation_tags (case headers ''x-datadog-tags'' of Some t \<Rightarrow> t | None \<Rightarrow> []))
             else (trace_id, parent_id, tgs));
          c = (case priority of
                 Some pr \<Rightarrow> c\<lparr>invocation_span := (invocation_span c)
                     \<lparr>s_metrics := (s_metrics (invocation_span c))(''_sampling_priority_v1'' \<mapsto> pr)\<rparr>\<rparr>
               | None \<Rightarrow> c);
          c = c\<lparr>invocation_span := (invocation_span c)
                \<lparr>s_span_id := number ''x-datadog-span-id'' (s_span_id (invocation_span c))\<rparr>\<rparr>;
          c = c\<lparr>invocation_span := (invocation_span c)
                \<lparr>s_trace_id := (if trace_id = 0 then s_trace_id (invocation_span c) else trace_id)\<rparr>\<rparr>
      in if inferred_span (inferred c) \<noteq> None then c\<lparr>inferred := extend_meta tgs (inferred c)\<rparr>
         else c\<lparr>invocation_span := meta_extend tgs ((invocation_span c)\<lparr>s_parent_id := parent_id\<rparr>)\<rparr>)"

definition end_instrumentation ::
    "('f, 'g, 'ptr) ProcEnv \<Rightarrow> tags \<Rightarrow> json \<Rightarrow> ('f, 'ptr, 'md) Context \<Rightarrow> ('f, 'ptr, 'md) Context" where
  "end_instrumentation env headers payload c =
     (let c = (if capture_lambda_payload env
               then c\<lparr>invocation_span := meta_extend
                      (get_metadata_from_value (json_parse env) (json_print env) ''function.response'' payload 0
                         (capture_lambda_payload_max_depth env)) (invocation_span c)\<rparr>
               else c);
          c = tag_trace_context env headers (tag_status_code env payload c)
      in case get_error_tags_from_headers env headers (s_error (invocation_span c) = 1) of
           Some error_tags \<Rightarrow> c\<lparr>invocation_span := (meta_extend error_tags (invocation_span c))\<lparr>s_error := 1\<rparr>\<rparr>
         | None \<Rightarrow> c)"

definition process_on_universal_instrumentation_end ::
    "('f, 'g, 'ptr) ProcEnv \<Rightarrow> 'f Tick \<Rightarrow> string \<Rightarrow> tags \<Rightarrow> json \<Rightarrow> ('f, 'g, 'ptr) Processor \<Rightarrow> ('f, 'g, 'ptr) Processor" where
  "process_on_universal_instrumentation_end env tk rid headers payload p =
     (case cb_get rid (context_buffer p) of
        None \<Rightarrow> p
      | Some c \<Rightarrow>
          (let p = on_buffer (cb_update rid (end_instrumentation env headers payload)) p
           in if s_error (invocation_span (end_instrumentation env headers payload c)) = 1
              then on_metrics (increment_errors_metric (metrics_env env) (now_secs (readings tk))) p else p))"

definition on_universal_instrumentation_end ::
    "('f, 'g, 'ptr) ProcEnv \<Rightarrow> 'f Tick \<Rightarrow> tags \<Rightarrow> json \<Rightarrow> string option \<Rightarrow> ('f, 'g, 'ptr) Processor \<Rightarrow> ('f, 'g, 'ptr) Processor" where
  "on_universal_instrumentation_end env tk headers payload rid p =
     (case rid of
        Some rid \<Rightarrow>
          (let (paired, cb) = pair_universal_instrumentation_end_with_request_id rid headers payload (context_buffer p);
               p = p\<lparr>context_buffer := cb\<rparr>
           in if paired then process_on_universal_instrumentation_end env tk rid headers payload p else p)
      | None \<Rightarrow>
          (let (paired, cb) = pair_universal_instrumentation_end_event headers payload (context_buffer p);
               p = p\<lparr>context_buffer := cb\<rparr>
           in case paired of
                Some rid \<Rightarrow> process_on_universal_instrumentation_end env tk rid headers payload p
              | None \<Rightarrow> p))"

subsection \<open>Sending spans\<close>

definition get_ctx_spans :: "('f, 'g, 'ptr) ProcEnv \<Rightarrow> ('f, 'ptr, 'md) Context \<Rightarrow> 'f Span list \<times> nat" where
  "get_ctx_spans env c =
     (let opt = (\<lambda>s. case s of Some s \<Rightarrow> [s] | None \<Rightarrow> []);
          traces = invocation_span c # opt (inferred_span (inferred c)) @ opt (wrapped_inferred_span (inferred c))
            @ (case snapstart_restore_span c of Some s \<Rightarrow> [s] | None \<Rightarrow> opt (cold_start_span c))
      in (traces, length traces * size_of_span env))"

definition send_spans ::
    "'f Span list \<Rightarrow> nat \<Rightarrow> bool \<Rightarrow> 'ptr list option \<Rightarrow> ('f, 'g, 'ptr) Processor \<Rightarrow> ('f, 'g, 'ptr) Processor" where
  "send_spans traces body_size computed_stats ptrs p =
     p\<lparr>sent_traces := sent_traces p @
         [\<lparr>sent_spans = traces, sent_body_size = body_size, sent_client_computed_stats = computed_stats,
           sent_span_pointers = ptrs\<rparr>]\<rparr>"

definition send_ctx_spans ::
    "('f, 'g, 'ptr) ProcEnv \<Rightarrow> ('f, 'ptr, 'md) Context \<Rightarrow> ('f, 'g, 'ptr) Processor \<Rightarrow> ('f, 'g, 'ptr) Processor" where
  "send_ctx_spans env c p =
     (let (traces, body_size) = get_ctx_spans env c
      in send_spans traces body_size (client_computed_stats c) (span_pointers (inferred c)) p)"

definition send_cold_start_span ::
    "('f, 'g, 'ptr) ProcEnv \<Rightarrow> ('f, 'g, 'ptr) Processor \<Rightarrow> ('f, 'g, 'ptr) Processor" where
  "send_cold_start_span env p =
     (case Option.bind (get_context_with_cold_start (context_buffer p)) cold_start_span of
        None \<Rightarrow> p
      | Some s \<Rightarrow> if s_trace_id s = 0 then p else send_spans [s] (size_of_span env) False None p)"

definition set_cold_start_span_trace_id ::
    "u64 \<Rightarrow> ('f, 'g, 'ptr) Processor \<Rightarrow> u64 option \<times> ('f, 'g, 'ptr) Processor" where
  "set_cold_start_span_trace_id trace_id p =
     (case Option.bind (get_context_with_cold_start (context_buffer p)) cold_start_span of
        None \<Rightarrow> (None, p)
      | Some s \<Rightarrow>
          (Some (s_span_id s),
           on_buffer (\<lambda>cb. cb\<lparr>buffer := update_first has_cold_start
             (\<lambda>c. c\<lparr>cold_start_span := map_option (\<lambda>s. if s_trace_id s = 0 then s\<lparr>s_trace_id := trace_id\<rparr> else s)
                    (cold_start_span c)\<rparr>) (buffer cb)\<rparr>) p))"

subsection \<open>The runtime is done\<close>

definition mark_timeout :: "'f Tick \<Rightarrow> 'f Span \<Rightarrow> 'f Span" where
  "mark_timeout tk s =
     (let s = (if s_trace_id s = 0 then s\<lparr>s_trace_id := span_id1 tk\<rparr> else s);
          s = (if s_span_id s = 0 then s\<lparr>s_span_id := span_id2 tk\<rparr> else s);
          s = s\<lparr>s_error := 1\<rparr>
      in meta_insert ''error.type'' ''Timeout'' (meta_insert ''error.msg'' ''Datadog detected a Timeout'' s))"

definition adopt_trace :: "'f Span \<Rightarrow> 'f Span \<Rightarrow> 'f Span" where
  "adopt_trace span s = s\<lparr>s_trace_id := s_trace_id span, s_parent_id := s_parent_id span\<rparr>"

text \<open>What the end of the runtime does to the context of its request.\<close>

definition enrich_context ::
    "('f, 'g, 'ptr) ProcEnv \<Rightarrow> 'f Tick \<Rightarrow> tags \<Rightarrow> bool \<Rightarrow> Status \<Rightarrow> ('f, 'ptr, 'md) Context \<Rightarrow> ('f, 'ptr, 'md) Context" where
  "enrich_context env tk dyn tracer status c =
     (let c = c\<lparr>runtime_done_received := True\<rparr>;
          c = (if status = Timeout then c\<lparr>invocation_span := mark_timeout tk (invocation_span c)\<rparr> else c);
          c = c\<lparr>invocation_span := meta_extend dyn (invocation_span c)\<rparr>;
          c = (case get_trigger_tags (inferred c) of
                 Some t \<Rightarrow> c\<lparr>invocation_span := meta_extend t (invocation_span c)\<rparr> | None \<Rightarrow> c);
          c = (if serverless_appsec_enabled (infer_env env) \<and> s_metrics (invocation_span c) ''_dd.appsec.enabled'' = None
               then c\<lparr>invocation_span := (invocation_span c)
                      \<lparr>s_metrics := (s_metrics (invocation_span c))(''_dd.appsec.enabled'' \<mapsto> f_lit (metric_ops env) 1 0)\<rparr>\<rparr>
               else c);
          c = c\<lparr>inferred := complete_inferred_spans (infer_env env) (invocation_span c) (inferred c)\<rparr>;
          c = (if s_trace_id (invocation_span c) \<noteq> 0 \<and> tracer
               then c\<lparr>cold_start_span := map_option (adopt_trace (invocation_span c)) (cold_start_span c)\<rparr> else c)
      in if s_trace_id (invocation_span c) \<noteq> 0
         then c\<lparr>snapstart_restore_span := map_option (adopt_trace (invocation_span c)) (snapstart_restore_span c)\<rparr>
         else c)"

definition enrich_ctx_at_platform_done ::
    "('f, 'g, 'ptr) ProcEnv \<Rightarrow> 'f Tick \<Rightarrow> string \<Rightarrow> Status \<Rightarrow> ('f, 'g, 'ptr) Processor
      \<Rightarrow> ('f, 'ptr, 'f EnhancedMetricData) Context option \<times> ('f, 'g, 'ptr) Processor" where
  "enrich_ctx_at_platform_done env tk rid status p =
     (case cb_get rid (context_buffer p) of
        None \<Rightarrow> (None, p)
      | Some c \<Rightarrow>
          (let p = (case enhanced_metric_data c of
                      Some d \<Rightarrow> on_metrics (set_cpu_utilization_enhanced_metrics (metrics_env env) (readings tk)
                                 (cpu_offset d) (uptime_offset d)) p
                    | None \<Rightarrow> p);
               f = enrich_context env tk (dynamic_tags p) (tracer_detected p) status
           in (Some (f c), on_buffer (cb_update rid f) p)))"

definition process_on_platform_runtime_done ::
    "('f, 'g, 'ptr) ProcEnv \<Rightarrow> 'f Tick \<Rightarrow> string \<Rightarrow> Status \<Rightarrow> ('f, 'g, 'ptr) Processor \<Rightarrow> ('f, 'g, 'ptr) Processor" where
  "process_on_platform_runtime_done env tk rid status p =
     (let (ctx, p) = enrich_ctx_at_platform_done env tk rid status p
      in if tracer_detected p
         then (case ctx of
                 Some c \<Rightarrow> if s_trace_id (invocation_span c) \<noteq> 0 \<and> s_span_id (invocation_span c) \<noteq> 0
                           then send_ctx_spans env c p else p
               | None \<Rightarrow> p)
         else send_cold_start_span env p)"

text \<open>The metrics of the runtime, before the events of the tracer are paired.\<close>

definition runtime_done_metrics ::
    "('f, 'g, 'ptr) ProcEnv \<Rightarrow> 'f Tick \<Rightarrow> string \<Rightarrow> 'f RuntimeDoneMetrics \<Rightarrow> Status \<Rightarrow> string option \<Rightarrow> int
      \<Rightarrow> ('f, 'g, 'ptr) Processor \<Rightarrow> ('f, 'g, 'ptr) Processor" where
  "runtime_done_metrics env tk rid metrics status error_type timestamp p =
     (let p = on_metrics (set_runtime_done_metrics (metrics_env env) metrics timestamp) p;
          p = (if status = Success then p
               else
                 (let p = on_metrics (increment_errors_metric (metrics_env env) timestamp) p;
                      p = (if status = Timeout then on_metrics (increment_timeout_metric (metrics_env env) timestamp) p else p)
                  in if status = Error \<and> error_type = Some ''Runtime.OutOfMemory''
                     then try_increment_oom_metric env (Some rid) timestamp p else p))
      in if is_managed_instance_mode env then p
         else on_metrics (\<lambda>m. set_usage_enhanced_metrics (metrics_env env) (readings tk) (usage_answer tk)
                (set_max_enhanced_metrics (metrics_env env) (readings tk) m)) p)"

definition on_platform_runtime_done ::
    "('f, 'g, 'ptr) ProcEnv \<Rightarrow> 'f Tick \<Rightarrow> string \<Rightarrow> 'f RuntimeDoneMetrics \<Rightarrow> Status \<Rightarrow> string option \<Rightarrow> int
      \<Rightarrow> ('f, 'g, 'ptr) Processor \<Rightarrow> ('f, 'g, 'ptr) Processor" where
  "on_platform_runtime_done env tk rid metrics status error_type timestamp p =
     (let p = runtime_done_metrics env tk rid metrics status error_type timestamp p;
          p = on_buffer (add_runtime_duration (ms_to_ns_round (metric_ops env)) rid (rd_duration_ms metrics)) p;
          (buffered, cb) = take_universal_instrumentation_end_for_request_id rid (context_buffer p);
          p = p\<lparr>context_buffer := cb\<rparr>;
          p = (case buffered of
                 Some (headers, payload) \<Rightarrow> process_on_universal_instrumentation_end env tk rid headers payload p
               | None \<Rightarrow>
                   (if is_managed_instance_mode env then p
                    else
                      (let (paired, cb) = pair_platform_runtime_done_event rid (context_buffer p);
                           p = p\<lparr>context_buffer := cb\<rparr>
                       in case paired of
                            Some (headers, payload) \<Rightarrow> process_on_universal_instrumentation_end env tk rid headers payload p
                          | None \<Rightarrow> p)))
      in process_on_platform_runtime_done env tk rid status p)"

subsection \<open>The report\<close>

definition release_invocation_context :: "string \<Rightarrow> ('f, 'g, 'ptr) Processor \<Rightarrow> ('f, 'g, 'ptr) Processor" where
  "release_invocation_context rid p =
     on_buffer (\<lambda>cb. cb\<lparr>sorted_reparenting_info := filter (\<lambda>i. ri_request_id i \<noteq> rid) (sorted_reparenting_info cb)\<rparr>)
       ((on_buffer (cb_remove rid) p)\<lparr>dsm_processed_request_ids := dsm_processed_request_ids p - {rid}\<rparr>)"

definition handle_managed_instance_report ::
    "('f, 'g, 'ptr) ProcEnv \<Rightarrow> 'f Tick \<Rightarrow> string \<Rightarrow> 'f \<Rightarrow> int \<Rightarrow> Status \<Rightarrow> string option \<Rightarrow> 'f TelemetrySpan list option
      \<Rightarrow> ('f, 'g, 'ptr) Processor \<Rightarrow> ('f, 'g, 'ptr) Processor" where
  "handle_managed_instance_report env tk rid ms timestamp status error_type spans p =
     (let ms = (case Option.bind spans (List.find (\<lambda>s. ts_name s = ''responseLatency'')) of
                  Some s \<Rightarrow> ts_duration_ms s | None \<Rightarrow> ms);
          p = (if active_invocations p > 0 then p\<lparr>active_invocations := active_invocations p - 1\<rparr> else p);
          p = (if active_invocations p = 0 then on_metrics (pause_usage_metrics_monitoring (metrics_env env)) p else p)
      in if cb_get rid (context_buffer p) \<noteq> None
         then on_platform_runtime_done env tk rid \<lparr>rd_duration_ms = ms, produced_bytes = None\<rparr> status error_type timestamp p
         else p)"

definition handle_ondemand_report ::
    "('f, 'g, 'ptr) ProcEnv \<Rightarrow> string \<Rightarrow> 'f OnDemandReportMetrics \<Rightarrow> int \<Rightarrow> ('f, 'g, 'ptr) Processor \<Rightarrow> ('f, 'g, 'ptr) Processor" where
  "handle_ondemand_report env rid metrics timestamp p =
     (let p = (if max_memory_used_mb metrics = memory_size_mb metrics
               then try_increment_oom_metric env (Some rid) timestamp p else p);
          p = (case cb_get rid (context_buffer p) of
                 Some c \<Rightarrow>
                   (if f_eq (metric_ops env) (runtime_duration_ms c) (f_zero (metric_ops env)) then p
                    else on_metrics (set_post_runtime_duration_metric (metrics_env env)
                           (f_sub (metric_ops env) (od_duration_ms metrics) (runtime_duration_ms c)) timestamp) p)
               | None \<Rightarrow> p)
      in case init_duration_ms metrics of
           Some ms \<Rightarrow>
             (if init_duration_metric_emitted p then p
              else (on_metrics (set_init_duration_metric (metrics_env env) OnDemandInit ms timestamp) p)
                     \<lparr>init_duration_metric_emitted := True\<rparr>)
         | None \<Rightarrow> p)"

definition on_platform_report ::
    "('f, 'g, 'ptr) ProcEnv \<Rightarrow> 'f Tick \<Rightarrow> string \<Rightarrow> 'f ReportMetrics \<Rightarrow> int \<Rightarrow> Status \<Rightarrow> string option
      \<Rightarrow> 'f TelemetrySpan list option \<Rightarrow> ('f, 'g, 'ptr) Processor \<Rightarrow> ('f, 'g, 'ptr) Processor" where
  "on_platform_report env tk rid metrics timestamp status error_type spans p =
     (let p = on_metrics (set_report_log_metrics (metrics_env env) metrics timestamp) p;
          p = (case metrics of
                 ManagedInstance ms \<Rightarrow> handle_managed_instance_report env tk rid ms timestamp status error_type spans p
               | OnDemand metrics \<Rightarrow> handle_ondemand_report env rid metrics timestamp p);
          p = (case Option.bind (cb_get rid (context_buffer p)) enhanced_metric_data of
                 Some d \<Rightarrow> on_metrics (\<lambda>m. set_cpu_time_enhanced_metrics (metrics_env env) (readings tk) (cpu_offset d)
                     (set_network_enhanced_metrics (metrics_env env) (readings tk) (network_offset d) m)) p
               | None \<Rightarrow> p)
      in release_invocation_context rid p)"

definition on_shutdown_event ::
    "('f, 'g, 'ptr) ProcEnv \<Rightarrow> 'f Tick \<Rightarrow> ('f, 'g, 'ptr) Processor \<Rightarrow> ('f, 'g, 'ptr) Processor" where
  "on_shutdown_event env tk p =
     (let p = flush_pending_first_invocation_metric env p;
          now = now_secs (readings tk);
          p = on_metrics (\<lambda>m. set_unused_init_metric (metrics_env env) now (set_shutdown_metric (metrics_env env) now m)) p
      in if is_managed_instance_mode env
         then on_metrics (\<lambda>m. set_usage_enhanced_metrics (metrics_env env) (readings tk) (usage_answer tk)
                (set_max_enhanced_metrics (metrics_env env) (readings tk) m)) p
         else p)"

section \<open>Reparenting\<close>

definition add_reparenting :: "string \<Rightarrow> u64 \<Rightarrow> u64 \<Rightarrow> ('f, 'g, 'ptr) Processor \<Rightarrow> ('f, 'g, 'ptr) Processor" where
  "add_reparenting rid span_id parent_id p =
     (let cb = context_buffer p; infos = sorted_reparenting_info cb
      in if rid \<in> ri_request_id ` set infos then p
         else
           (let infos = (if length infos = buffer_capacity cb then tl infos else infos)
            in p\<lparr>context_buffer := cb\<lparr>sorted_reparenting_info := infos @
                 [\<lparr>ri_request_id = rid, invocation_span_id = span_id, parent_id_to_reparent = parent_id,
                   guessed_trace_id = 0, needs_trace_id = True\<rparr>]\<rparr>\<rparr>))"

definition get_reparenting_info :: "('f, 'g, 'ptr) Processor \<Rightarrow> ReparentingInfo list" where
  "get_reparenting_info p = sorted_reparenting_info (context_buffer p)"

definition reparent_context :: "ReparentingInfo \<Rightarrow> ('f, 'ptr, 'md) Context \<Rightarrow> ('f, 'ptr, 'md) Context" where
  "reparent_context info c =
     (let s = invocation_span c;
          s = (if s_span_id s = 0 then s\<lparr>s_span_id := invocation_span_id info\<rparr> else s);
          s = (if s_trace_id s = 0 then s\<lparr>s_trace_id := guessed_trace_id info\<rparr> else s)
      in c\<lparr>invocation_span := s\<rparr>)"

definition sendable_now :: "('f, 'ptr, 'md) Context \<Rightarrow> ('f, 'ptr, 'md) Context \<Rightarrow> bool" where
  "sendable_now old new \<longleftrightarrow> (s_span_id (invocation_span old) = 0 \<or> s_trace_id (invocation_span old) = 0)
     \<and> s_span_id (invocation_span new) \<noteq> 0 \<and> s_trace_id (invocation_span new) \<noteq> 0 \<and> runtime_done_received new"

fun update_reparenting ::
    "ReparentingInfo list \<Rightarrow> ('f, 'g, 'ptr) Processor
      \<Rightarrow> ('f, 'ptr, 'f EnhancedMetricData) Context list \<times> ('f, 'g, 'ptr) Processor" where
  "update_reparenting [] p = ([], p)"
| "update_reparenting (info # infos) p =
     (let rid = ri_request_id info;
          (sends, p) = (case cb_get rid (context_buffer p) of
              None \<Rightarrow> ([], p)
            | Some c \<Rightarrow>
                (let c' = reparent_context info c
                 in (if sendable_now c c' then [c'] else [], on_buffer (cb_update rid (reparent_context info)) p)));
          p = on_buffer (\<lambda>cb. cb\<lparr>sorted_reparenting_info := update_first (\<lambda>i. ri_request_id i = rid)
                (\<lambda>i. i\<lparr>needs_trace_id := needs_trace_id info, guessed_trace_id := guessed_trace_id info\<rparr>)
                (sorted_reparenting_info cb)\<rparr>) p;
          (rest, p) = update_reparenting infos p
      in (sends @ rest, p))"

section \<open>Other commands\<close>

definition add_tracer_span :: "'f Span \<Rightarrow> bool \<Rightarrow> ('f, 'g, 'ptr) Processor \<Rightarrow> ('f, 'g, 'ptr) Processor" where
  "add_tracer_span span computed_stats p =
     (case s_meta span ''request_id'' of
        Some rid \<Rightarrow> on_buffer (cb_add_tracer_span rid span computed_stats) p
      | None \<Rightarrow> p)"

definition forward_durable_context :: "DurableContextUpdate \<Rightarrow> ('f, 'g, 'ptr) Processor \<Rightarrow> ('f, 'g, 'ptr) Processor" where
  "forward_durable_context u p = p\<lparr>forwarded := forwarded p @ [u]\<rparr>"

section \<open>The service\<close>

datatype ('f, 'ptr) ProcessorCommand =
    InvokeEvent string
  | InitStart int "string option"
  | InitReport InitType 'f int
  | RestoreStart int
  | RestoreReport 'f int
  | PlatformStart string int
  | PlatformRuntimeDone string "'f RuntimeDoneMetrics" Status "string option" int
  | PlatformReport string "'f ReportMetrics" int Status "string option" "'f TelemetrySpan list option"
  | UniversalInstrumentationStart tags json "string option"
  | RecordDsmConsumeFromPayload string json
  | UniversalInstrumentationEnd tags json "string option"
  | AddReparenting string u64 u64
  | GetReparentingInfo
  | UpdateReparenting "ReparentingInfo list"
  | SetColdStartSpanTraceId u64
  | AddTracerSpan "'f Span" bool
  | ForwardDurableContext DurableContextUpdate
  | OnOutOfMemoryError "string option" int
  | OnShutdownEvent
  | SendCtxSpans "('f, 'ptr, 'f EnhancedMetricData) Context"
  | Shutdown

fun proc_step ::
    "('f, 'g, 'ptr) ProcEnv \<Rightarrow> 'f Tick \<Rightarrow> ('f, 'ptr) ProcessorCommand \<Rightarrow> ('f, 'g, 'ptr) Processor
      \<Rightarrow> ('f, 'g, 'ptr) Processor option" where
  "proc_step env tk (InvokeEvent rid) p = on_invoke_event env tk rid p"
| "proc_step env tk (InitStart time rv) p = on_platform_init_start env tk time rv p"
| "proc_step env tk (InitReport it ms ts) p = Some (on_platform_init_report env it ms ts p)"
| "proc_step env tk (RestoreStart time) p = on_platform_restore_start env tk time p"
| "proc_step env tk (RestoreReport ms ts) p = Some (on_platform_restore_report env ms ts p)"
| "proc_step env tk (PlatformStart rid time) p = on_platform_start env tk rid time p"
| "proc_step env tk (PlatformRuntimeDone rid m st et ts) p = Some (on_platform_runtime_done env tk rid m st et ts p)"
| "proc_step env tk (PlatformReport rid m ts st et sp) p = Some (on_platform_report env tk rid m ts st et sp p)"
| "proc_step env tk (UniversalInstrumentationStart h pl rid) p = on_universal_instrumentation_start env tk h pl rid p"
| "proc_step env tk (RecordDsmConsumeFromPayload rid pl) p = record_dsm_consume_from_payload env tk rid pl p"
| "proc_step env tk (UniversalInstrumentationEnd h pl rid) p = Some (on_universal_instrumentation_end env tk h pl rid p)"
| "proc_step env tk (AddReparenting rid sid pid) p = Some (add_reparenting rid sid pid p)"
| "proc_step env tk GetReparentingInfo p = Some p"
| "proc_step env tk (UpdateReparenting infos) p = Some (snd (update_reparenting infos p))"
| "proc_step env tk (SetColdStartSpanTraceId tid) p = Some (snd (set_cold_start_span_trace_id tid p))"
| "proc_step env tk (AddTracerSpan s cs) p = Some (add_tracer_span s cs p)"
| "proc_step env tk (ForwardDurableContext u) p = Some (forward_durable_context u p)"
| "proc_step env tk (OnOutOfMemoryError rid ts) p = Some (try_increment_oom_metric env rid ts p)"
| "proc_step env tk OnShutdownEvent p = Some (on_shutdown_event env tk p)"
| "proc_step env tk (SendCtxSpans c) p = Some (send_ctx_spans env c p)"
| "proc_step env tk Shutdown p = Some p"

text \<open>\<open>Shutdown\<close> leaves the loop; the commands behind it are not processed.\<close>

fun proc_run ::
    "('f, 'g, 'ptr) ProcEnv \<Rightarrow> ('f Tick \<times> ('f, 'ptr) ProcessorCommand) list \<Rightarrow> ('f, 'g, 'ptr) Processor
      \<Rightarrow> ('f, 'g, 'ptr) Processor option" where
  "proc_run env [] p = Some p"
| "proc_run env ((tk, c) # cs) p =
     (case c of Shutdown \<Rightarrow> Some p | _ \<Rightarrow> Option.bind (proc_step env tk c p) (proc_run env cs))"

end
