(* ===== verification/ProcessorSamples.thy ===== *)
theory ProcessorSamples
  imports InvocationProcessor
begin

text \<open>A concrete environment and clock for the instances of the properties of the invocation processor.\<close>

text \<open>Integers for \<open>f64\<close>, no event source recognised, enhanced metrics on; \<open>mode\<close> is the initialization type.\<close>

definition sample_f64 :: "int F64" where
  "sample_f64 = \<lparr>f_add = (+), f_sub = (-), f_mul = (*), f_div = (div), f_max = max, f_less = (<), f_eq = (=),
     f_round = id, f_of_u64 = uint, f_of_nat = int, f_to_i64 = id, f_MAX = 2 ^ 63, f_lit = (\<lambda>m e. m)\<rparr>"

definition sample_infer_env :: "(int, unit) InferEnv" where
  "sample_infer_env = \<lparr>service_mapping = Map.empty, trace_aws_service_representation_enabled = True,
     trace_remove_integration_service_names_enabled = False, conf_service = None, serverless_appsec_enabled = False,
     to_lowercase = id, region = [], from_value = (\<lambda>_. UnknownTrigger), sns_of_text = (\<lambda>_. None),
     event_bridge_of_text = (\<lambda>_. None), aws_trace_header = (\<lambda>_. None), f_one = 1\<rparr>"

definition sample_env :: "string \<Rightarrow> (int, unit, unit) ProcEnv" where
  "sample_env mode = \<lparr>metrics_env = \<lparr>ops = sample_f64, enhanced_metrics = True, parse_tags = (\<lambda>_. None),
       tag_order = (\<lambda>_. []), arch = X86_64\<rparr>,
     infer_env = sample_infer_env, dsm_floats = sample_floats, initialization_type = mode, sandbox_init_time = 0,
     canonical_resource_name = None, lambda_proc_enhanced_metrics = False, capture_lambda_payload = False,
     capture_lambda_payload_max_depth = 10, dsm_exchange_name = None, dsm_kafka_group = None,
     extract_from_tags = (\<lambda>_. None), extract_from_json = (\<lambda>_. None), json_parse = (\<lambda>_. None),
     json_print = (\<lambda>_. []), json_as_i64 = (\<lambda>_. None), parse_f64 = (\<lambda>_. None), base64_decode = (\<lambda>_. None),
     sha256 = id, size_of_span = 1\<rparr>"

definition sample_tick :: "nat \<Rightarrow> int Tick" where
  "sample_tick t = \<lparr>readings = \<lparr>now_secs = int t, read_network = None, read_cpu = None, read_uptime = None,
       read_fd_max = 0, read_threads_max = 0, read_tmp_max = None\<rparr>,
     now_ns = int t * 1000000000, instant_now = t * 1000000000, resolved_runtime = ''provided'', span_id1 = 1,
     span_id2 = 2, dsm_now_ns = (\<lambda>_. 0), usage_answer = None\<rparr>"

definition sample_processor :: "(int, unit, unit) Processor" where
  "sample_processor = (Processor_new (sample_env ''on-demand''))
     \<lparr>context_buffer := cb_insert (from_request_id 0 0 ''a'') ContextBuffer_default\<rparr>"

end
