(* ===== verification/SpanProps.thy ===== *)
theory SpanProps
  imports ProcessorSamples
begin

text \<open>
  Properties of the spans of an invocation: the parents of the invocation span, the inferred span and the
  wrapped span, the duration of a wrapped span, and which tags are redacted.
\<close>

section \<open>The chain of spans\<close>

text \<open>
  The invocation span is a child of the inferred span \<open>sid\<close>, whose parent is \<open>pid\<close>, and there is a wrapped
  span \<open>wid\<close>.
\<close>

definition linked :: "u64 \<Rightarrow> u64 \<Rightarrow> u64 \<Rightarrow> ('f, 'ptr, 'md) Context \<Rightarrow> bool" where
  "linked sid pid wid c \<longleftrightarrow> s_parent_id (invocation_span c) = sid
     \<and> (\<exists>s. inferred_span (inferred c) = Some s \<and> s_span_id s = sid \<and> s_parent_id s = pid)
     \<and> (\<exists>ws. wrapped_inferred_span (inferred c) = Some ws \<and> s_span_id ws = wid)"

lemma meta_ids [simp]:
  "s_span_id (meta_insert k v s) = s_span_id s" "s_parent_id (meta_insert k v s) = s_parent_id s"
  "s_trace_id (meta_insert k v s) = s_trace_id s" "s_start (meta_insert k v s) = s_start s"
  "s_duration (meta_insert k v s) = s_duration s"
  "s_span_id (meta_extend m s) = s_span_id s" "s_parent_id (meta_extend m s) = s_parent_id s"
  "s_trace_id (meta_extend m s) = s_trace_id s" "s_start (meta_extend m s) = s_start s"
  by (simp_all add: meta_insert_def meta_extend_def)

lemma appsec_ids [simp]:
  "s_span_id (propagate_appsec env i s) = s_span_id s" "s_parent_id (propagate_appsec env i s) = s_parent_id s"
  "s_trace_id (propagate_appsec env i s) = s_trace_id s" "s_start (propagate_appsec env i s) = s_start s"
  "s_duration (propagate_appsec env i s) = s_duration s"
  by (simp_all add: propagate_appsec_def Let_def split: option.split)

lemma linked_start:
  assumes "inferred_span isd = Some s" and "wrapped_inferred_span isd = Some ws"
  shows "linked (s_span_id s) (case proc_extract_span_context env h pl of Some sc \<Rightarrow> sc_span_id sc | None \<Rightarrow> s_parent_id s)
    (s_span_id ws) (start_instrumentation env isd h pl c)"
  using assms
  by (simp add: linked_def start_instrumentation_def Let_def extend_meta_def set_parent_id_def split: option.split)

lemma linked_status_code:
  "linked sid pid wid c \<Longrightarrow> linked sid pid wid (tag_status_code env pl c)"
  by (auto simp: linked_def tag_status_code_def set_status_code_def Let_def split: option.split)

lemma linked_trace_context:
  assumes "linked sid pid wid c"
  shows "linked sid pid wid (tag_trace_context env h c)"
  using assms
  by (auto simp: linked_def tag_trace_context_def extend_meta_def Let_def split_beta split: option.split)

lemma linked_end:
  assumes "linked sid pid wid c"
  shows "linked sid pid wid (end_instrumentation env h pl c)"
proof -
  define c1 where "c1 = (if capture_lambda_payload env
    then c\<lparr>invocation_span := meta_extend (get_metadata_from_value (json_parse env) (json_print env)
             ''function.response'' pl 0 (capture_lambda_payload_max_depth env)) (invocation_span c)\<rparr> else c)"
  have "linked sid pid wid c1" using assms by (simp add: c1_def linked_def)
  then have "linked sid pid wid (tag_trace_context env h (tag_status_code env pl c1))"
    by (intro linked_trace_context linked_status_code)
  then show ?thesis
    unfolding end_instrumentation_def Let_def c1_def [symmetric] by (simp add: linked_def split: option.split)
qed

lemma chain_complete:
  assumes "inferred_span d = Some s" and "wrapped_inferred_span d = Some ws"
  shows "\<exists>s' ws'. inferred_span (complete_inferred_spans env i d) = Some s'
    \<and> wrapped_inferred_span (complete_inferred_spans env i d) = Some ws'
    \<and> s_span_id s' = s_span_id s \<and> s_parent_id s' = s_span_id ws \<and> s_trace_id s' = s_trace_id i
    \<and> s_span_id ws' = s_span_id ws \<and> s_parent_id ws' = s_parent_id s \<and> s_trace_id ws' = s_trace_id i"
  using assms by (simp add: complete_inferred_spans_def complete_wrapped_def Let_def)

lemma enrich_parts:
  "s_parent_id (invocation_span (enrich_context env tk dyn tracer st c)) = s_parent_id (invocation_span c)
    \<and> inferred (enrich_context env tk dyn tracer st c)
      = complete_inferred_spans (infer_env env) (invocation_span (enrich_context env tk dyn tracer st c)) (inferred c)"
proof -
  define c0 where "c0 = c\<lparr>runtime_done_received := True\<rparr>"
  define c1 where "c1 = (if st = Timeout then c0\<lparr>invocation_span := mark_timeout tk (invocation_span c0)\<rparr> else c0)"
  define c2 where "c2 = c1\<lparr>invocation_span := meta_extend dyn (invocation_span c1)\<rparr>"
  define c3 where "c3 = (case get_trigger_tags (inferred c2) of
      Some t \<Rightarrow> c2\<lparr>invocation_span := meta_extend t (invocation_span c2)\<rparr> | None \<Rightarrow> c2)"
  define c4 where "c4 = (if serverless_appsec_enabled (infer_env env) \<and> s_metrics (invocation_span c3) ''_dd.appsec.enabled'' = None
      then c3\<lparr>invocation_span := (invocation_span c3)
             \<lparr>s_metrics := (s_metrics (invocation_span c3))(''_dd.appsec.enabled'' \<mapsto> f_lit (metric_ops env) 1 0)\<rparr>\<rparr> else c3)"
  have "s_parent_id (invocation_span c1) = s_parent_id (invocation_span c)" "inferred c1 = inferred c"
    by (simp_all add: c1_def c0_def mark_timeout_def Let_def)
  then have "s_parent_id (invocation_span c3) = s_parent_id (invocation_span c)" "inferred c3 = inferred c"
    by (simp_all add: c2_def c3_def split: option.split)
  then have "s_parent_id (invocation_span c4) = s_parent_id (invocation_span c)" "inferred c4 = inferred c"
    by (simp_all add: c4_def)
  moreover define c5 where "c5 = c4\<lparr>inferred := complete_inferred_spans (infer_env env) (invocation_span c4) (inferred c4)\<rparr>"
  moreover define c6 where "c6 = (if s_trace_id (invocation_span c5) \<noteq> 0 \<and> tracer
    then c5\<lparr>cold_start_span := map_option (adopt_trace (invocation_span c5)) (cold_start_span c5)\<rparr> else c5)"
  moreover have "enrich_context env tk dyn tracer st c = (if s_trace_id (invocation_span c6) \<noteq> 0
    then c6\<lparr>snapstart_restore_span := map_option (adopt_trace (invocation_span c6)) (snapstart_restore_span c6)\<rparr> else c6)"
    unfolding enrich_context_def Let_def c0_def [symmetric] c1_def [symmetric] c2_def [symmetric] c3_def [symmetric]
      c4_def [symmetric] c5_def [symmetric] c6_def [symmetric] ..
  ultimately show ?thesis by simp
qed

text \<open>
  C11. The spans of an invocation form one trace and one chain: when an event source gives an inferred and a
  wrapped span, then after the start and the end of the instrumentation and the end of the runtime the
  invocation span is a child of the inferred span, that one of the wrapped span, and that one of the span
  of the upstream trace context (or of the parent the event source gave); all three have the same trace id.
\<close>

theorem spans_form_chain:
  assumes "inferred_span isd = Some s" and "wrapped_inferred_span isd = Some ws"
    and "c' = enrich_context env tk dyn tracer st (end_instrumentation env h' pl' (start_instrumentation env isd h pl c))"
  shows "\<exists>s' ws'. inferred_span (inferred c') = Some s' \<and> wrapped_inferred_span (inferred c') = Some ws'
    \<and> s_span_id s' = s_span_id s \<and> s_span_id ws' = s_span_id ws
    \<and> s_parent_id (invocation_span c') = s_span_id s' \<and> s_parent_id s' = s_span_id ws'
    \<and> s_parent_id ws' = (case proc_extract_span_context env h pl of Some sc \<Rightarrow> sc_span_id sc | None \<Rightarrow> s_parent_id s)
    \<and> s_trace_id s' = s_trace_id (invocation_span c') \<and> s_trace_id ws' = s_trace_id (invocation_span c')"
proof -
  define e where "e = end_instrumentation env h' pl' (start_instrumentation env isd h pl c)"
  define up where "up = (case proc_extract_span_context env h pl of Some sc \<Rightarrow> sc_span_id sc | None \<Rightarrow> s_parent_id s)"
  have "linked (s_span_id s) up (s_span_id ws) e"
    unfolding e_def up_def by (rule linked_end [OF linked_start [OF assms(1,2)]])
  then obtain s1 ws1 where e: "inferred_span (inferred e) = Some s1" "wrapped_inferred_span (inferred e) = Some ws1"
    "s_span_id s1 = s_span_id s" "s_parent_id s1 = up" "s_span_id ws1 = s_span_id ws"
    "s_parent_id (invocation_span e) = s_span_id s" by (auto simp: linked_def)
  have parent: "s_parent_id (invocation_span c') = s_parent_id (invocation_span e)"
    and inferred: "inferred c' = complete_inferred_spans (infer_env env) (invocation_span c') (inferred e)"
    unfolding assms(3) e_def [symmetric] using enrich_parts by blast+
  from chain_complete [OF e(1,2), of "infer_env env" "invocation_span c'"] show ?thesis
    unfolding up_def [symmetric] inferred [symmetric] by (auto simp: parent e)
qed

definition sample_data :: "(int, unit) InferredSpanData" where
  "sample_data = InferredSpanData_default\<lparr>inferred_span := Some (Span_default\<lparr>s_span_id := 5, s_start := 10\<rparr>),
     wrapped_inferred_span := Some (Span_default\<lparr>s_span_id := 6, s_start := 4\<rparr>)\<rparr>"

definition sample_context :: "(int, unit, unit) Context" where
  "sample_context = enrich_context (sample_env ''on-demand'') (sample_tick 1) Map.empty True Success
     (end_instrumentation (sample_env ''on-demand'') [''x-datadog-trace-id'' \<mapsto> ''7''] JNull
       (start_instrumentation (sample_env ''on-demand'') sample_data Map.empty JNull (from_request_id 0 0 ''a'')))"

theorem spans_form_chain_witness:
  "\<exists>s' ws'. inferred_span (inferred sample_context) = Some s' \<and> wrapped_inferred_span (inferred sample_context) = Some ws'
    \<and> s_parent_id (invocation_span sample_context) = s_span_id s' \<and> s_parent_id s' = s_span_id ws' \<and> s_span_id ws' = 6"
proof -
  have "inferred_span sample_data = Some (Span_default\<lparr>s_span_id := 5, s_start := 10\<rparr>)"
    "wrapped_inferred_span sample_data = Some (Span_default\<lparr>s_span_id := 6, s_start := 4\<rparr>)"
    by (simp_all add: sample_data_def)
  from spans_form_chain [OF this sample_context_def] show ?thesis by auto
qed

section \<open>The duration of a wrapped span\<close>

lemma base_service_start [simp]: "s_start (apply_base_service_override env t s) = s_start s"
  by (simp add: apply_base_service_override_def split: option.split)

text \<open>
  C36. The span of an SNS message wrapped in an SQS record gets a negative duration: its duration is taken
  before the inferred span has a start, so it is the negated start of the wrapped span, and the completion
  of the spans keeps it because it is not zero.
\<close>

theorem wrapped_span_duration_negative:
  assumes "from_value env payload = SqsRecord t body hdr" and "sns_of_text env body = Some wt" and "is_async t"
    and "w = s_start (enrich_span wt (service_mapping env) (trace_aws_service_representation_enabled env)
           (Span_default\<lparr>s_span_id := id2\<rparr>))" and "0 < w" and "w < 2 ^ 63"
  shows "\<exists>ws. wrapped_inferred_span (complete_inferred_spans env i (infer_span env id1 id2 payload)) = Some ws
    \<and> s_start ws = w \<and> s_duration ws = - w"
proof -
  define ws where "ws = fst (wrapped_span env id2 wt (Span_default\<lparr>s_span_id := id1\<rparr>))"
  have ws: "s_start ws = w" "s_duration ws = - w"
    using assms(4-6) by (simp_all add: ws_def wrapped_span_def Let_def i64_sub_def Span_default_def)
  define d where "d = infer_span env id1 id2 payload"
  have d: "wrapped_inferred_span d = Some ws" "is_async_span d" "inferred_span d \<noteq> None"
    using assms(1-3)
    by (simp_all add: d_def infer_span_def should_skip_inferred_span_def get_wrapped_inferred_span_def ws_def Let_def split_beta map_prod_def)
  then show ?thesis
    using ws assms(5) unfolding d_def [symmetric]
    by (auto simp: complete_inferred_spans_def complete_wrapped_def Let_def)
qed

definition sample_trigger :: "int \<Rightarrow> int Trigger" where
  "sample_trigger start = \<lparr>enrich_span = (\<lambda>_ _ s. s\<lparr>s_start := start\<rparr>), get_tags = Map.empty, get_arn = id,
     get_carrier = Map.empty, is_async = True, get_specific_identifier = [], get_generic_identifier = [],
     get_dd_resource_key = (\<lambda>_. None), get_dsm_checkpoints = (\<lambda>_. [])\<rparr>"

theorem wrapped_span_duration_negative_witness:
  "\<exists>ws. wrapped_inferred_span (complete_inferred_spans
      (sample_infer_env\<lparr>from_value := \<lambda>_. SqsRecord (sample_trigger 9) [] None, sns_of_text := \<lambda>_. Some (sample_trigger 4)\<rparr>)
      Span_default (infer_span
      (sample_infer_env\<lparr>from_value := \<lambda>_. SqsRecord (sample_trigger 9) [] None, sns_of_text := \<lambda>_. Some (sample_trigger 4)\<rparr>)
      1 2 JNull)) = Some ws \<and> s_start ws = 4 \<and> s_duration ws = - 4"
  by (rule wrapped_span_duration_negative [where t = "sample_trigger 9" and wt = "sample_trigger 4" and body = "[]" and hdr = None])
    (simp_all add: sample_infer_env_def, simp_all add: sample_trigger_def)

section \<open>Redaction\<close>

text \<open>
  Under a redactable key a text that is not JSON is always redacted, but a number is tagged in clear,
  also when it is given as a text: a password of digits is not redacted.
\<close>

theorem redaction_covers_only_plain_text:
  assumes "last_segment key \<in> set REDACTABLE_KEYS" and "depth + 1 < max_depth"
  shows "(parse s = None \<longrightarrow> get_metadata_from_value parse print key (JString s) depth max_depth = [key \<mapsto> ''redacted''])
    \<and> (parse s = Some (JNumber n) \<longrightarrow> get_metadata_from_value parse print key (JString s) depth max_depth = [key \<mapsto> n])
    \<and> get_metadata_from_value parse print key (JNumber n) depth max_depth = [key \<mapsto> n]"
  using assms by (simp add: get_metadata_from_value.simps redact_value_def)

theorem redaction_covers_only_plain_text_witness:
  "get_metadata_from_value (\<lambda>s. if s = ''12345'' then Some (JNumber s) else None) (\<lambda>_. []) ''function.request.password''
      (JString ''12345'') 0 10 = [''function.request.password'' \<mapsto> ''12345'']
    \<and> get_metadata_from_value (\<lambda>s. if s = ''12345'' then Some (JNumber s) else None) (\<lambda>_. []) ''function.request.password''
      (JString ''abc'') 0 10 = [''function.request.password'' \<mapsto> ''redacted'']"
proof -
  let ?parse = "\<lambda>s. if s = ''12345'' then Some (JNumber s) else None"
  have "last_segment ''function.request.password'' \<in> set REDACTABLE_KEYS" by code_simp
  from redaction_covers_only_plain_text [OF this, of 0 10 ?parse "''12345''" "\<lambda>_. []" "''12345''"]
    redaction_covers_only_plain_text [OF this, of 0 10 ?parse "''abc''" "\<lambda>_. []" "''abc''"]
  show ?thesis by simp
qed

end
