(* ===== verification/ProcessorFrames.thy ===== *)
theory ProcessorFrames
  imports InvocationProcessor
begin

text \<open>
  What the handlers of the invocation processor leave alone. Two views of the state are followed
  through every handler: the counters of the metrics that must be emitted once (\<open>counts\<close>, with the two
  flags that guard them, as \<open>core\<close>), and the contexts with the reparenting list (\<open>kept\<close>). The
  properties of whole runs rest on one lemma per handler for each view.
\<close>

section \<open>Counting metrics\<close>

definition n_metric :: "string \<Rightarrow> ('f, 'g) LambdaMetrics \<Rightarrow> nat" where
  "n_metric name m = length (filter (\<lambda>x. metric_name x = name) (emitted m))"

text \<open>Invocations, init durations and out-of-memory errors.\<close>

definition counts :: "('f, 'g) LambdaMetrics \<Rightarrow> nat \<times> nat \<times> nat" where
  "counts m = (n_metric INVOCATIONS_METRIC m, n_metric INIT_DURATION_METRIC m, n_metric OUT_OF_MEMORY_METRIC m)"

lemmas metric_names = INVOCATIONS_METRIC_def ERRORS_METRIC_def TIMEOUTS_METRIC_def OUT_OF_MEMORY_METRIC_def
  INIT_DURATION_METRIC_def SHUTDOWNS_METRIC_def UNUSED_INIT_def

named_theorems counts_simps \<open>effect of an operation of the metrics on the counters\<close>

lemma n_metric_emit:
  "n_metric name (emit env name' v ts m) = n_metric name m + (if name' = name then 1 else 0)"
  by (simp add: n_metric_def emit_def)

lemma counts_cong: "emitted m' = emitted m \<Longrightarrow> counts m' = counts m"
  by (simp add: counts_def n_metric_def)

lemma counts_untracked:
  assumes "name \<noteq> INVOCATIONS_METRIC" "name \<noteq> INIT_DURATION_METRIC" "name \<noteq> OUT_OF_MEMORY_METRIC"
  shows "counts (emit env name v ts m) = counts m"
  using assms by (simp add: counts_def n_metric_emit)

lemma counts_quiet [counts_simps]:
  "counts (set_init_tags_metrics b1 b2 m) = counts m"
  "counts (set_runtime_tag r m) = counts m"
  "counts (set_durable_function_tag m) = counts m"
  "counts (set_invoked_received m) = counts m"
  "counts (restart_usage_metrics_monitoring env m) = counts m"
  "counts (resume_usage_metrics_monitoring env m) = counts m"
  "counts (pause_usage_metrics_monitoring env m) = counts m"
  by (rule counts_cong, simp add: set_init_tags_metrics_def set_runtime_tag_def set_durable_function_tag_def
      set_invoked_received_def restart_usage_metrics_monitoring_def resume_usage_metrics_monitoring_def
      pause_usage_metrics_monitoring_def Let_def)+

lemma counts_other [counts_simps]:
  "counts (increment_errors_metric env ts m) = counts m"
  "counts (increment_timeout_metric env ts m) = counts m"
  "counts (set_shutdown_metric env ts m) = counts m"
  "counts (set_unused_init_metric env ts m) = counts m"
  "counts (set_snapstart_restore_duration_metric env ms ts m) = counts m"
  "counts (set_post_runtime_duration_metric env ms ts m) = counts m"
  by (simp_all add: increment_errors_metric_def increment_timeout_metric_def increment_metric_def
      set_shutdown_metric_def set_unused_init_metric_def set_snapstart_restore_duration_metric_def
      set_post_runtime_duration_metric_def counts_untracked metric_names)

lemma counts_runtime_done [counts_simps]:
  "counts (set_runtime_done_metrics env rdm ts m) = counts m"
  by (simp add: set_runtime_done_metrics_def Let_def counts_untracked metric_names split: option.splits)

lemma counts_network [counts_simps]:
  "counts (set_network_enhanced_metrics env rd off m) = counts m"
  by (simp add: set_network_enhanced_metrics_def generate_network_enhanced_metrics_def Let_def counts_untracked
      metric_names split: option.splits)

lemma counts_cpu_time [counts_simps]:
  "counts (set_cpu_time_enhanced_metrics env rd off m) = counts m"
  by (simp add: set_cpu_time_enhanced_metrics_def generate_cpu_time_enhanced_metrics_def Let_def counts_untracked
      metric_names split: option.splits)

lemma counts_cpu_utilization [counts_simps]:
  "counts (set_cpu_utilization_enhanced_metrics env rd coff uoff m) = counts m"
  by (simp add: set_cpu_utilization_enhanced_metrics_def generate_cpu_utilization_enhanced_metrics_def Let_def
      counts_untracked metric_names split: option.splits prod.splits)

lemma counts_report [counts_simps]:
  "counts (set_report_log_metrics env rm ts m) = counts m"
  by (simp add: set_report_log_metrics_def Let_def counts_untracked metric_names split: ReportMetrics.splits)

lemma counts_max [counts_simps]: "counts (set_max_enhanced_metrics env rd m) = counts m"
  by (simp add: set_max_enhanced_metrics_def counts_untracked metric_names)

lemma counts_usage [counts_simps]: "counts (set_usage_enhanced_metrics env rd usage m) = counts m"
proof -
  have "counts (emit_usage env rd u m) = counts m" for u and m :: "('a, 'b) LambdaMetrics"
    by (simp add: emit_usage_def Let_def counts_untracked metric_names split: option.splits)
  moreover have "counts (m\<lparr>monitoring := False, usage_commands := cs\<rparr>) = counts m" for cs
    by (rule counts_cong) simp
  ultimately show ?thesis by (simp add: set_usage_enhanced_metrics_def Let_def split: option.splits)
qed

lemma counts_invocation [counts_simps]:
  "enhanced_metrics env \<Longrightarrow> counts (increment_invocation_metric env ts m)
     = (fst (counts m) + 1, snd (counts m))"
  by (simp add: increment_invocation_metric_def increment_metric_def counts_def n_metric_emit metric_names)

lemma counts_oom [counts_simps]:
  "enhanced_metrics env \<Longrightarrow> counts (increment_oom_metric env ts m)
     = (fst (counts m), fst (snd (counts m)), snd (snd (counts m)) + 1)"
  by (simp add: increment_oom_metric_def increment_metric_def counts_def n_metric_emit metric_names)

lemma counts_init_duration [counts_simps]:
  "enhanced_metrics env \<Longrightarrow> counts (set_init_duration_metric env it ms ts m)
     = (fst (counts m), fst (snd (counts m)) + 1, snd (snd (counts m)))"
  by (simp add: set_init_duration_metric_def counts_def n_metric_emit metric_names)
    (simp add: n_metric_def)

section \<open>The view of the counters\<close>

definition core :: "('f, 'g, 'ptr) Processor \<Rightarrow> (nat \<times> nat \<times> nat) \<times> FirstInvocationMetricStatus \<times> bool" where
  "core p = (counts (lambda_metrics p), first_invocation_metric_status p, init_duration_metric_emitted p)"

lemma core_set_init_tags: "core (set_init_tags env tk p) = core p"
  by (simp add: core_def set_init_tags_def Let_def counts_simps split: option.splits)

lemma core_new_invocation: "core (new_invocation env tk rid p) = core p"
  using core_set_init_tags [of env tk p] by (simp add: core_def new_invocation_def Let_def)

lemma core_open_context: "core (open_context env tk rid p) = core p"
  using core_new_invocation [of env tk rid p]
  by (simp add: core_def open_context_def Let_def split: prod.splits)

lemma core_start_monitoring: "core (start_monitoring env tk rid p) = core p"
  by (simp add: core_def start_monitoring_def Let_def counts_simps)

lemma core_process_end: "core (process_on_universal_instrumentation_end env tk rid h pl p) = core p"
  by (simp add: core_def process_on_universal_instrumentation_end_def Let_def counts_simps split: option.splits)

lemma core_buffer [simp]: "core (p\<lparr>context_buffer := cb\<rparr>) = core p"
  by (simp add: core_def)

lemma core_on_end: "core (on_universal_instrumentation_end env tk h pl rid p) = core p"
  by (simp add: on_universal_instrumentation_end_def Let_def core_process_end split: option.splits prod.splits)

lemma core_send: "core (send_ctx_spans env c p) = core p" "core (send_cold_start_span env p) = core p"
  by (simp_all add: core_def send_ctx_spans_def send_cold_start_span_def send_spans_def split: option.splits prod.splits)

lemma core_process_runtime_done: "core (process_on_platform_runtime_done env tk rid st p) = core p"
proof -
  have "core (snd (enrich_ctx_at_platform_done env tk rid st p)) = core p"
    by (simp add: core_def enrich_ctx_at_platform_done_def Let_def counts_simps split: option.splits)
  then show ?thesis
    by (simp add: process_on_platform_runtime_done_def split_beta core_send split: option.splits)
qed

lemma core_release: "core (release_invocation_context rid p) = core p"
  by (simp add: core_def release_invocation_context_def)

lemma core_reparenting: "core (snd (update_reparenting infos p)) = core p"
proof (induction infos arbitrary: p)
  case (Cons info infos)
  show ?case
    by (simp add: split_beta Let_def Cons split: option.splits)
qed simp

lemma core_others:
  "core (add_reparenting rid sid pid p) = core p"
  "core (snd (set_cold_start_span_trace_id tid p)) = core p"
  "core (add_tracer_span s cs p) = core p"
  "core (forward_durable_context u p) = core p"
  "core (on_platform_restore_report env ms ts p) = core p"
  by (simp_all add: core_def add_reparenting_def set_cold_start_span_trace_id_def add_tracer_span_def
      forward_durable_context_def on_platform_restore_report_def counts_simps Let_def split: option.splits)

section \<open>The view of the contexts\<close>

text \<open>Most updates keep the request id of a context and its out-of-memory flag.\<close>

definition ctx_same :: "('f, 'ptr, 'md) Context \<Rightarrow> ('f, 'ptr, 'md) Context \<Rightarrow> bool" where
  "ctx_same c c' \<longleftrightarrow> request_id c' = request_id c \<and> oom_emitted c' = oom_emitted c"

definition kept :: "('f, 'ptr, 'md) ContextBuffer \<Rightarrow> ('f, 'ptr, 'md) ContextBuffer \<Rightarrow> bool" where
  "kept cb cb' \<longleftrightarrow> list_all2 ctx_same (buffer cb) (buffer cb') \<and> buffer_capacity cb' = buffer_capacity cb
     \<and> map ri_request_id (sorted_reparenting_info cb') = map ri_request_id (sorted_reparenting_info cb)"

lemma ctx_same_refl [simp]: "ctx_same c c"
  by (simp add: ctx_same_def)

lemma ctx_same_trans: "ctx_same a b \<Longrightarrow> ctx_same b c \<Longrightarrow> ctx_same a c"
  by (simp add: ctx_same_def)

lemma kept_refl [simp]: "kept cb cb"
  by (simp add: kept_def list_all2_refl)

lemma kept_trans:
  assumes "kept a b" and "kept b c"
  shows "kept a c"
  using assms by (auto simp: kept_def list_all2_conv_all_nth ctx_same_def)

lemma kept_same:
  "buffer cb' = buffer cb \<Longrightarrow> buffer_capacity cb' = buffer_capacity cb
    \<Longrightarrow> sorted_reparenting_info cb' = sorted_reparenting_info cb \<Longrightarrow> kept cb cb'"
  by (simp add: kept_def list_all2_refl)

lemma list_all2_update_first:
  assumes "\<And>x. R x x" and "\<And>x. R x (f x)"
  shows "list_all2 R xs (update_first P f xs)"
  by (induction xs) (simp_all add: assms list_all2_refl)

lemma kept_update:
  assumes "\<And>c. ctx_same c (f c)"
  shows "kept cb (cb_update rid f cb)"
  using list_all2_update_first [of ctx_same f "buffer cb" "for_request rid"] assms
  by (simp add: kept_def cb_update_def)

lemma kept_update_closest:
  assumes "\<And>c. ctx_same c (f c)"
  shows "kept cb (update_closest t f cb)"
proof -
  have "list_all2 ctx_same xs (xs[i := f (xs ! i)])" for xs i
    by (cases "i < length xs") (simp_all add: list_all2_conv_all_nth nth_list_update assms)
  then show ?thesis by (simp add: kept_def update_closest_def list_all2_refl split: option.splits)
qed

text \<open>The updates the handlers make.\<close>

named_theorems ctx_same_intros \<open>updates that keep a context\<close>

lemma ctx_same_start [ctx_same_intros]: "ctx_same c (start_instrumentation env isd h pl c)"
  by (simp add: ctx_same_def start_instrumentation_def Let_def split: option.splits)

lemma ctx_same_status [ctx_same_intros]: "ctx_same c (tag_status_code env pl c)"
  by (simp add: ctx_same_def tag_status_code_def Let_def split: option.splits)

lemma ctx_same_trace [ctx_same_intros]: "ctx_same c (tag_trace_context env h c)"
  by (simp add: ctx_same_def tag_trace_context_def Let_def split: option.splits prod.splits)

lemma ctx_same_end [ctx_same_intros]: "ctx_same c (end_instrumentation env h pl c)"
proof -
  define c1 where "c1 = (if capture_lambda_payload env
    then c\<lparr>invocation_span := meta_extend (get_metadata_from_value (json_parse env) (json_print env)
             ''function.response'' pl 0 (capture_lambda_payload_max_depth env)) (invocation_span c)\<rparr> else c)"
  have "ctx_same c c1" by (simp add: c1_def ctx_same_def)
  moreover have "ctx_same c1 (tag_trace_context env h (tag_status_code env pl c1))"
    by (rule ctx_same_trans [OF ctx_same_status ctx_same_trace])
  ultimately show ?thesis
    by (simp add: end_instrumentation_def Let_def c1_def [symmetric] ctx_same_def split: option.splits)
qed

lemma ctx_same_enrich [ctx_same_intros]: "ctx_same c (enrich_context env tk dyn tracer st c)"
  by (simp add: ctx_same_def enrich_context_def Let_def split: option.splits)

lemma ctx_same_reparent [ctx_same_intros]: "ctx_same c (reparent_context info c)"
  by (simp add: ctx_same_def reparent_context_def Let_def)

lemma kept_pairing:
  "kept cb (snd (pair_invoke_event rid cb))"
  "kept cb (snd (pair_universal_instrumentation_start_event h pl cb))"
  "kept cb (snd (pair_universal_instrumentation_end_event h pl cb))"
  "kept cb (snd (pair_platform_runtime_done_event rid cb))"
  "kept cb (snd (pair_universal_instrumentation_start_with_request_id rid h pl cb))"
  "kept cb (snd (take_universal_instrumentation_start_for_request_id rid cb))"
  "kept cb (snd (pair_universal_instrumentation_end_with_request_id rid h pl cb))"
  "kept cb (snd (take_universal_instrumentation_end_for_request_id rid cb))"
  by (simp_all add: kept_def list_all2_refl pair_invoke_event_def pair_universal_instrumentation_start_event_def
      pair_universal_instrumentation_end_event_def pair_platform_runtime_done_event_def
      pair_universal_instrumentation_start_with_request_id_def take_universal_instrumentation_start_for_request_id_def
      pair_universal_instrumentation_end_with_request_id_def take_universal_instrumentation_end_for_request_id_def
      split: list.splits)

abbreviation kept_proc :: "('f, 'g, 'ptr) Processor \<Rightarrow> ('f, 'g, 'ptr) Processor \<Rightarrow> bool" where
  "kept_proc p p' \<equiv> kept (context_buffer p) (context_buffer p')"

lemma kept_process_end: "kept_proc p (process_on_universal_instrumentation_end env tk rid h pl p)"
  by (simp add: process_on_universal_instrumentation_end_def Let_def kept_update ctx_same_intros split: option.splits)

lemma kept_on_end: "kept_proc p (on_universal_instrumentation_end env tk h pl rid p)"
proof -
  have step: "kept cb (context_buffer (process_on_universal_instrumentation_end env tk r h pl (p\<lparr>context_buffer := cb\<rparr>)))"
    for cb r using kept_process_end [of "p\<lparr>context_buffer := cb\<rparr>"] by simp
  show ?thesis
    by (cases rid) (auto simp: on_universal_instrumentation_end_def Let_def split_beta kept_pairing
        intro: kept_trans [OF _ step] split: option.splits)
qed

lemma kept_send [simp]:
  "context_buffer (send_ctx_spans env c p) = context_buffer p"
  "context_buffer (send_cold_start_span env p) = context_buffer p"
  by (simp_all add: send_ctx_spans_def send_cold_start_span_def send_spans_def split: option.splits prod.splits)

lemma kept_process_runtime_done: "kept_proc p (process_on_platform_runtime_done env tk rid st p)"
proof -
  have "kept_proc p (snd (enrich_ctx_at_platform_done env tk rid st p))"
    by (simp add: enrich_ctx_at_platform_done_def Let_def kept_update ctx_same_intros split: option.splits)
  then show ?thesis
    by (simp add: process_on_platform_runtime_done_def split_beta split: option.splits)
qed

end
