(* ===== verification/ProcessorRuns.thy ===== *)
theory ProcessorRuns
  imports ProcessorFrames
begin

text \<open>
  Properties of whole runs of the invocation processor. One lemma per handler says that it returns and
  what it adds to the tally of invocations and init durations; the properties are inductions over the
  commands. A handler panics only on a time before the epoch or on a data streams value outside the
  range of the sketch, which \<open>command_ok\<close> and \<open>dsm_safe\<close> exclude.
\<close>

section \<open>Data streams never panic\<close>

text \<open>The latencies and payload sizes have sketch keys in range, as finite \<open>f64\<close> numbers do.\<close>

definition dsm_safe :: "('f, 'g, 'ptr) ProcEnv \<Rightarrow> bool" where
  "dsm_safe env \<longleftrightarrow> (\<forall>ns. accepts (dsm_floats env) (in_seconds (dsm_floats env) ns))
     \<and> (\<forall>payload t c. get_trigger_type (from_value (infer_env env) payload) = Some t
          \<longrightarrow> c \<in> set (get_dsm_checkpoints t payload) \<longrightarrow> accepts (dsm_floats env) (dci_payload_size_bytes c))"

definition dsm_holds :: "DsmProcessor \<Rightarrow> bool" where
  "dsm_holds d \<longleftrightarrow> (\<exists>slots. agg_holds slots (dp_aggregator d))"

definition dsm_ok :: "('f, 'g, 'ptr) Processor \<Rightarrow> bool" where
  "dsm_ok p \<longleftrightarrow> (\<forall>d. dsm_processor p = Some d \<longrightarrow> dsm_holds d)"

lemma dsm_ok_cong: "dsm_processor p' = dsm_processor p \<Longrightarrow> dsm_ok p \<Longrightarrow> dsm_ok p'"
  by (simp add: dsm_ok_def)

lemma record_consume_holds:
  assumes "dsm_holds d" and "\<And>ns. accepts fl (in_seconds fl ns)" and "accepts fl sz"
  shows "\<exists>d'. record_consume sha dec fl now edge_tags carrier sz d = Some d' \<and> dsm_holds d'"
proof -
  from assms(1) obtain slots where slots: "agg_holds slots (dp_aggregator d)" by (auto simp: dsm_holds_def)
  define cp where "cp = compute_consume_checkpoint sha (dp_service d) (dp_env d) edge_tags
    (extract_pathway_context dec carrier) now None"
  have "point_accepts fl (cp, sz)" by (simp add: point_accepts_def assms(2,3))
  from agg_add_holds [OF slots this] obtain agg where
    "agg_add fl cp sz (dp_aggregator d) = Some agg" "agg_holds (cp_slot (cp, sz) # slots) agg" by blast
  then show ?thesis by (auto simp: record_consume_def Let_def cp_def [symmetric] dsm_holds_def)
qed

lemma record_checkpoints_holds:
  assumes "dsm_holds d" and "\<And>ns. accepts (dsm_floats env) (in_seconds (dsm_floats env) ns)"
    and "\<forall>c \<in> set cs. accepts (dsm_floats env) (dci_payload_size_bytes c)"
  shows "\<exists>d'. record_checkpoints env now i cs d = Some d' \<and> dsm_holds d'"
  using assms(1,3)
proof (induction cs arbitrary: d i)
  case (Cons c cs)
  from record_consume_holds [OF Cons.prems(1) assms(2), of "dci_payload_size_bytes c"] Cons.prems(2)
  obtain d1 where "record_consume (sha256 env) (base64_decode env) (dsm_floats env) (now i)
      (apply_dsm_kafka_group_fallback (dsm_kafka_group env)
        (resolve_dsm_eventbridge_exchange (dsm_exchange_name env) (dci_edge_tags c)))
      (dci_carrier c) (dci_payload_size_bytes c) d = Some d1" "dsm_holds d1" by fastforce
  with Cons.IH [of d1 "Suc i"] Cons.prems(2) show ?case by (simp add: Let_def)
qed simp

text \<open>Recording a payload changes only the data streams part of the state.\<close>

lemma record_dsm_total:
  assumes "dsm_safe env" and "dsm_ok p"
  shows "\<exists>d ids. record_dsm_consume_from_payload env tk rid pl p
      = Some (p\<lparr>dsm_processor := d, dsm_processed_request_ids := ids\<rparr>)
    \<and> dsm_ok (p\<lparr>dsm_processor := d, dsm_processed_request_ids := ids\<rparr>)"
proof (cases "dsm_processor p")
  case None
  then show ?thesis
    by (intro exI [of _ None] exI [of _ "dsm_processed_request_ids p"])
      (simp add: record_dsm_consume_from_payload_def dsm_ok_def)
next
  case (Some d)
  define ids where "ids = insert rid (dsm_processed_request_ids p)"
  have d: "dsm_holds d" using assms(2) Some by (simp add: dsm_ok_def)
  show ?thesis
  proof (cases "rid \<in> dsm_processed_request_ids p")
    case True
    with Some d show ?thesis
      by (intro exI [of _ "Some d"] exI [of _ "dsm_processed_request_ids p"])
        (simp add: record_dsm_consume_from_payload_def dsm_ok_def)
  next
    case new: False
    show ?thesis
    proof (cases "get_trigger_type (from_value (infer_env env) pl)")
      case None
      with Some new d show ?thesis
        by (intro exI [of _ "Some d"] exI [of _ ids])
          (simp add: record_dsm_consume_from_payload_def dsm_ok_def ids_def)
    next
      case t: (Some t)
      have "\<exists>d'. record_checkpoints env (dsm_now_ns tk) 0 (get_dsm_checkpoints t pl) d = Some d' \<and> dsm_holds d'"
        using assms(1) t by (intro record_checkpoints_holds d) (auto simp: dsm_safe_def)
      then obtain d' where "record_checkpoints env (dsm_now_ns tk) 0 (get_dsm_checkpoints t pl) d = Some d'"
        "dsm_holds d'" by blast
      with Some new t show ?thesis
        by (intro exI [of _ "Some d'"] exI [of _ ids])
          (simp add: record_dsm_consume_from_payload_def dsm_ok_def ids_def)
    qed
  qed
qed

section \<open>Bounds of the buffer\<close>

definition buf_ok :: "('f, 'ptr, 'md) ContextBuffer \<Rightarrow> bool" where
  "buf_ok cb \<longleftrightarrow> buffer_capacity cb = 500 \<and> length (buffer cb) \<le> 500
     \<and> length (sorted_reparenting_info cb) \<le> 500 \<and> distinct (map ri_request_id (sorted_reparenting_info cb))"

lemma kept_buf_ok:
  assumes "kept cb cb'" and "buf_ok cb"
  shows "buf_ok cb'"
proof -
  have "length (sorted_reparenting_info cb') = length (sorted_reparenting_info cb)"
    using assms(1) by (metis kept_def length_map)
  moreover have "length (buffer cb') = length (buffer cb)"
    using assms(1) by (metis kept_def list_all2_lengthD)
  ultimately show ?thesis using assms by (simp add: buf_ok_def kept_def)
qed

lemma length_update_first [simp]: "length (update_first P f xs) = length xs"
  by (induction xs) simp_all

lemma length_remove_first: "length (remove_first P xs) \<le> length xs"
  by (induction xs) auto

lemma buf_ok_start_context:
  assumes "buf_ok cb"
  shows "buf_ok (start_context f0 now rid span cb)"
proof -
  have "Suc (length (remove_first P (buffer cb))) \<le> 500" if "length (buffer cb) < 500" for P
    using length_remove_first [of P "buffer cb"] that by simp
  with assms show ?thesis
    by (auto simp: buf_ok_def start_context_def cb_insert_def cb_size_def cb_remove_def Let_def)
qed

lemma buf_ok_update [simp]: "buf_ok (cb_update rid f cb) = buf_ok cb"
  by (simp add: buf_ok_def cb_update_def)

lemma buf_ok_update_empty: "buf_ok cb \<Longrightarrow> buf_ok (snd (update_empty_context_request_id rid cb))"
  by (simp add: update_empty_context_request_id_def)

lemma buf_ok_release:
  assumes "buf_ok (context_buffer p)"
  shows "buf_ok (context_buffer (release_invocation_context rid p))"
  using assms length_remove_first [of "for_request rid" "buffer (context_buffer p)"]
  by (auto simp: buf_ok_def release_invocation_context_def cb_remove_def distinct_map_filter
      intro: order_trans [OF length_filter_le])

lemma buf_ok_add_reparenting:
  assumes "buf_ok (context_buffer p)"
  shows "buf_ok (context_buffer (add_reparenting rid sid pid p))"
proof -
  have "distinct (tl (map ri_request_id infos))" "set (tl infos) \<subseteq> set infos"
    if "distinct (map ri_request_id infos)" for infos
    using that by (cases infos; auto)+
  with assms show ?thesis
    by (auto simp: buf_ok_def add_reparenting_def Let_def map_tl dest: list.set_sel(2))
qed

section \<open>The tally of a step\<close>

text \<open>Invocations counted or held back, init durations emitted, and whether one was.\<close>

definition counted :: "('f, 'g, 'ptr) Processor \<Rightarrow> nat" where
  "counted p = n_metric INVOCATIONS_METRIC (lambda_metrics p)
     + (case first_invocation_metric_status p of HeldBack _ \<Rightarrow> 1 | _ \<Rightarrow> 0)"

definition tally :: "('f, 'g, 'ptr) Processor \<Rightarrow> nat \<times> nat \<times> bool" where
  "tally p = (counted p, n_metric INIT_DURATION_METRIC (lambda_metrics p), init_duration_metric_emitted p)"

definition proc_ok :: "('f, 'g, 'ptr) Processor \<Rightarrow> bool" where
  "proc_ok p \<longleftrightarrow> dsm_ok p \<and> buf_ok (context_buffer p)"

text \<open>A step that returns, keeps the invariant, and counts \<open>k\<close> invocations and, if \<open>b\<close>, the init duration.\<close>

definition adds :: "nat \<Rightarrow> bool \<Rightarrow> ('f, 'g, 'ptr) Processor \<Rightarrow> ('f, 'g, 'ptr) Processor option \<Rightarrow> bool" where
  "adds k b p r \<longleftrightarrow> (\<exists>p'. r = Some p' \<and> proc_ok p' \<and>
     tally p' = (counted p + k, n_metric INIT_DURATION_METRIC (lambda_metrics p)
                   + (if b \<and> \<not> init_duration_metric_emitted p then 1 else 0), init_duration_metric_emitted p \<or> b))"

lemma tally_core: "core p' = core p \<Longrightarrow> tally p' = tally p"
  by (simp add: tally_def counted_def core_def counts_def)

lemma addsI:
  assumes "tally p' = tally p" and "proc_ok p'"
  shows "adds 0 False p (Some p')"
  using assms by (simp add: adds_def tally_def)

lemma adds_calm:
  assumes "core p' = core p" and "kept_proc p p'" and "dsm_processor p' = dsm_processor p" and "proc_ok p"
  shows "adds 0 False p (Some p')"
  using assms by (intro addsI tally_core) (auto simp: proc_ok_def intro: kept_buf_ok dsm_ok_cong)

lemma adds_trans:
  assumes "adds 0 False p (Some p1)" and "proc_ok p1 \<Longrightarrow> adds k b p1 r"
  shows "adds k b p r"
  using assms by (auto simp: adds_def tally_def)

lemma adds_trans_calm:
  assumes "adds k b p (Some p1)" and "proc_ok p1 \<Longrightarrow> adds 0 False p1 r"
  shows "adds k b p r"
  using assms by (auto simp: adds_def tally_def)

section \<open>The handlers\<close>

named_theorems dsm_frames \<open>handlers that leave the data streams processor alone\<close>

lemma dsm_open [dsm_frames]:
  "dsm_processor (set_init_tags env tk p) = dsm_processor p"
  "dsm_processor (new_invocation env tk rid p) = dsm_processor p"
  "dsm_processor (open_context env tk rid p) = dsm_processor p"
  "dsm_processor (start_monitoring env tk rid p) = dsm_processor p"
  "dsm_processor (count_invocation env tk st p) = dsm_processor p"
proof -
  show init: "dsm_processor (set_init_tags env tk p) = dsm_processor p" for p
    by (simp add: set_init_tags_def Let_def split: option.splits)
  show new: "dsm_processor (new_invocation env tk rid p) = dsm_processor p" for p
    by (simp add: new_invocation_def Let_def init)
  show "dsm_processor (open_context env tk rid p) = dsm_processor p"
    by (simp add: open_context_def Let_def new split: prod.splits)
  show "dsm_processor (start_monitoring env tk rid p) = dsm_processor p"
    by (simp add: start_monitoring_def Let_def)
  show "dsm_processor (count_invocation env tk st p) = dsm_processor p"
    by (simp add: count_invocation_def Let_def)
qed

lemma dsm_end [dsm_frames]:
  "dsm_processor (process_on_universal_instrumentation_end env tk rid h pl p) = dsm_processor p"
  "dsm_processor (try_increment_oom_metric env r ts p) = dsm_processor p"
  "dsm_processor (send_ctx_spans env c p) = dsm_processor p"
  "dsm_processor (send_cold_start_span env p) = dsm_processor p"
  "dsm_processor (flush_pending_first_invocation_metric env p) = dsm_processor p"
  by (simp_all add: process_on_universal_instrumentation_end_def try_increment_oom_metric_def Let_def
      send_ctx_spans_def send_cold_start_span_def send_spans_def flush_pending_first_invocation_metric_def
      split: option.splits prod.splits FirstInvocationMetricStatus.splits)

lemma dsm_runtime_done [dsm_frames]:
  "dsm_processor (process_on_platform_runtime_done env tk rid st p) = dsm_processor p"
proof -
  have "dsm_processor (snd (enrich_ctx_at_platform_done env tk rid st p)) = dsm_processor p"
    by (simp add: enrich_ctx_at_platform_done_def Let_def split: option.splits)
  then show ?thesis
    by (simp add: process_on_platform_runtime_done_def split_beta dsm_frames split: option.splits)
qed

lemma adds_same: "proc_ok p \<Longrightarrow> adds 0 False p (Some p)"
  by (rule addsI) simp_all

lemma adds_buffer:
  assumes "kept (context_buffer p) cb" and "proc_ok p"
  shows "adds 0 False p (Some (p\<lparr>context_buffer := cb\<rparr>))"
  by (rule adds_calm) (use assms in simp_all)

lemma adds_record_dsm:
  assumes "dsm_safe env" and "proc_ok p"
  shows "adds 0 False p (record_dsm_consume_from_payload env tk rid pl p)"
proof -
  obtain d ids where r: "record_dsm_consume_from_payload env tk rid pl p
      = Some (p\<lparr>dsm_processor := d, dsm_processed_request_ids := ids\<rparr>)"
    and ok: "dsm_ok (p\<lparr>dsm_processor := d, dsm_processed_request_ids := ids\<rparr>)"
    using record_dsm_total [OF assms(1), of p tk rid pl] assms(2) by (auto simp: proc_ok_def)
  show ?thesis unfolding r
    by (rule addsI) (use ok assms(2) in \<open>simp_all add: proc_ok_def tally_def counted_def\<close>)
qed

lemma adds_process_start:
  assumes "dsm_safe env" and "proc_ok p"
  shows "adds 0 False p (process_on_universal_instrumentation_start env tk rid h pl p)"
proof (cases "cb_get rid (context_buffer p) = None")
  case True
  with assms(2) show ?thesis by (simp add: process_on_universal_instrumentation_start_def adds_same)
next
  case False
  show ?thesis
    unfolding process_on_universal_instrumentation_start_def Let_def if_not_P [OF False]
    by (rule adds_trans [OF adds_buffer adds_record_dsm])
      (use assms in \<open>simp_all add: kept_update ctx_same_intros\<close>)
qed

lemma n_metric_invoked [simp]: "n_metric name (set_invoked_received m) = n_metric name m"
  by (simp add: n_metric_def set_invoked_received_def)

lemma n_metric_invocation:
  assumes "enhanced_metrics env"
  shows "n_metric INVOCATIONS_METRIC (increment_invocation_metric env ts m) = Suc (n_metric INVOCATIONS_METRIC m)"
    and "n_metric INIT_DURATION_METRIC (increment_invocation_metric env ts m) = n_metric INIT_DURATION_METRIC m"
  using counts_invocation [OF assms, of ts m] by (simp_all add: counts_def)

lemma adds_count_invocation:
  assumes "enhanced_metrics (metrics_env env)" and "proc_ok p" and "first_invocation_metric_status p = st"
  shows "adds 1 False p (Some (count_invocation env tk st p))"
proof -
  have "proc_ok (count_invocation env tk st p)"
    using assms(2) by (simp add: proc_ok_def dsm_ok_def dsm_frames) (simp add: count_invocation_def Let_def)
  moreover have "tally (count_invocation env tk st p)
      = (counted p + 1, n_metric INIT_DURATION_METRIC (lambda_metrics p), init_duration_metric_emitted p)"
    using assms(3) n_metric_invocation [OF assms(1)]
    by (cases st) (simp_all add: tally_def counted_def count_invocation_def Let_def)
  ultimately show ?thesis by (simp add: adds_def)
qed

lemma adds_open_context:
  assumes "proc_ok p"
  shows "adds 0 False p (Some (open_context env tk rid p))"
proof (rule addsI)
  have buf: "context_buffer (set_init_tags env tk p) = context_buffer p" for p
    by (simp add: set_init_tags_def Let_def split: option.splits)
  have "buf_ok (context_buffer (open_context env tk rid p))"
    using assms buf_ok_update_empty [of "context_buffer p" rid]
    by (simp add: open_context_def new_invocation_def Let_def buf proc_ok_def buf_ok_start_context split_beta)
  with assms show "proc_ok (open_context env tk rid p)" by (simp add: proc_ok_def dsm_ok_def dsm_frames)
qed (rule tally_core, rule core_open_context)

lemma adds_start_monitoring:
  assumes "proc_ok p"
  shows "adds 0 False p (Some (start_monitoring env tk rid p))"
proof (rule adds_calm [OF core_start_monitoring _ dsm_open(4) assms])
  have "kept cb (add_enhanced_metric_data rid d cb)" for cb :: "('a, 'c, 'a EnhancedMetricData) ContextBuffer" and d
    unfolding add_enhanced_metric_data_def by (rule kept_update) (simp add: ctx_same_def)
  then show "kept_proc p (start_monitoring env tk rid p)" by (simp add: start_monitoring_def Let_def)
qed

lemma adds_metrics:
  assumes "counts m = counts (lambda_metrics p)" and "proc_ok p"
  shows "adds 0 False p (Some (p\<lparr>lambda_metrics := m\<rparr>))"
  by (rule adds_calm) (use assms in \<open>simp_all add: core_def\<close>)

lemma adds_oom:
  assumes "enhanced_metrics (metrics_env env)" and "proc_ok p"
  shows "adds 0 False p (Some (try_increment_oom_metric env r ts p))"
proof (rule addsI)
  show "proc_ok (try_increment_oom_metric env r ts p)"
    using assms(2) by (simp add: proc_ok_def dsm_ok_def dsm_frames)
      (simp add: try_increment_oom_metric_def Let_def split: option.split)
  have "n_metric INVOCATIONS_METRIC (increment_oom_metric (metrics_env env) ts m) = n_metric INVOCATIONS_METRIC m"
    "n_metric INIT_DURATION_METRIC (increment_oom_metric (metrics_env env) ts m) = n_metric INIT_DURATION_METRIC m"
    for m using counts_oom [OF assms(1), of ts m] by (simp_all add: counts_def)
  then show "tally (try_increment_oom_metric env r ts p) = tally p"
    by (simp add: tally_def counted_def try_increment_oom_metric_def Let_def split: option.splits)
qed

lemma adds_invoke:
  assumes "enhanced_metrics (metrics_env env)" and "dsm_safe env" and "proc_ok p"
  shows "adds 1 False p (on_invoke_event env tk rid p)"
proof -
  define p1 where "p1 = open_context env tk rid p"
  define p2 where "p2 = start_monitoring env tk rid p1"
  define p3 where "p3 = count_invocation env tk (first_invocation_metric_status p) p2"
  have 1: "adds 0 False p (Some p1)" unfolding p1_def by (rule adds_open_context [OF assms(3)])
  then have ok1: "proc_ok p1" by (simp add: adds_def)
  have 2: "adds 0 False p1 (Some p2)" unfolding p2_def by (rule adds_start_monitoring [OF ok1])
  then have ok2: "proc_ok p2" by (simp add: adds_def)
  have "first_invocation_metric_status p2 = first_invocation_metric_status p"
    using core_open_context [of env tk rid p] core_start_monitoring [of env tk rid p1]
    by (simp add: core_def p1_def p2_def)
  then have 3: "adds 1 False p2 (Some p3)"
    unfolding p3_def by (intro adds_count_invocation assms(1) ok2)
  have "adds 0 False p3 (on_invoke_event env tk rid p)" if "proc_ok p3"
  proof -
    have take: "kept (context_buffer p3) (snd (take_universal_instrumentation_start_for_request_id rid (context_buffer p3)))"
      by (rule kept_pairing)
    note k = adds_trans [OF adds_buffer [OF _ that] adds_process_start [OF assms(2)]]
    show ?thesis
      unfolding on_invoke_event_def Let_def p1_def [symmetric] p2_def [symmetric] p3_def [symmetric] split_beta
      using take that
      by (auto intro!: k adds_buffer intro: kept_trans [OF take] simp: kept_pairing split: option.split)
  qed
  with 3 have "adds 1 False p2 (on_invoke_event env tk rid p)" by (rule adds_trans_calm)
  with 1 2 show ?thesis by (blast intro: adds_trans)
qed

lemma adds_universal_start:
  assumes "dsm_safe env" and "proc_ok p"
  shows "adds 0 False p (on_universal_instrumentation_start env tk h pl rid p)"
proof -
  define p1 where "p1 = p\<lparr>tracer_detected := True\<rparr>"
  have 1: "adds 0 False p (Some p1)"
    unfolding p1_def by (rule adds_calm) (use assms(2) in \<open>simp_all add: core_def\<close>)
  have "adds 0 False p1 (on_universal_instrumentation_start env tk h pl rid p)" if ok: "proc_ok p1"
    unfolding on_universal_instrumentation_start_def Let_def p1_def [symmetric] split_beta
    by (auto intro!: adds_trans [OF adds_buffer [OF _ ok] adds_process_start [OF assms(1)]] adds_buffer
        adds_process_start assms(1) ok kept_pairing split: option.split)
  with 1 show ?thesis by (rule adds_trans)
qed

lemma adds_universal_end:
  assumes "proc_ok p"
  shows "adds 0 False p (Some (on_universal_instrumentation_end env tk h pl rid p))"
  by (rule adds_calm [OF core_on_end kept_on_end _ assms])
    (simp add: on_universal_instrumentation_end_def split_beta Let_def dsm_frames split: option.split)

lemma adds_flush_pending:
  assumes "enhanced_metrics (metrics_env env)" and "proc_ok p"
  shows "adds 0 False p (Some (flush_pending_first_invocation_metric env p))"
proof (rule addsI)
  show "proc_ok (flush_pending_first_invocation_metric env p)"
    using assms(2)
    by (simp add: proc_ok_def dsm_ok_def flush_pending_first_invocation_metric_def
        split: FirstInvocationMetricStatus.split)
  show "tally (flush_pending_first_invocation_metric env p) = tally p"
    by (simp add: tally_def counted_def flush_pending_first_invocation_metric_def
        n_metric_invocation [OF assms(1)] split: FirstInvocationMetricStatus.split)
qed

lemma adds_new_invocation:
  assumes "proc_ok p"
  shows "adds 0 False p (Some ((new_invocation env tk rid p)\<lparr>awaiting_first_invocation := b\<rparr>))"
proof (rule addsI)
  have "context_buffer (set_init_tags env tk p) = context_buffer p"
    by (simp add: set_init_tags_def Let_def split: option.splits)
  with assms show "proc_ok ((new_invocation env tk rid p)\<lparr>awaiting_first_invocation := b\<rparr>)"
    by (simp add: proc_ok_def dsm_ok_def dsm_frames) (simp add: new_invocation_def Let_def buf_ok_start_context)
  show "tally ((new_invocation env tk rid p)\<lparr>awaiting_first_invocation := b\<rparr>) = tally p"
    by (rule tally_core) (use core_new_invocation [of env tk rid p] in \<open>simp add: core_def\<close>)
qed

lemma adds_init_start:
  assumes "enhanced_metrics (metrics_env env)" and "proc_ok p" and "0 \<le> time"
  shows "adds 0 False p (on_platform_init_start env tk time rv p)"
proof -
  define p1 where "p1 = (case rv of
      Some rv \<Rightarrow> if contains ''DurableFunction'' rv then on_metrics set_durable_function_tag p else p | None \<Rightarrow> p)"
  define p2 where "p2 = (if first_invocation_metric_status p1 = Pending
      then p1\<lparr>first_invocation_metric_status := InitStartSeen\<rparr> else p1)"
  define p3 where "p3 = flush_pending_first_invocation_metric env p2"
  have 1: "adds 0 False p (Some p1)"
    using assms(2) by (auto simp: p1_def intro!: adds_same adds_metrics counts_quiet split: option.split)
  have 2: "adds 0 False p1 (Some p2)" if "proc_ok p1"
    by (rule addsI) (use that in \<open>simp_all add: p2_def proc_ok_def dsm_ok_def tally_def counted_def\<close>)
  have 3: "adds 0 False p2 (Some p3)" if "proc_ok p2"
    unfolding p3_def by (rule adds_flush_pending [OF assms(1) that])
  have "adds 0 False p3 (on_platform_init_start env tk time rv p)" if "proc_ok p3"
    unfolding on_platform_init_start_def Let_def p1_def [symmetric] p2_def [symmetric] p3_def [symmetric]
    using assms(3) that
    by (auto simp: start_time_of_def ctx_same_def intro!: adds_new_invocation adds_buffer kept_update_closest)
  with 1 2 3 show ?thesis by (metis adds_trans)
qed

text \<open>The init duration is emitted by the first report that has it.\<close>

lemma adds_init_duration:
  assumes "enhanced_metrics (metrics_env env)" and "proc_ok p"
  shows "adds 0 True p (Some (if init_duration_metric_emitted p then p
    else (on_metrics (set_init_duration_metric (metrics_env env) it ms ts) p)\<lparr>init_duration_metric_emitted := True\<rparr>))"
proof -
  have "n_metric INVOCATIONS_METRIC (set_init_duration_metric (metrics_env env) it ms ts m) = n_metric INVOCATIONS_METRIC m"
    "n_metric INIT_DURATION_METRIC (set_init_duration_metric (metrics_env env) it ms ts m)
      = n_metric INIT_DURATION_METRIC m + 1"
    for m using counts_init_duration [OF assms(1), of it ms ts m] by (simp_all add: counts_def)
  with assms(2) show ?thesis by (simp add: adds_def tally_def counted_def proc_ok_def dsm_ok_def)
qed

lemma adds_init_report:
  assumes "enhanced_metrics (metrics_env env)" and "proc_ok p"
  shows "adds 0 True p (Some (on_platform_init_report env it ms ts p))"
  unfolding on_platform_init_report_def Let_def
  by (rule adds_trans_calm [OF adds_init_duration [OF assms, of it ms ts]])
    (auto simp: ctx_same_def intro!: adds_buffer kept_update kept_update_closest)

lemma adds_restore_start:
  assumes "proc_ok p" and "0 \<le> time"
  shows "adds 0 False p (on_platform_restore_start env tk time p)"
proof -
  have "adds 0 False p (Some (p\<lparr>restore_time := Some (instant_now tk)\<rparr>))"
    by (rule adds_calm) (use assms(1) in \<open>simp_all add: core_def\<close>)
  then show ?thesis
    by (rule adds_trans)
      (use assms(2) in \<open>auto simp: on_platform_restore_start_def Let_def start_time_of_def ctx_same_def
         intro!: adds_buffer [of "p\<lparr>restore_time := _\<rparr>", simplified] kept_update_closest\<close>)
qed

lemma adds_restore_report:
  assumes "proc_ok p"
  shows "adds 0 False p (Some (on_platform_restore_report env ms ts p))"
  by (rule adds_calm [OF core_others(5) _ _ assms])
    (auto simp: on_platform_restore_report_def ctx_same_def intro!: kept_update_closest)

lemma adds_platform_start:
  assumes "enhanced_metrics (metrics_env env)" and "dsm_safe env" and "proc_ok p" and "0 \<le> time"
  shows "adds (if is_managed_instance_mode env then 1 else 0) False p (on_platform_start env tk rid time p)"
proof -
  define r where "r = (if is_managed_instance_mode env then on_invoke_event env tk rid p else Some p)"
  have "adds (if is_managed_instance_mode env then 1 else 0) False p r"
    using adds_invoke [OF assms(1-3)] adds_same [OF assms(3)] by (simp add: r_def)
  then obtain p1 where p1: "r = Some p1" "adds (if is_managed_instance_mode env then 1 else 0) False p (Some p1)"
    by (auto simp: adds_def)
  show ?thesis
    unfolding on_platform_start_def r_def [symmetric] p1(1)
    by (rule adds_trans_calm [OF p1(2)])
      (use assms(4) in \<open>auto simp: start_time_of_def add_start_time_def ctx_same_def intro!: adds_buffer kept_update\<close>)
qed

lemma adds_runtime_done_metrics:
  assumes "enhanced_metrics (metrics_env env)" and "proc_ok p"
  shows "adds 0 False p (Some (runtime_done_metrics env tk rid m st et ts p))"
proof -
  define p1 where "p1 = on_metrics (set_runtime_done_metrics (metrics_env env) m ts) p"
  define p2 where "p2 = on_metrics (increment_errors_metric (metrics_env env) ts) p1"
  define p3 where "p3 = (if st = Timeout then on_metrics (increment_timeout_metric (metrics_env env) ts) p2 else p2)"
  define p4 where "p4 = (if st = Success then p1 else if st = Error \<and> et = Some ''Runtime.OutOfMemory''
    then try_increment_oom_metric env (Some rid) ts p3 else p3)"
  have 1: "adds 0 False p (Some p1)" unfolding p1_def by (intro adds_metrics assms(2) counts_runtime_done)
  have 2: "adds 0 False p1 (Some p2)" if "proc_ok p1" unfolding p2_def by (intro adds_metrics that counts_other)
  have 3: "adds 0 False p2 (Some p3)" if "proc_ok p2"
    unfolding p3_def using that by (simp add: adds_same adds_metrics counts_simps)
  have "adds 0 False p1 (Some p3)" if "proc_ok p1" using adds_trans [OF 2 3] that by blast
  then have 4: "adds 0 False p1 (Some p4)" if "proc_ok p1"
    using that adds_trans [OF _ adds_oom [OF assms(1)], of p1 p3 "Some rid" ts] by (simp add: p4_def adds_same)
  have "adds 0 False p4 (Some (runtime_done_metrics env tk rid m st et ts p))" if "proc_ok p4"
  proof -
    have "runtime_done_metrics env tk rid m st et ts p = (if is_managed_instance_mode env then p4
      else on_metrics (\<lambda>m. set_usage_enhanced_metrics (metrics_env env) (readings tk) (usage_answer tk)
             (set_max_enhanced_metrics (metrics_env env) (readings tk) m)) p4)"
      unfolding runtime_done_metrics_def Let_def p1_def [symmetric] p2_def [symmetric] p3_def [symmetric]
        p4_def [symmetric] ..
    then show ?thesis using that by (simp add: adds_same adds_metrics counts_simps)
  qed
  with 1 4 show ?thesis by (metis adds_trans)
qed

lemma adds_process_end:
  assumes "proc_ok p"
  shows "adds 0 False p (Some (process_on_universal_instrumentation_end env tk rid h pl p))"
  by (rule adds_calm [OF core_process_end kept_process_end dsm_end(1) assms])

lemma adds_runtime_done:
  assumes "enhanced_metrics (metrics_env env)" and "proc_ok p"
  shows "adds 0 False p (Some (on_platform_runtime_done env tk rid m st et ts p))"
proof -
  define p1 where "p1 = runtime_done_metrics env tk rid m st et ts p"
  define p2 where "p2 = on_buffer (add_runtime_duration (ms_to_ns_round (metric_ops env)) rid (rd_duration_ms m)) p1"
  define cb where "cb = snd (take_universal_instrumentation_end_for_request_id rid (context_buffer p2))"
  define cb' where "cb' = snd (pair_platform_runtime_done_event rid cb)"
  define p3 where "p3 = (case fst (take_universal_instrumentation_end_for_request_id rid (context_buffer p2)) of
      Some (headers, payload) \<Rightarrow> process_on_universal_instrumentation_end env tk rid headers payload (p2\<lparr>context_buffer := cb\<rparr>)
    | None \<Rightarrow> (if is_managed_instance_mode env then p2\<lparr>context_buffer := cb\<rparr>
        else (case fst (pair_platform_runtime_done_event rid cb) of
            Some (headers, payload) \<Rightarrow>
              process_on_universal_instrumentation_end env tk rid headers payload (p2\<lparr>context_buffer := cb'\<rparr>)
          | None \<Rightarrow> p2\<lparr>context_buffer := cb'\<rparr>)))"
  have eq: "on_platform_runtime_done env tk rid m st et ts p = process_on_platform_runtime_done env tk rid st p3"
    by (simp add: on_platform_runtime_done_def Let_def split_beta p1_def p2_def p3_def cb_def cb'_def
        split: option.split)
  have 1: "adds 0 False p (Some p1)" unfolding p1_def by (rule adds_runtime_done_metrics [OF assms])
  have 2: "adds 0 False p1 (Some p2)" if "proc_ok p1"
    unfolding p2_def add_runtime_duration_def using that
    by (auto simp: ctx_same_def intro!: adds_buffer kept_update)
  have "kept (context_buffer p2) cb" unfolding cb_def by (rule kept_pairing)
  moreover have "kept cb cb'" unfolding cb'_def by (rule kept_pairing)
  ultimately have "kept (context_buffer p2) cb" "kept (context_buffer p2) cb'" by (auto intro: kept_trans)
  then have 3: "adds 0 False p2 (Some p3)" if "proc_ok p2"
    unfolding p3_def using that
    by (auto intro!: adds_trans [OF adds_buffer adds_process_end] adds_buffer split: option.split)
  have 4: "adds 0 False p3 (Some (process_on_platform_runtime_done env tk rid st p3))" if "proc_ok p3"
    by (rule adds_calm [OF core_process_runtime_done kept_process_runtime_done dsm_runtime_done that])
  from 1 2 3 4 show ?thesis unfolding eq by (metis adds_trans)
qed

lemma adds_managed_report:
  assumes "enhanced_metrics (metrics_env env)" and "proc_ok p"
  shows "adds 0 False p (Some (handle_managed_instance_report env tk rid ms ts st et sp p))"
proof -
  define p1 where "p1 = (if active_invocations p > 0 then p\<lparr>active_invocations := active_invocations p - 1\<rparr> else p)"
  define p2 where "p2 = (if active_invocations p1 = 0
    then on_metrics (pause_usage_metrics_monitoring (metrics_env env)) p1 else p1)"
  have 1: "adds 0 False p (Some p1)"
    by (rule adds_calm) (use assms(2) in \<open>simp_all add: p1_def core_def\<close>)
  have 2: "adds 0 False p1 (Some p2)" if "proc_ok p1"
    unfolding p2_def using that by (simp add: adds_same adds_metrics counts_simps)
  have "adds 0 False p2 (Some (handle_managed_instance_report env tk rid ms ts st et sp p))" if "proc_ok p2"
    unfolding handle_managed_instance_report_def Let_def p1_def [symmetric] p2_def [symmetric]
    using that by (simp add: adds_same adds_runtime_done [OF assms(1)])
  with 1 2 show ?thesis by (metis adds_trans)
qed

lemma adds_ondemand_report:
  assumes "enhanced_metrics (metrics_env env)" and "proc_ok p"
  shows "adds 0 (init_duration_ms m \<noteq> None) p (Some (handle_ondemand_report env rid m ts p))"
proof -
  define p1 where "p1 = (if max_memory_used_mb m = memory_size_mb m
    then try_increment_oom_metric env (Some rid) ts p else p)"
  define p2 where "p2 = (case cb_get rid (context_buffer p1) of
      Some c \<Rightarrow> (if f_eq (metric_ops env) (runtime_duration_ms c) (f_zero (metric_ops env)) then p1
        else on_metrics (set_post_runtime_duration_metric (metrics_env env)
               (f_sub (metric_ops env) (od_duration_ms m) (runtime_duration_ms c)) ts) p1)
    | None \<Rightarrow> p1)"
  have 1: "adds 0 False p (Some p1)"
    unfolding p1_def using assms by (simp add: adds_same adds_oom)
  have 2: "adds 0 False p1 (Some p2)" if "proc_ok p1"
    unfolding p2_def using that by (simp add: adds_same adds_metrics counts_simps split: option.split)
  have "adds 0 (init_duration_ms m \<noteq> None) p2 (Some (handle_ondemand_report env rid m ts p))" if "proc_ok p2"
    unfolding handle_ondemand_report_def Let_def p1_def [symmetric] p2_def [symmetric]
    using that adds_init_duration [OF assms(1) that] adds_same [OF that] by (cases "init_duration_ms m") simp_all
  with 1 2 show ?thesis by (metis adds_trans)
qed

lemma adds_seq:
  assumes "adds k b p (Some p1)" and "proc_ok p1 \<Longrightarrow> adds k' b' p1 r"
  shows "adds (k + k') (b \<or> b') p r"
  using assms by (auto simp: adds_def tally_def)

fun report_has_init :: "'f ReportMetrics \<Rightarrow> bool" where
  "report_has_init (OnDemand m) \<longleftrightarrow> init_duration_ms m \<noteq> None"
| "report_has_init (ManagedInstance _) \<longleftrightarrow> False"

lemma adds_report:
  assumes "enhanced_metrics (metrics_env env)" and "proc_ok p"
  shows "adds 0 (report_has_init m) p (Some (on_platform_report env tk rid m ts st et sp p))"
proof -
  define p1 where "p1 = on_metrics (set_report_log_metrics (metrics_env env) m ts) p"
  define p2 where "p2 = (case m of
      ManagedInstance ms \<Rightarrow> handle_managed_instance_report env tk rid ms ts st et sp p1
    | OnDemand m \<Rightarrow> handle_ondemand_report env rid m ts p1)"
  define p3 where "p3 = (case Option.bind (cb_get rid (context_buffer p2)) enhanced_metric_data of
      Some d \<Rightarrow> on_metrics (\<lambda>m. set_cpu_time_enhanced_metrics (metrics_env env) (readings tk) (cpu_offset d)
          (set_network_enhanced_metrics (metrics_env env) (readings tk) (network_offset d) m)) p2
    | None \<Rightarrow> p2)"
  have eq: "on_platform_report env tk rid m ts st et sp p = release_invocation_context rid p3"
    unfolding on_platform_report_def Let_def p1_def [symmetric] p2_def [symmetric] p3_def [symmetric] ..
  have 1: "adds 0 False p (Some p1)" unfolding p1_def by (intro adds_metrics assms(2) counts_report)
  have 2: "adds 0 (report_has_init m) p1 (Some p2)" if "proc_ok p1"
    unfolding p2_def using that adds_managed_report [OF assms(1) that] adds_ondemand_report [OF assms(1) that]
    by (cases m) simp_all
  have 3: "adds 0 False p2 (Some p3)" if "proc_ok p2"
    unfolding p3_def using that by (simp add: adds_same adds_metrics counts_simps split: option.split)
  have 4: "adds 0 False p3 (Some (release_invocation_context rid p3))" if "proc_ok p3"
  proof (rule addsI)
    show "proc_ok (release_invocation_context rid p3)"
      using that buf_ok_release by (auto simp: proc_ok_def dsm_ok_def release_invocation_context_def)
  qed (rule tally_core, rule core_release)
  from 1 2 have "adds 0 (report_has_init m) p (Some p2)" by (rule adds_trans)
  then have "adds 0 (report_has_init m) p (Some p3)" using 3 by (rule adds_trans_calm)
  then show ?thesis unfolding eq using 4 by (rule adds_trans_calm)
qed

lemma adds_shutdown_event:
  assumes "enhanced_metrics (metrics_env env)" and "proc_ok p"
  shows "adds 0 False p (Some (on_shutdown_event env tk p))"
  unfolding on_shutdown_event_def Let_def
  by (rule adds_trans [OF adds_flush_pending [OF assms]])
    (auto intro!: adds_metrics adds_trans [OF adds_metrics adds_metrics] simp: counts_simps)

lemma proc_ok_update_reparenting: "proc_ok p \<Longrightarrow> proc_ok (snd (update_reparenting infos p))"
proof (induction infos arbitrary: p)
  case (Cons info infos)
  have upd: "proc_ok (p\<lparr>context_buffer := cb\<rparr>) \<longleftrightarrow> dsm_ok p \<and> buf_ok cb" for cb
    by (simp add: proc_ok_def dsm_ok_def)
  have "map ri_request_id (update_first P (\<lambda>i. i\<lparr>needs_trace_id := b, guessed_trace_id := t\<rparr>) xs)
      = map ri_request_id xs" for P b t and xs :: "ReparentingInfo list" by (induction xs) simp_all
  then have rep: "buf_ok (cb\<lparr>sorted_reparenting_info := update_first P
      (\<lambda>i. i\<lparr>needs_trace_id := b, guessed_trace_id := t\<rparr>) (sorted_reparenting_info cb)\<rparr>) = buf_ok cb"
    for cb :: "('a, 'c, 'a EnhancedMetricData) ContextBuffer" and P b t by (simp add: buf_ok_def)
  from Cons.prems have "dsm_ok p" "buf_ok (context_buffer p)" by (simp_all add: proc_ok_def)
  then show ?case
    by (auto simp: split_beta Let_def upd rep intro!: Cons.IH split: option.split)
qed simp

lemma adds_others:
  assumes "proc_ok p"
  shows "adds 0 False p (Some (add_reparenting rid sid pid p))"
    and "adds 0 False p (Some (snd (update_reparenting infos p)))"
    and "adds 0 False p (Some (snd (set_cold_start_span_trace_id tid p)))"
    and "adds 0 False p (Some (add_tracer_span s cs p))"
    and "adds 0 False p (Some (forward_durable_context u p))"
    and "adds 0 False p (Some (send_ctx_spans env c p))"
proof -
  show "adds 0 False p (Some (add_reparenting rid sid pid p))"
  proof (rule addsI)
    show "proc_ok (add_reparenting rid sid pid p)"
      using assms buf_ok_add_reparenting [of p rid sid pid]
      by (simp add: proc_ok_def dsm_ok_def) (simp add: add_reparenting_def Let_def)
  qed (rule tally_core, rule core_others)
  have "proc_ok (snd (update_reparenting infos p))" by (rule proc_ok_update_reparenting [OF assms])
  then show "adds 0 False p (Some (snd (update_reparenting infos p)))"
    by (intro addsI tally_core core_reparenting)
  show "adds 0 False p (Some (snd (set_cold_start_span_trace_id tid p)))"
    by (rule adds_calm [OF core_others(2) _ _ assms])
      (auto simp: set_cold_start_span_trace_id_def kept_def ctx_same_def list_all2_refl
        intro!: list_all2_update_first split: option.split)
  show "adds 0 False p (Some (add_tracer_span s cs p))"
    by (rule adds_calm [OF core_others(3) _ _ assms])
      (auto simp: add_tracer_span_def cb_add_tracer_span_def ctx_same_def intro!: kept_update split: option.split)
  show "adds 0 False p (Some (forward_durable_context u p))"
    by (rule adds_calm [OF core_others(4) _ _ assms]) (simp_all add: forward_durable_context_def)
  show "adds 0 False p (Some (send_ctx_spans env c p))"
    by (rule adds_calm [OF core_send(1) _ _ assms]) (simp_all add: dsm_frames)
qed

section \<open>Steps and runs\<close>

text \<open>The commands that open an invocation, those that report an init duration, and times after the epoch.\<close>

fun opens :: "('f, 'g, 'ptr) ProcEnv \<Rightarrow> ('f, 'ptr) ProcessorCommand \<Rightarrow> bool" where
  "opens env (InvokeEvent rid) = True"
| "opens env (PlatformStart rid time) = is_managed_instance_mode env"
| "opens env _ = False"

fun reports_init :: "('f, 'ptr) ProcessorCommand \<Rightarrow> bool" where
  "reports_init (InitReport it ms ts) = True"
| "reports_init (PlatformReport rid m ts st et sp) = report_has_init m"
| "reports_init _ = False"

fun command_ok :: "('f, 'ptr) ProcessorCommand \<Rightarrow> bool" where
  "command_ok (InitStart time rv) \<longleftrightarrow> 0 \<le> time"
| "command_ok (RestoreStart time) \<longleftrightarrow> 0 \<le> time"
| "command_ok (PlatformStart rid time) \<longleftrightarrow> 0 \<le> time"
| "command_ok _ \<longleftrightarrow> True"

definition env_ok :: "('f, 'g, 'ptr) ProcEnv \<Rightarrow> bool" where
  "env_ok env \<longleftrightarrow> enhanced_metrics (metrics_env env) \<and> dsm_safe env"

lemma proc_step_adds:
  assumes "env_ok env" and "command_ok c" and "proc_ok p"
  shows "adds (if opens env c then 1 else 0) (reports_init c) p (proc_step env tk c p)"
proof -
  from assms(1) have e: "enhanced_metrics (metrics_env env)" "dsm_safe env" by (simp_all add: env_ok_def)
  show ?thesis
  proof (cases c)
    case (InvokeEvent rid)
    then show ?thesis using adds_invoke [OF e assms(3)] by simp
  next
    case (InitStart time rv)
    then show ?thesis using adds_init_start [OF e(1) assms(3)] assms(2) by simp
  next
    case (RestoreStart time)
    then show ?thesis using adds_restore_start [OF assms(3)] assms(2) by simp
  next
    case (PlatformStart rid time)
    then show ?thesis using adds_platform_start [OF e assms(3)] assms(2) by simp
  next
    case (UniversalInstrumentationStart h pl rid)
    then show ?thesis using adds_universal_start [OF e(2) assms(3)] by simp
  next
    case (RecordDsmConsumeFromPayload rid pl)
    then show ?thesis using adds_record_dsm [OF e(2) assms(3)] by simp
  qed (simp_all add: assms(3) e(1) adds_init_report adds_restore_report adds_runtime_done adds_report
      adds_universal_end adds_same adds_others adds_oom adds_shutdown_event)
qed

definition processed :: "('f Tick \<times> ('f, 'ptr) ProcessorCommand) list \<Rightarrow> ('f, 'ptr) ProcessorCommand list" where
  "processed cs = takeWhile (\<lambda>c. c \<noteq> Shutdown) (map snd cs)"

lemma processed_simps [simp]:
  "processed [] = []"
  "processed ((tk, c) # cs) = (if c = Shutdown then [] else c # processed cs)"
  by (simp_all add: processed_def)

lemma proc_run_Cons:
  "proc_run env ((tk, c) # cs) p = (if c = Shutdown then Some p else Option.bind (proc_step env tk c p) (proc_run env cs))"
  by (cases c) simp_all

lemma proc_run_adds:
  assumes "env_ok env" and "\<forall>c \<in> set (processed cs). command_ok c" and "proc_ok p"
  shows "adds (length (filter (opens env) (processed cs))) (\<exists>c \<in> set (processed cs). reports_init c) p (proc_run env cs p)"
  using assms(2,3)
proof (induction cs arbitrary: p)
  case (Cons x cs)
  obtain tk c where x: "x = (tk, c)" by (cases x)
  show ?case
  proof (cases "c = Shutdown")
    case True
    with Cons.prems(2) x show ?thesis by (simp add: adds_same)
  next
    case False
    with Cons.prems x have "command_ok c" by simp
    from proc_step_adds [OF assms(1) this Cons.prems(2), of tk] obtain p1 where
      p1: "proc_step env tk c p = Some p1" "adds (if opens env c then 1 else 0) (reports_init c) p (Some p1)"
      by (auto simp: adds_def)
    have "adds ((if opens env c then 1 else 0) + length (filter (opens env) (processed cs)))
        (reports_init c \<or> (\<exists>c \<in> set (processed cs). reports_init c)) p (proc_run env cs p1)"
      using Cons.prems(1) x False by (intro adds_seq [OF p1(2)] Cons.IH) simp_all
    with x False p1(1) show ?thesis
      by (cases "opens env c") (simp_all add: proc_run_Cons del: proc_run.simps)
  qed
qed (simp add: adds_same)

end
