(* ===== verification/ProcessorProps.thy ===== *)
theory ProcessorProps
  imports ProcessorRuns ProcessorSamples
begin

text \<open>
  Properties of the invocation processor over whole runs of its service, started as \<open>main.rs\<close> starts it:
  a new processor, possibly with a data streams processor that has recorded nothing.
\<close>

definition started :: "('f, 'g, 'ptr) ProcEnv \<Rightarrow> DsmProcessor option \<Rightarrow> ('f, 'g, 'ptr) Processor" where
  "started env dsm = (case dsm of None \<Rightarrow> Processor_new env | Some d \<Rightarrow> set_dsm_processor d (Processor_new env))"

definition dsm_fresh :: "DsmProcessor option \<Rightarrow> bool" where
  "dsm_fresh dsm \<longleftrightarrow> (case dsm of None \<Rightarrow> True | Some d \<Rightarrow> dsm_is_empty (dp_aggregator d))"

lemma started_ok: "dsm_fresh dsm \<Longrightarrow> proc_ok (started env dsm)"
  by (auto simp: proc_ok_def started_def dsm_fresh_def dsm_ok_def dsm_holds_def agg_holds_def dsm_is_empty_def
      buf_ok_def Processor_new_def set_dsm_processor_def ContextBuffer_default_def with_capacity_def Let_def
      intro!: exI [of _ "[]"] split: option.split)

lemma started_tally:
  "counted (started env dsm) = 0" "n_metric name (lambda_metrics (started env dsm)) = 0"
  "\<not> init_duration_metric_emitted (started env dsm)"
  by (simp_all add: started_def counted_def n_metric_def Processor_new_def set_dsm_processor_def LambdaMetrics_new_def
      Let_def split: option.split)

lemma run_from_start:
  assumes "env_ok env" and "dsm_fresh dsm" and "\<forall>c \<in> set (processed cs). command_ok c"
  obtains p where "proc_run env cs (started env dsm) = Some p" and "proc_ok p"
    and "counted p = length (filter (opens env) (processed cs))"
    and "n_metric INIT_DURATION_METRIC (lambda_metrics p) = (if \<exists>c \<in> set (processed cs). reports_init c then 1 else 0)"
  using proc_run_adds [OF assms(1,3) started_ok [OF assms(2), of env]]
  by (auto simp: adds_def tally_def started_tally)

lemma proc_run_append:
  "Shutdown \<notin> snd ` set cs \<Longrightarrow> proc_run env (cs @ ds) p = Option.bind (proc_run env cs p) (proc_run env ds)"
proof (induction cs arbitrary: p)
  case (Cons x cs)
  obtain tk c where x: "x = (tk, c)" by (cases x)
  with Cons.prems have "c \<noteq> Shutdown" by auto
  with x Cons show ?case
    by (cases "proc_step env tk c p") (simp_all add: proc_run_Cons del: proc_run.simps)
qed simp

lemma processed_all: "Shutdown \<notin> snd ` set cs \<Longrightarrow> processed cs = map snd cs"
  by (force simp: processed_def takeWhile_eq_all_conv)

lemma shutdown_flushes:
  assumes "enhanced_metrics (metrics_env env)"
  shows "n_metric INVOCATIONS_METRIC (lambda_metrics (on_shutdown_event env tk p)) = counted p"
proof -
  have "counts (lambda_metrics (on_shutdown_event env tk p))
      = counts (lambda_metrics (flush_pending_first_invocation_metric env p))"
    by (simp add: on_shutdown_event_def Let_def counts_simps)
  moreover have "n_metric INVOCATIONS_METRIC (lambda_metrics (flush_pending_first_invocation_metric env p)) = counted p"
    by (simp add: flush_pending_first_invocation_metric_def counted_def n_metric_invocation [OF assms]
        split: FirstInvocationMetricStatus.split)
  ultimately show ?thesis by (simp add: counts_def)
qed

lemma sample_env_ok: "env_ok (sample_env mode)"
  by (simp add: env_ok_def dsm_safe_def sample_env_def sample_floats_accepts sample_infer_env_def)

lemma no_dsm_fresh: "dsm_fresh None"
  by (simp add: dsm_fresh_def)

section \<open>Properties\<close>

text \<open>
  C6. Every invocation is counted exactly once. Over any sequence of commands, in either mode, the
  processor returns and the invocations metric has been emitted once per opened invocation, except that
  the first one may still be held back for its durable function tag; the shutdown event emits it, so
  after it the numbers are equal. Invocations are opened by invoke events and, in managed instance mode,
  by platform start events. Enhanced metrics are on and no event is older than the epoch.
\<close>

theorem invocations_counted_once:
  assumes "env_ok env" and "dsm_fresh dsm" and "\<forall>(tk, c) \<in> set cs. command_ok c \<and> c \<noteq> Shutdown"
  shows "\<exists>p p'. proc_run env cs (started env dsm) = Some p
    \<and> n_metric INVOCATIONS_METRIC (lambda_metrics p)
        + (case first_invocation_metric_status p of HeldBack _ \<Rightarrow> 1 | _ \<Rightarrow> 0) = length (filter (opens env \<circ> snd) cs)
    \<and> proc_run env (cs @ [(tk, OnShutdownEvent)]) (started env dsm) = Some p'
    \<and> n_metric INVOCATIONS_METRIC (lambda_metrics p') = length (filter (opens env \<circ> snd) cs)"
proof -
  from assms(3) have cs: "Shutdown \<notin> snd ` set cs" by auto
  have "\<forall>c \<in> set (processed cs). command_ok c" using assms(3) by (auto simp: processed_all [OF cs])
  with assms(1,2) obtain p where p: "proc_run env cs (started env dsm) = Some p"
    "counted p = length (filter (opens env) (processed cs))" by (rule run_from_start)
  then have n: "counted p = length (filter (opens env \<circ> snd) cs)" by (simp add: processed_all [OF cs] filter_map)
  have e: "enhanced_metrics (metrics_env env)" using assms(1) by (simp add: env_ok_def)
  show ?thesis
    using p(1) n shutdown_flushes [OF e, of tk p]
    by (intro exI [of _ p] exI [of _ "on_shutdown_event env tk p"]) (simp add: proc_run_append [OF cs] counted_def)
qed

theorem invocations_counted_once_witness:
  "\<exists>p p'. proc_run (sample_env ''on-demand'') [(sample_tick 1, InvokeEvent ''a''), (sample_tick 2, InvokeEvent ''b'')]
      (started (sample_env ''on-demand'') None) = Some p
    \<and> n_metric INVOCATIONS_METRIC (lambda_metrics p)
        + (case first_invocation_metric_status p of HeldBack _ \<Rightarrow> 1 | _ \<Rightarrow> 0) = 2
    \<and> proc_run (sample_env ''on-demand'') ([(sample_tick 1, InvokeEvent ''a''), (sample_tick 2, InvokeEvent ''b'')]
        @ [(sample_tick 3, OnShutdownEvent)]) (started (sample_env ''on-demand'') None) = Some p'
    \<and> n_metric INVOCATIONS_METRIC (lambda_metrics p') = 2"
  using invocations_counted_once [OF sample_env_ok no_dsm_fresh,
      of "[(sample_tick 1, InvokeEvent ''a''), (sample_tick 2, InvokeEvent ''b'')]" "''on-demand''" "sample_tick 3"]
  by (simp add: numeral_2_eq_2 del: proc_run.simps)

text \<open>
  C17. The init duration is emitted exactly once: over any sequence of commands, the metric has been emitted
  once if an init report or an on-demand report with an init duration was processed, whichever came
  first and however many there were, and not at all otherwise.
\<close>

theorem init_duration_emitted_once:
  assumes "env_ok env" and "dsm_fresh dsm" and "\<forall>c \<in> set (processed cs). command_ok c"
  shows "\<exists>p. proc_run env cs (started env dsm) = Some p
    \<and> n_metric INIT_DURATION_METRIC (lambda_metrics p) = (if \<exists>c \<in> set (processed cs). reports_init c then 1 else 0)"
  using assms by (rule run_from_start) blast

theorem init_duration_emitted_once_witness:
  "\<exists>p. proc_run (sample_env ''on-demand'') [(sample_tick 1, InitReport OnDemandInit 5 1), (sample_tick 2, InitReport OnDemandInit 5 1)]
      (started (sample_env ''on-demand'') None) = Some p \<and> n_metric INIT_DURATION_METRIC (lambda_metrics p) = 1"
  using init_duration_emitted_once [OF sample_env_ok no_dsm_fresh,
      of "[(sample_tick 1, InitReport OnDemandInit 5 1), (sample_tick 2, InitReport OnDemandInit 5 1)]" "''on-demand''"]
  by (simp del: proc_run.simps)

text \<open>
  C16. The buffers of the processor are well formed in every reachable state: it never panics, and it
  holds at most 500 contexts and at most 500 reparenting entries, with distinct request ids.
\<close>

theorem processor_buffers_bounded:
  assumes "env_ok env" and "dsm_fresh dsm" and "\<forall>c \<in> set (processed cs). command_ok c"
  shows "\<exists>p. proc_run env cs (started env dsm) = Some p
    \<and> cb_size (context_buffer p) \<le> 500 \<and> length (get_reparenting_info p) \<le> 500
    \<and> distinct (map ri_request_id (get_reparenting_info p))"
  using assms
  by (rule run_from_start) (auto simp: proc_ok_def buf_ok_def cb_size_def get_reparenting_info_def)

theorem processor_buffers_bounded_witness:
  "\<exists>p. proc_run (sample_env ''on-demand'') [(sample_tick 1, InvokeEvent ''a''), (sample_tick 2, AddReparenting ''a'' 7 8)]
      (started (sample_env ''on-demand'') None) = Some p \<and> cb_size (context_buffer p) \<le> 500"
  using processor_buffers_bounded [OF sample_env_ok no_dsm_fresh,
      of "[(sample_tick 1, InvokeEvent ''a''), (sample_tick 2, AddReparenting ''a'' 7 8)]" "''on-demand''"]
  by (auto simp del: proc_run.simps)

section \<open>Warm invocations\<close>

lemma dynamic_tags_start:
  assumes "dsm_safe env" and "proc_ok p"
  shows "\<exists>q. process_on_universal_instrumentation_start env tk rid h pl p = Some q \<and> dynamic_tags q = dynamic_tags p"
proof (cases "cb_get rid (context_buffer p) = None")
  case False
  define p1 where "p1 = on_buffer (cb_update rid (start_instrumentation env
    (infer_span (infer_env env) (span_id1 tk) (span_id2 tk) pl) h pl)) p"
  have "dsm_ok p1" using assms(2) by (simp add: p1_def proc_ok_def dsm_ok_def)
  from record_dsm_total [OF assms(1) this, of tk rid pl] False show ?thesis
    by (auto simp: process_on_universal_instrumentation_start_def Let_def p1_def)
qed (simp add: process_on_universal_instrumentation_start_def)

lemma dynamic_tags_invoke:
  assumes "env_ok env" and "proc_ok p"
  shows "\<exists>q. on_invoke_event env tk rid p = Some q \<and> dynamic_tags q = dynamic_tags (open_context env tk rid p)"
proof -
  from assms(1) have e: "enhanced_metrics (metrics_env env)" "dsm_safe env" by (simp_all add: env_ok_def)
  define p3 where "p3 = count_invocation env tk (first_invocation_metric_status p)
    (start_monitoring env tk rid (open_context env tk rid p))"
  have tags: "dynamic_tags p3 = dynamic_tags (open_context env tk rid p)"
    by (simp add: p3_def count_invocation_def start_monitoring_def Let_def)
  have "buf_ok (context_buffer (open_context env tk rid p))" "dsm_ok (open_context env tk rid p)"
    using adds_open_context [OF assms(2), of env tk rid] by (simp_all add: adds_def proc_ok_def)
  then have "proc_ok p3"
    by (simp add: p3_def proc_ok_def dsm_ok_def dsm_frames)
      (simp add: count_invocation_def start_monitoring_def Let_def add_enhanced_metric_data_def)
  then have ok: "proc_ok (p3\<lparr>context_buffer := cb\<rparr>)" if "kept (context_buffer p3) cb" for cb
    using adds_buffer [OF that] by (simp add: adds_def)
  have start: "\<exists>q. process_on_universal_instrumentation_start env tk rid h pl (p3\<lparr>context_buffer := cb\<rparr>) = Some q
      \<and> dynamic_tags q = dynamic_tags p3" if "kept (context_buffer p3) cb" for cb h pl
    using dynamic_tags_start [OF e(2) ok [OF that], of tk rid h pl] by simp
  have k1: "kept (context_buffer p3) (snd (take_universal_instrumentation_start_for_request_id rid (context_buffer p3)))"
    by (rule kept_pairing)
  have k2: "kept (context_buffer p3) (snd (pair_invoke_event rid
      (snd (take_universal_instrumentation_start_for_request_id rid (context_buffer p3)))))"
    by (rule kept_trans [OF k1 kept_pairing(1)])
  show ?thesis
    unfolding on_invoke_event_def Let_def p3_def [symmetric] split_beta tags [symmetric]
    using start [OF k1] start [OF k2] by (simp split: option.split)
qed

text \<open>The report of the only invocation leaves the buffer empty.\<close>

lemma report_empties_buffer:
  assumes "buffer (context_buffer p) = [c]"
  shows "buffer (context_buffer (on_platform_report env tk (request_id c) (OnDemand m) ts st et sp p)) = []"
proof -
  define p1 where "p1 = on_metrics (set_report_log_metrics (metrics_env env) (OnDemand m) ts) p"
  have "\<exists>c'. buffer (context_buffer (handle_ondemand_report env (request_id c) m ts p1)) = [c'] \<and> request_id c' = request_id c"
    using assms
    by (simp add: p1_def handle_ondemand_report_def Let_def try_increment_oom_metric_def cb_get_def cb_update_def
        split: option.split)
  then show ?thesis
    unfolding on_platform_report_def Let_def p1_def [symmetric]
    by (auto simp: release_invocation_context_def cb_remove_def split: option.split)
qed

text \<open>
  C30. A warm invocation is tagged as a cold start or as a proactive initialization. In every reachable state
  whose only context belongs to an invocation that is then reported, the next invoke event sets the tag
  \<open>cold_start\<close> to \<open>true\<close>, or \<open>proactive_initialization\<close> once ten seconds have passed since the sandbox was
  initialised: the report empties the buffer, and an empty buffer is taken for a first invocation.
\<close>

theorem warm_invocation_tagged_as_first:
  assumes "env_ok env" and "dsm_fresh dsm" and "\<forall>c \<in> set (processed cs). command_ok c"
    and "proc_run env cs (started env dsm) = Some p" and "buffer (context_buffer p) = [c]"
    and "\<not> is_managed_instance_mode env" and "\<not> is_snapstart env"
  shows "\<exists>q. proc_run env [(tk, PlatformReport (request_id c) (OnDemand m) ts st et sp), (tk', InvokeEvent rid)] p = Some q
    \<and> dynamic_tags q (if (instant_now tk' - sandbox_init_time env) div 1000000 > 10000
                      then ''proactive_initialization'' else ''cold_start'') = Some ''true''"
proof -
  define p1 where "p1 = on_platform_report env tk (request_id c) (OnDemand m) ts st et sp p"
  obtain p' where p': "proc_run env cs (started env dsm) = Some p'" "proc_ok p'"
    by (rule run_from_start [OF assms(1-3)])
  with assms(4) have "proc_ok p" by simp
  moreover have "enhanced_metrics (metrics_env env)" using assms(1) by (simp add: env_ok_def)
  ultimately have ok: "proc_ok p1"
    using adds_report [of env p "OnDemand m" tk "request_id c" ts st et sp] by (simp add: adds_def p1_def)
  have "cb_is_empty (context_buffer p1)"
    unfolding p1_def cb_is_empty_def by (rule report_empties_buffer [OF assms(5)])
  then have "dynamic_tags (open_context env tk' rid p1) (if (instant_now tk' - sandbox_init_time env) div 1000000 > 10000
      then ''proactive_initialization'' else ''cold_start'') = Some ''true''"
    using assms(6,7)
    by (simp add: open_context_def new_invocation_def set_init_tags_def Let_def bool_str_def
        PROACTIVE_INITIALIZATION_THRESHOLD_MS_def)
  with dynamic_tags_invoke [OF assms(1) ok, of tk' rid] show ?thesis by (auto simp: p1_def)
qed

section \<open>Request ids that are never paired\<close>

definition queues :: "('f, 'ptr, 'md) ContextBuffer \<Rightarrow> string list \<times> string list \<times> instrumentation list \<times> instrumentation list
    \<times> (string \<rightharpoonup> instrumentation) \<times> (string \<rightharpoonup> instrumentation)" where
  "queues cb = (invoke_events_request_ids cb, platform_runtime_done_events_request_ids cb,
     universal_instrumentation_start_events cb, universal_instrumentation_end_events cb,
     universal_instrumentation_start_events_with_id cb, universal_instrumentation_end_events_with_id cb)"

text \<open>Between two invocations, when no tracer has sent anything and the ids \<open>ids\<close> wait.\<close>

definition idle :: "string list \<Rightarrow> ('f, 'g, 'ptr) Processor \<Rightarrow> bool" where
  "idle ids p \<longleftrightarrow> buffer (context_buffer p) = [] \<and> buffer_capacity (context_buffer p) = 500
     \<and> queues (context_buffer p) = (ids, ids, [], [], Map.empty, Map.empty)"

lemma idle_invoke:
  assumes "idle ids p" and "\<not> is_managed_instance_mode env"
  shows "\<exists>q c. on_invoke_event env tk rid p = Some q \<and> buffer (context_buffer q) = [c] \<and> request_id c = rid
    \<and> buffer_capacity (context_buffer q) = 500
    \<and> queues (context_buffer q) = (ids @ [rid], ids, [], [], Map.empty, Map.empty)"
proof -
  define p1 where "p1 = open_context env tk rid p"
  define p2 where "p2 = start_monitoring env tk rid p1"
  define p3 where "p3 = count_invocation env tk (first_invocation_metric_status p) p2"
  have "context_buffer (set_init_tags env tk p) = context_buffer p"
    by (simp add: set_init_tags_def Let_def split: option.splits)
  then have "\<exists>span. context_buffer p1 = start_context (f_zero (metric_ops env)) (now_ns tk) rid span (context_buffer p)"
    using assms(2) by (auto simp: p1_def open_context_def new_invocation_def Let_def)
  then have 1: "\<exists>c. buffer (context_buffer p1) = [c] \<and> request_id c = rid" "buffer_capacity (context_buffer p1) = 500"
    "queues (context_buffer p1) = (ids, ids, [], [], Map.empty, Map.empty)"
    using assms(1) by (auto simp: idle_def queues_def start_context_def cb_insert_def cb_size_def cb_get_def
        from_request_id_def Context_default_def)
  have "context_buffer p3 = context_buffer p2" by (simp add: p3_def count_invocation_def Let_def)
  moreover have "\<exists>d. context_buffer p2 \<in> {context_buffer p1, add_enhanced_metric_data rid d (context_buffer p1)}"
    by (auto simp: p2_def start_monitoring_def Let_def)
  ultimately have 3: "\<exists>c. buffer (context_buffer p3) = [c] \<and> request_id c = rid" "buffer_capacity (context_buffer p3) = 500"
    "queues (context_buffer p3) = (ids, ids, [], [], Map.empty, Map.empty)"
    using 1 by (auto simp: add_enhanced_metric_data_def cb_update_def queues_def)
  show ?thesis
    unfolding on_invoke_event_def Let_def p1_def [symmetric] p2_def [symmetric] p3_def [symmetric]
    using 3 assms(2)
    by (simp add: queues_def take_universal_instrumentation_start_for_request_id_def pair_invoke_event_def)
qed

lemma buffer_runtime_done:
  "context_buffer (process_on_platform_runtime_done env tk rid st p)
    = (case cb_get rid (context_buffer p) of None \<Rightarrow> context_buffer p
       | Some _ \<Rightarrow> cb_update rid (enrich_context env tk (dynamic_tags p) (tracer_detected p) st) (context_buffer p))"
proof -
  have "context_buffer (snd (enrich_ctx_at_platform_done env tk rid st p))
    = (case cb_get rid (context_buffer p) of None \<Rightarrow> context_buffer p
       | Some _ \<Rightarrow> cb_update rid (enrich_context env tk (dynamic_tags p) (tracer_detected p) st) (context_buffer p))"
    by (simp add: enrich_ctx_at_platform_done_def Let_def split: option.split)
  then show ?thesis by (simp add: process_on_platform_runtime_done_def split_beta split: option.split)
qed

lemma idle_runtime_done:
  assumes "buffer (context_buffer p) = [c]" and "request_id c = rid" and "\<not> is_managed_instance_mode env"
    and "buffer_capacity (context_buffer p) = 500"
    and "queues (context_buffer p) = (ids', ids, [], [], Map.empty, Map.empty)"
  shows "\<exists>c'. buffer (context_buffer (on_platform_runtime_done env tk rid m st et ts p)) = [c'] \<and> request_id c' = rid
    \<and> buffer_capacity (context_buffer (on_platform_runtime_done env tk rid m st et ts p)) = 500
    \<and> queues (context_buffer (on_platform_runtime_done env tk rid m st et ts p))
        = (ids', ids @ [rid], [], [], Map.empty, Map.empty)"
proof -
  define p1 where "p1 = runtime_done_metrics env tk rid m st et ts p"
  have 1: "\<exists>c. buffer (context_buffer p1) = [c] \<and> request_id c = rid" "buffer_capacity (context_buffer p1) = 500"
    "queues (context_buffer p1) = (ids', ids, [], [], Map.empty, Map.empty)"
    using assms
    by (simp_all add: p1_def runtime_done_metrics_def Let_def try_increment_oom_metric_def cb_get_def cb_update_def
        queues_def split: option.split)
  define p2 where "p2 = p1\<lparr>context_buffer := (add_runtime_duration (ms_to_ns_round (metric_ops env)) rid (rd_duration_ms m)
    (context_buffer p1))\<lparr>universal_instrumentation_end_events_with_id := Map.empty,
      platform_runtime_done_events_request_ids := ids @ [rid]\<rparr>\<rparr>"
  have "on_platform_runtime_done env tk rid m st et ts p = process_on_platform_runtime_done env tk rid st p2"
    using 1(3) assms(3)
    by (simp add: on_platform_runtime_done_def Let_def p1_def [symmetric] p2_def queues_def add_runtime_duration_def
        cb_update_def take_universal_instrumentation_end_for_request_id_def pair_platform_runtime_done_event_def)
  moreover have "\<exists>c. buffer (context_buffer p2) = [c] \<and> request_id c = rid" "buffer_capacity (context_buffer p2) = 500"
    "queues (context_buffer p2) = (ids', ids @ [rid], [], [], Map.empty, Map.empty)"
    using 1 by (auto simp: p2_def add_runtime_duration_def cb_update_def queues_def)
  moreover have "request_id (enrich_context env tk d t st c) = request_id c" for d t and c :: "('a, 'b, 'a EnhancedMetricData) Context"
    using ctx_same_enrich [of c env tk d t st] by (simp add: ctx_same_def)
  ultimately show ?thesis
    by (auto simp: buffer_runtime_done cb_get_def cb_update_def queues_def)
qed

lemma idle_report:
  assumes "buffer (context_buffer p) = [c]" and "buffer_capacity (context_buffer p) = 500"
    and "queues (context_buffer p) = (ids, ids, [], [], Map.empty, Map.empty)"
  shows "idle ids (on_platform_report env tk (request_id c) (OnDemand m) ts st et sp p)"
proof -
  define p1 where "p1 = on_metrics (set_report_log_metrics (metrics_env env) (OnDemand m) ts) p"
  have "queues (context_buffer (handle_ondemand_report env rid m ts p1)) = queues (context_buffer p)
      \<and> buffer_capacity (context_buffer (handle_ondemand_report env rid m ts p1)) = buffer_capacity (context_buffer p)" for rid
    by (simp add: p1_def handle_ondemand_report_def Let_def try_increment_oom_metric_def cb_update_def queues_def
        split: option.split)
  with report_empties_buffer [OF assms(1), of env tk m ts st et sp] assms(2,3) show ?thesis
    unfolding idle_def on_platform_report_def Let_def p1_def [symmetric]
    by (auto simp: release_invocation_context_def cb_remove_def queues_def split: option.splits)
qed

lemma idle_started: "idle [] (started env dsm)"
  by (simp add: idle_def queues_def started_def Processor_new_def set_dsm_processor_def ContextBuffer_default_def
      with_capacity_def Let_def split: option.split)

definition untraced_invocation ::
    "'f Tick \<Rightarrow> 'f RuntimeDoneMetrics \<Rightarrow> 'f OnDemandReportMetrics \<Rightarrow> int \<Rightarrow> string
      \<Rightarrow> ('f Tick \<times> ('f, 'ptr) ProcessorCommand) list" where
  "untraced_invocation tk m om ts rid = [(tk, InvokeEvent rid), (tk, PlatformRuntimeDone rid m Success None ts),
     (tk, PlatformReport rid (OnDemand om) ts Success None None)]"

lemma untraced_invocations:
  assumes "idle ids p" and "\<not> is_managed_instance_mode env"
  shows "\<exists>q. proc_run env (concat (map (untraced_invocation tk m om ts) rids)) p = Some q \<and> idle (ids @ rids) q"
  using assms(1)
proof (induction rids arbitrary: ids p)
  case (Cons rid rids)
  obtain p1 c where p1: "on_invoke_event env tk rid p = Some p1" "buffer (context_buffer p1) = [c]" "request_id c = rid"
    "buffer_capacity (context_buffer p1) = 500" "queues (context_buffer p1) = (ids @ [rid], ids, [], [], Map.empty, Map.empty)"
    using idle_invoke [OF Cons.prems assms(2), of tk rid] by blast
  obtain c' where c': "buffer (context_buffer (on_platform_runtime_done env tk rid m Success None ts p1)) = [c']" "request_id c' = rid"
    "buffer_capacity (context_buffer (on_platform_runtime_done env tk rid m Success None ts p1)) = 500"
    "queues (context_buffer (on_platform_runtime_done env tk rid m Success None ts p1)) = (ids @ [rid], ids @ [rid], [], [], Map.empty, Map.empty)"
    using idle_runtime_done [OF p1(2,3) assms(2) p1(4,5), of tk m Success None ts] by blast
  from Cons.IH [OF idle_report [OF c'(1,3,4)], of env tk om ts Success None None] p1(1) c'(2)
  show ?case by (simp add: untraced_invocation_def)
qed simp

text \<open>
  C33. Without a tracer the queues of request ids grow without bound: after any number of on-demand
  invocations that were invoked, done and reported, every context has been released, yet each request
  id still waits in both queues for an event of a tracer.
\<close>

theorem request_ids_accumulate:
  assumes "\<not> is_managed_instance_mode env"
  shows "\<exists>p. proc_run env (concat (map (untraced_invocation tk m om ts) rids)) (started env dsm) = Some p
    \<and> buffer (context_buffer p) = [] \<and> invoke_events_request_ids (context_buffer p) = rids
    \<and> platform_runtime_done_events_request_ids (context_buffer p) = rids"
proof -
  from untraced_invocations [OF idle_started assms, of tk m om ts rids] show ?thesis by (auto simp: idle_def queues_def)
qed

theorem request_ids_accumulate_witness:
  "\<exists>p. proc_run (sample_env ''on-demand'') (concat (map (untraced_invocation (sample_tick 1)
        \<lparr>rd_duration_ms = 1, produced_bytes = None\<rparr> \<lparr>od_duration_ms = 1, billed_duration_ms = 1, memory_size_mb = 128,
          max_memory_used_mb = 64, init_duration_ms = None, restore_duration_ms = None\<rparr> 1) [''a'', ''b'']))
      (started (sample_env ''on-demand'') None) = Some p
    \<and> buffer (context_buffer p) = [] \<and> invoke_events_request_ids (context_buffer p) = [''a'', ''b'']"
proof -
  have "\<not> is_managed_instance_mode (sample_env ''on-demand'')"
    by (simp add: InvocationProcessor.is_managed_instance_mode_def sample_env_def)
  from request_ids_accumulate [OF this] show ?thesis by blast
qed

theorem warm_invocation_tagged_as_first_witness:
  "\<exists>p c q. proc_run (sample_env ''on-demand'') [(sample_tick 1, InvokeEvent ''a'')] (started (sample_env ''on-demand'') None) = Some p
    \<and> buffer (context_buffer p) = [c]
    \<and> proc_run (sample_env ''on-demand'') [(sample_tick 2, PlatformReport (request_id c) (OnDemand \<lparr>od_duration_ms = 1,
          billed_duration_ms = 1, memory_size_mb = 128, max_memory_used_mb = 64, init_duration_ms = None,
          restore_duration_ms = None\<rparr>) 1 Success None None), (sample_tick 20, InvokeEvent ''b'')] p = Some q
    \<and> dynamic_tags q ''proactive_initialization'' = Some ''true''"
proof -
  let ?e = "sample_env ''on-demand''"
  have m: "\<not> is_managed_instance_mode ?e" "\<not> is_snapstart ?e"
    by (simp_all add: InvocationProcessor.is_managed_instance_mode_def is_snapstart_def sample_env_def)
  obtain p c where p: "proc_run ?e [(sample_tick 1, InvokeEvent ''a'')] (started ?e None) = Some p" "buffer (context_buffer p) = [c]"
    using idle_invoke [OF idle_started [of ?e None] m(1), of "sample_tick 1" "''a''"] by auto
  have ok: "\<forall>c \<in> set (processed [(sample_tick 1, InvokeEvent ''a'' :: (int, unit) ProcessorCommand)]). command_ok c"
    by simp
  have late: "(instant_now (sample_tick 20) - sandbox_init_time ?e) div 1000000 > 10000"
    by (simp add: sample_tick_def sample_env_def)
  note q = warm_invocation_tagged_as_first [OF sample_env_ok no_dsm_fresh ok p m, of "sample_tick 2"
      "\<lparr>od_duration_ms = 1, billed_duration_ms = 1, memory_size_mb = 128, max_memory_used_mb = 64, init_duration_ms = None,
        restore_duration_ms = None\<rparr>" 1 Success None None "sample_tick 20" "''b''", unfolded if_P [OF late]]
  show ?thesis using p q by blast
qed

end
