(* ===== verification/ProcessorOom.thy ===== *)
theory ProcessorOom
  imports ProcessorFrames ProcessorSamples
begin

text \<open>
  Out-of-memory errors are detected in three ways: a log line, the error type of the end of the runtime,
  and a report whose memory is used up. Each goes through \<open>try_increment_oom_metric\<close>; the flag of the
  context makes them count once. The view \<open>oom_state\<close> follows the counter and that flag.
\<close>

definition oom_state :: "string \<Rightarrow> ('f, 'g, 'ptr) Processor \<Rightarrow> nat \<times> bool option" where
  "oom_state rid p = (n_metric OUT_OF_MEMORY_METRIC (lambda_metrics p),
     map_option oom_emitted (cb_get rid (context_buffer p)))"

definition detect :: "nat \<times> bool option \<Rightarrow> nat \<times> bool option" where
  "detect s = (if snd s = Some True then s else (fst s + 1, map_option (\<lambda>_. True) (snd s)))"

lemma kept_flag:
  assumes "kept cb cb'"
  shows "map_option oom_emitted (cb_get rid cb') = map_option oom_emitted (cb_get rid cb)"
proof -
  have "list_all2 ctx_same xs ys \<Longrightarrow>
      map_option oom_emitted (List.find (for_request rid) ys) = map_option oom_emitted (List.find (for_request rid) xs)"
    for xs ys :: "('a, 'b, 'c) Context list"
    by (induction xs ys rule: list_all2_induct) (auto simp: ctx_same_def)
  with assms show ?thesis by (simp add: kept_def cb_get_def)
qed

lemma oom_state_calm:
  assumes "core p' = core p" and "kept_proc p p'"
  shows "oom_state rid p' = oom_state rid p"
  using assms kept_flag by (simp add: oom_state_def core_def counts_def)

lemma oom_state_metrics:
  assumes "counts m = counts (lambda_metrics p)"
  shows "oom_state rid (p\<lparr>lambda_metrics := m\<rparr>) = oom_state rid p"
  using assms by (simp add: oom_state_def counts_def)

lemma cb_get_update:
  assumes "\<And>c. request_id (f c) = request_id c"
  shows "cb_get rid (cb_update rid f cb) = map_option f (cb_get rid cb)"
proof -
  have "List.find (for_request rid) (update_first (for_request rid) f xs)
      = map_option f (List.find (for_request rid) xs)" for xs
    by (induction xs) (simp_all add: assms)
  then show ?thesis by (simp add: cb_get_def cb_update_def)
qed

lemma oom_state_try:
  assumes "enhanced_metrics (metrics_env env)"
  shows "oom_state rid (try_increment_oom_metric env (Some rid) ts p) = detect (oom_state rid p)"
proof -
  have "n_metric OUT_OF_MEMORY_METRIC (increment_oom_metric (metrics_env env) ts m) = n_metric OUT_OF_MEMORY_METRIC m + 1"
    for m using counts_oom [OF assms, of ts m] by (simp add: counts_def)
  then show ?thesis
    by (simp add: oom_state_def detect_def try_increment_oom_metric_def Let_def cb_get_update split: option.split)
qed

lemma oom_state_runtime_done_metrics:
  assumes "enhanced_metrics (metrics_env env)"
  shows "oom_state rid (runtime_done_metrics env tk rid m st et ts p)
    = (if st = Error \<and> et = Some ''Runtime.OutOfMemory'' then detect else id) (oom_state rid p)"
  by (simp add: runtime_done_metrics_def Let_def oom_state_metrics oom_state_try [OF assms] counts_simps)

lemma oom_state_runtime_done:
  assumes "enhanced_metrics (metrics_env env)"
  shows "oom_state rid (on_platform_runtime_done env tk rid m st et ts p)
    = (if st = Error \<and> et = Some ''Runtime.OutOfMemory'' then detect else id) (oom_state rid p)"
proof -
  define p1 where "p1 = runtime_done_metrics env tk rid m st et ts p"
  define p2 where "p2 = on_buffer (add_runtime_duration (ms_to_ns_round (metric_ops env)) rid (rd_duration_ms m)) p1"
  have buf: "oom_state rid (q\<lparr>context_buffer := cb\<rparr>) = oom_state rid q" if "kept (context_buffer q) cb"
    for q :: "('a, 'b, 'c) Processor" and cb by (rule oom_state_calm) (use that in simp_all)
  have pend: "oom_state rid (process_on_universal_instrumentation_end env tk rid h pl q) = oom_state rid q"
    for q h pl by (rule oom_state_calm [OF core_process_end kept_process_end])
  have fin: "oom_state rid (process_on_platform_runtime_done env tk rid st q) = oom_state rid q" for q
    by (rule oom_state_calm [OF core_process_runtime_done kept_process_runtime_done])
  have k: "kept cb (snd (pair_platform_runtime_done_event rid (snd (take_universal_instrumentation_end_for_request_id rid cb))))"
    for cb :: "('a, 'c, 'a EnhancedMetricData) ContextBuffer"
    by (rule kept_trans [OF kept_pairing(8) kept_pairing(4)])
  have "oom_state rid (on_platform_runtime_done env tk rid m st et ts p) = oom_state rid p2"
    unfolding on_platform_runtime_done_def Let_def p1_def [symmetric] p2_def [symmetric] split_beta
    by (simp add: fin pend buf k kept_pairing split: option.split)
  also have "\<dots> = oom_state rid p1"
    unfolding p2_def by (rule buf) (simp add: add_runtime_duration_def kept_update ctx_same_def)
  finally show ?thesis by (simp add: p1_def oom_state_runtime_done_metrics [OF assms])
qed

section \<open>One invocation\<close>

fun detects :: "string \<Rightarrow> ('f, 'ptr) ProcessorCommand \<Rightarrow> bool" where
  "detects rid (OnOutOfMemoryError r ts) \<longleftrightarrow> r = Some rid"
| "detects rid (PlatformRuntimeDone r m st et ts) \<longleftrightarrow> r = rid \<and> st = Error \<and> et = Some ''Runtime.OutOfMemory''"
| "detects rid (PlatformReport r (OnDemand m) ts st et sp) \<longleftrightarrow> r = rid \<and> max_memory_used_mb m = memory_size_mb m"
| "detects rid _ \<longleftrightarrow> False"

text \<open>
  The commands between the start of the instrumentation of an invocation and its report, with those of
  the platform about this invocation.
\<close>

fun within :: "string \<Rightarrow> ('f, 'ptr) ProcessorCommand \<Rightarrow> bool" where
  "within rid (OnOutOfMemoryError r ts) \<longleftrightarrow> r = Some rid"
| "within rid (PlatformRuntimeDone r m st et ts) \<longleftrightarrow> r = rid"
| "within rid (RestoreReport ms ts) \<longleftrightarrow> True"
| "within rid (UniversalInstrumentationEnd h pl r) \<longleftrightarrow> True"
| "within rid (AddReparenting r sid pid) \<longleftrightarrow> True"
| "within rid GetReparentingInfo \<longleftrightarrow> True"
| "within rid (SetColdStartSpanTraceId tid) \<longleftrightarrow> True"
| "within rid (AddTracerSpan s cs) \<longleftrightarrow> True"
| "within rid (ForwardDurableContext u) \<longleftrightarrow> True"
| "within rid (SendCtxSpans c) \<longleftrightarrow> True"
| "within rid _ \<longleftrightarrow> False"

lemma kept_others:
  "kept_proc p (snd (set_cold_start_span_trace_id tid p))"
  "kept_proc p (add_tracer_span s cs p)"
  "kept_proc p (forward_durable_context u p)"
  "kept_proc p (on_platform_restore_report env ms ts p)"
proof -
  show "kept_proc p (snd (set_cold_start_span_trace_id tid p))"
    by (auto simp: set_cold_start_span_trace_id_def kept_def ctx_same_def list_all2_refl
        intro!: list_all2_update_first split: option.split)
  show "kept_proc p (add_tracer_span s cs p)"
    by (auto simp: add_tracer_span_def cb_add_tracer_span_def ctx_same_def intro!: kept_update split: option.split)
  show "kept_proc p (forward_durable_context u p)"
    by (simp add: forward_durable_context_def)
  show "kept_proc p (on_platform_restore_report env ms ts p)"
    by (auto simp: on_platform_restore_report_def ctx_same_def intro!: kept_update_closest)
qed

lemma oom_state_step:
  assumes "enhanced_metrics (metrics_env env)" and "within rid c"
  shows "\<exists>p'. proc_step env tk c p = Some p'
    \<and> oom_state rid p' = (if detects rid c then detect else id) (oom_state rid p)"
proof -
  have rep: "oom_state rid (add_reparenting r sid pid p) = oom_state rid p" for r sid pid
    by (simp add: oom_state_def add_reparenting_def Let_def cb_get_def)
  show ?thesis
    using assms(2)
    by (cases c) (simp_all add: oom_state_try [OF assms(1)] oom_state_runtime_done [OF assms(1)] rep
        oom_state_calm [OF core_on_end kept_on_end] oom_state_calm [OF core_others(2) kept_others(1)]
        oom_state_calm [OF core_others(3) kept_others(2)] oom_state_calm [OF core_others(4) kept_others(3)]
        oom_state_calm [OF core_others(5) kept_others(4)] oom_state_calm [OF core_send(1)])
qed

lemma oom_state_run:
  assumes "enhanced_metrics (metrics_env env)" and "\<forall>c \<in> snd ` set cs. within rid c"
    and "snd (oom_state rid p) \<noteq> None"
  shows "\<exists>p'. proc_run env (cs @ ds) p = proc_run env ds p' \<and> oom_state rid p'
    = (if \<exists>c \<in> snd ` set cs. detects rid c then detect else id) (oom_state rid p)"
  using assms(2,3)
proof (induction cs arbitrary: p)
  case (Cons x cs)
  obtain tk c where x: "x = (tk, c)" by (cases x)
  with Cons.prems have c: "within rid c" by simp
  then have "c \<noteq> Shutdown" by auto
  then have run: "proc_run env ((x # cs) @ ds) p = Option.bind (proc_step env tk c p) (proc_run env (cs @ ds))"
    by (cases c) (simp_all add: x)
  obtain p1 where p1: "proc_step env tk c p = Some p1"
    "oom_state rid p1 = (if detects rid c then detect else id) (oom_state rid p)"
    using oom_state_step [OF assms(1) c, of tk p] by blast
  have idem: "snd s \<noteq> None \<Longrightarrow> detect (detect s) = detect s" and some: "snd s \<noteq> None \<Longrightarrow> snd (detect s) \<noteq> None" for s
    by (auto simp: detect_def)
  have "snd (oom_state rid p1) \<noteq> None" using p1(2) some [OF Cons.prems(2)] Cons.prems(2) by simp
  with Cons.IH [of p1] Cons.prems(1) obtain p2 where p2: "proc_run env (cs @ ds) p1 = proc_run env ds p2"
    "oom_state rid p2 = (if \<exists>c \<in> snd ` set cs. detects rid c then detect else id) (oom_state rid p1)" by auto
  show ?case
    unfolding run p1(1) bind.bind_lunit
    by (intro exI [of _ p2]) (use p1(2) p2 x idem [OF Cons.prems(2)] in simp)
qed auto

text \<open>The report looks at the memory, then only emits other metrics and releases the context.\<close>

lemma oom_count_report:
  assumes "enhanced_metrics (metrics_env env)"
  shows "n_metric OUT_OF_MEMORY_METRIC (lambda_metrics (on_platform_report env tk rid (OnDemand m) ts st et sp p))
    = fst ((if max_memory_used_mb m = memory_size_mb m then detect else id) (oom_state rid p))"
proof -
  have release: "lambda_metrics (release_invocation_context rid q) = lambda_metrics q" for q :: "('a, 'b, 'c) Processor"
    by (simp add: release_invocation_context_def)
  have oom: "n_metric OUT_OF_MEMORY_METRIC (lambda_metrics q) = snd (snd (counts (lambda_metrics q)))"
    for q :: "('a, 'b, 'c) Processor" by (simp add: counts_def)
  have init: "snd (snd (counts (set_init_duration_metric (metrics_env env) it ms ts m))) = snd (snd (counts m))"
    for it ms ts m by (simp add: counts_init_duration [OF assms])
  define p1 where "p1 = on_metrics (set_report_log_metrics (metrics_env env) (OnDemand m) ts) p"
  define p2 where "p2 = (if max_memory_used_mb m = memory_size_mb m
    then try_increment_oom_metric env (Some rid) ts p1 else p1)"
  have "oom_state rid p1 = oom_state rid p" unfolding p1_def by (rule oom_state_metrics [OF counts_report])
  then have oom_p2: "oom_state rid p2 = (if max_memory_used_mb m = memory_size_mb m then detect else id) (oom_state rid p)"
    by (simp add: p2_def oom_state_try [OF assms])
  have "snd (snd (counts (lambda_metrics (handle_ondemand_report env rid m ts p1))))
      = snd (snd (counts (lambda_metrics p2)))"
    unfolding handle_ondemand_report_def Let_def p2_def [symmetric]
    by (simp add: init counts_simps split: option.split)
  moreover have "snd (snd (counts (lambda_metrics (on_platform_report env tk rid (OnDemand m) ts st et sp p))))
      = snd (snd (counts (lambda_metrics (handle_ondemand_report env rid m ts p1))))"
    unfolding on_platform_report_def Let_def p1_def [symmetric] release
    by (simp add: counts_simps split: option.split)
  ultimately have "n_metric OUT_OF_MEMORY_METRIC (lambda_metrics (on_platform_report env tk rid (OnDemand m) ts st et sp p))
      = fst (oom_state rid p2)" by (simp add: oom oom_state_def)
  with oom_p2 show ?thesis by simp
qed



end
