(* ===== verification/Flushers.thy ===== *)
theory Flushers
  imports LogsAggregator DsmPathway
begin

text \<open>
  The flushers: \<open>logs/flusher.rs\<close>, \<open>traces/trace_flusher.rs\<close>, \<open>traces/proxy_flusher.rs\<close> and
  \<open>traces/stats_flusher.rs\<close>. A flusher takes the batches of its aggregator, posts them and hands back what
  it could not deliver. The network is an argument: the answer to every attempt of every request. Requests
  of one flush are sent concurrently by tasks whose results arrive in the order the tasks end; this order is
  an argument too. The compression and serialisation libraries and the type \<open>SendData\<close> of the trace
  library are parameters. Messages that are only logged are left out.
\<close>

section \<open>Requests and answers\<close>

definition FLUSH_RETRY_COUNT :: nat where
  "FLUSH_RETRY_COUNT = 3"

text \<open>A status code, or an error of the client such as a timeout or a lost connection.\<close>

datatype Response = Status_code nat | Client_error

definition is_success :: "nat \<Rightarrow> bool" where
  "is_success st \<longleftrightarrow> 200 \<le> st \<and> st < 300"

definition is_server_error :: "nat \<Rightarrow> bool" where
  "is_server_error st \<longleftrightarrow> 500 \<le> st \<and> st < 600"

definition unwrap_or_default :: "'a list option \<Rightarrow> 'a list" where
  "unwrap_or_default r = (case r of Some xs \<Rightarrow> xs | None \<Rightarrow> [])"

type_synonym header_map = "(string \<times> string) list"

record Request =
  rq_url :: string
  rq_headers :: header_map
  rq_timeout :: nat
  rq_body :: bytes

text \<open>Header names are kept in lower case; an insertion replaces all values of the name.\<close>

definition header_remove :: "string \<Rightarrow> header_map \<Rightarrow> header_map" where
  "header_remove name = filter (\<lambda>(n, v). n \<noteq> name)"

definition header_insert :: "string \<Rightarrow> string \<Rightarrow> header_map \<Rightarrow> header_map" where
  "header_insert name v hs = header_remove name hs @ [(name, v)]"

definition header_extend :: "header_map \<Rightarrow> header_map \<Rightarrow> header_map" where
  "header_extend own hs = filter (\<lambda>(n, v). n \<notin> fst ` set own) hs @ own"

text \<open>The error of a request to be sent again, or that it could not be cloned.\<close>

datatype 'r SendError = FailedRequestError 'r | CantClone

section \<open>Logs\<close>

text \<open>\<open>resp n\<close> is the answer to the \<open>n\<close>-th attempt; \<open>can_clone\<close> is \<open>try_clone\<close> of the client library.\<close>

function logs_send_loop ::
    "('r \<Rightarrow> bool) \<Rightarrow> (nat \<Rightarrow> Response) \<Rightarrow> 'r \<Rightarrow> nat \<Rightarrow> 'r SendError + unit" where
  "logs_send_loop can_clone resp req attempts =
     (let attempts' = attempts + 1
      in if \<not> can_clone req then Inl CantClone
         else case resp attempts' of
           Status_code st \<Rightarrow>
             (if st = 403 then Inr ()
              else if is_success st then Inr ()
              else if attempts' \<ge> FLUSH_RETRY_COUNT then Inl (FailedRequestError req)
              else logs_send_loop can_clone resp req attempts')
         | Client_error \<Rightarrow>
             (if attempts' \<ge> FLUSH_RETRY_COUNT then Inl (FailedRequestError req)
              else logs_send_loop can_clone resp req attempts'))"
  by pat_completeness auto
termination
  by (relation "measure (\<lambda>(can_clone, resp, req, attempts). FLUSH_RETRY_COUNT - attempts)") auto

declare logs_send_loop.simps [simp del]

definition logs_send :: "('r \<Rightarrow> bool) \<Rightarrow> (nat \<Rightarrow> Response) \<Rightarrow> 'r \<Rightarrow> 'r SendError + unit" where
  "logs_send can_clone resp req = logs_send_loop can_clone resp req 0"

record LogsFlushConfig =
  opw_logs_enabled :: bool
  opw_logs_url :: string
  logs_dd_url :: string
  logs_additional_endpoints :: "(string \<times> string \<times> string) list"
  logs_use_compression :: bool
  logs_flush_timeout :: nat

text \<open>
  The flusher of one endpoint. Its API key is asked for at every flush; the cache of the headers is filled
  in a clone of the flusher and lost with it. \<open>header_ok\<close> says whether a text can be the value of a header:
  where it cannot the code panics, and the process ends (\<open>None\<close>).
\<close>

definition logs_headers :: "LogsFlushConfig \<Rightarrow> (string \<Rightarrow> bool) \<Rightarrow> string \<Rightarrow> header_map option" where
  "logs_headers cfg header_ok api_key =
     (if \<not> header_ok api_key then None
      else let h = header_insert ''dd-api-key'' api_key [];
          h = (if \<not> opw_logs_enabled cfg then header_insert ''dd-protocol'' ''agent-json'' h else h);
          h = header_insert ''content-type'' ''application/json'' h
      in Some (if logs_use_compression cfg \<and> \<not> opw_logs_enabled cfg
               then header_insert ''content-encoding'' ''zstd'' h else h))"

definition logs_create_request ::
    "LogsFlushConfig \<Rightarrow> (string \<Rightarrow> bool) \<Rightarrow> string \<Rightarrow> string \<Rightarrow> bytes \<Rightarrow> Request option" where
  "logs_create_request cfg header_ok endpoint api_key data =
     map_option (\<lambda>headers.
       \<lparr>rq_url = (if opw_logs_enabled cfg then endpoint else endpoint @ ''/api/v2/logs''),
        rq_headers = headers, rq_timeout = logs_flush_timeout cfg, rq_body = data\<rparr>)
       (logs_headers cfg header_ok api_key)"

definition failed_requests :: "('r SendError + unit) list \<Rightarrow> 'r list" where
  "failed_requests results = List.map_filter
     (\<lambda>r. case r of Inl (FailedRequestError req) \<Rightarrow> Some req | _ \<Rightarrow> None) results"

text \<open>
  What one flush of the logs depends on: \<open>lw_api_key f\<close> is the API key of flusher \<open>f\<close>, \<open>lw_net f i n\<close> the
  answer to attempt \<open>n\<close> of its request \<open>i\<close>, \<open>lw_order\<close> the order in which the tasks end, and
  \<open>lw_service\<close> whether the aggregator service answers.
\<close>

record LogsWorld =
  lw_can_clone :: "Request \<Rightarrow> bool"
  lw_header_ok :: "string \<Rightarrow> bool"
  lw_order :: "(Request SendError + unit) list \<Rightarrow> (Request SendError + unit) list"
  lw_encode :: "bytes \<Rightarrow> bytes option"
  lw_api_key :: "nat \<Rightarrow> string option"
  lw_net :: "nat \<Rightarrow> nat \<Rightarrow> nat \<Rightarrow> Response"
  lw_service :: bool

definition logs_send_all :: "LogsWorld \<Rightarrow> nat \<Rightarrow> Request list \<Rightarrow> (Request SendError + unit) list" where
  "logs_send_all w f reqs =
     map (\<lambda>(i, req). logs_send (lw_can_clone w) (lw_net w f i) req) (enumerate 0 reqs)"

definition flusher_flush ::
    "LogsFlushConfig \<Rightarrow> LogsWorld \<Rightarrow> nat \<Rightarrow> string \<Rightarrow> bytes list \<Rightarrow> Request list option" where
  "flusher_flush cfg w f endpoint batches =
     (case lw_api_key w f of
        None \<Rightarrow> Some []
      | Some key \<Rightarrow>
          map_option (\<lambda>reqs. failed_requests (lw_order w (logs_send_all w f reqs)))
            (those (map (logs_create_request cfg (lw_header_ok w) endpoint key)
                      (filter (\<lambda>b. b \<noteq> []) batches))))"

definition logs_endpoints :: "LogsFlushConfig \<Rightarrow> string list" where
  "logs_endpoints cfg =
     (if opw_logs_enabled cfg then opw_logs_url cfg else logs_dd_url cfg)
     # map (\<lambda>(host, port, key). ''https://'' @ host @ '':'' @ port) (logs_additional_endpoints cfg)"

definition logs_compress :: "LogsFlushConfig \<Rightarrow> (bytes \<Rightarrow> bytes option) \<Rightarrow> bytes \<Rightarrow> bytes" where
  "logs_compress cfg encode data =
     (if \<not> logs_use_compression cfg \<or> opw_logs_enabled cfg then data
      else case encode data of Some compressed \<Rightarrow> compressed | None \<Rightarrow> data)"

definition logs_retry :: "LogsWorld \<Rightarrow> (nat \<Rightarrow> Response) \<Rightarrow> Request \<Rightarrow> Request list" where
  "logs_retry w resp req =
     (if lw_can_clone w req
      then (case logs_send (lw_can_clone w) resp req of Inl (FailedRequestError r) \<Rightarrow> [r] | _ \<Rightarrow> [])
      else [])"

definition flush_batches :: "LogsFlushConfig \<Rightarrow> LogsWorld \<Rightarrow> bytes list \<Rightarrow> Request list option" where
  "flush_batches cfg w batches =
     map_option concat (those (map (\<lambda>(f, endpoint). flusher_flush cfg w f endpoint batches)
       (enumerate 0 (logs_endpoints cfg))))"

definition logs_flush ::
    "LogsFlushConfig \<Rightarrow> LogsWorld \<Rightarrow> LogsAggregator \<Rightarrow> (Request list \<times> LogsAggregator) option" where
  "logs_flush cfg w la =
     (if lw_service w
      then Option.bind (la_get_batches la) (\<lambda>(batches, la').
             map_option (\<lambda>failed. (failed, la'))
               (flush_batches cfg w (map (logs_compress cfg (lw_encode w)) batches)))
      else map_option (\<lambda>failed. (failed, la)) (flush_batches cfg w []))"

section \<open>Proxied requests\<close>

function proxy_send_loop ::
    "('r \<Rightarrow> bool) \<Rightarrow> (nat \<Rightarrow> Response) \<Rightarrow> 'r \<Rightarrow> nat \<Rightarrow> 'r SendError + unit" where
  "proxy_send_loop can_clone resp req attempts =
     (let attempts' = attempts + 1
      in if \<not> can_clone req then Inl CantClone
         else case resp attempts' of
           Status_code st \<Rightarrow>
             (if st = 202 \<or> st = 200 then Inr ()
              else if attempts' \<ge> FLUSH_RETRY_COUNT then Inl (FailedRequestError req)
              else proxy_send_loop can_clone resp req attempts')
         | Client_error \<Rightarrow>
             (if attempts' \<ge> FLUSH_RETRY_COUNT then Inl (FailedRequestError req)
              else proxy_send_loop can_clone resp req attempts'))"
  by pat_completeness auto
termination
  by (relation "measure (\<lambda>(can_clone, resp, req, attempts). FLUSH_RETRY_COUNT - attempts)") auto

declare proxy_send_loop.simps [simp del]

definition proxy_send :: "('r \<Rightarrow> bool) \<Rightarrow> (nat \<Rightarrow> Response) \<Rightarrow> 'r \<Rightarrow> 'r SendError + unit" where
  "proxy_send can_clone resp req = proxy_send_loop can_clone resp req 0"

text \<open>The headers are built once, with the API key of the first flush.\<close>

record ProxyFlusher =
  pf_headers :: "header_map option"
  pf_aggregator :: "(header_map, bytes) ProxyAggregator"

record ProxyWorld =
  pw_can_clone :: "Request \<Rightarrow> bool"
  pw_header_ok :: "string \<Rightarrow> bool"
  pw_order :: "(Request SendError + unit) list \<Rightarrow> (Request SendError + unit) list"
  pw_api_key :: "string option"
  pw_net :: "nat \<Rightarrow> nat \<Rightarrow> Response"
  pw_resource_name :: "string option"
  pw_timeout :: nat

definition proxy_headers :: "ProxyWorld \<Rightarrow> string \<Rightarrow> ProxyFlusher \<Rightarrow> header_map option" where
  "proxy_headers w api_key pf =
     (case pf_headers pf of
        Some h \<Rightarrow> Some h
      | None \<Rightarrow>
          (let tags = ''_dd.origin:lambda;functionname:''
                 @ (case pw_resource_name w of Some r \<Rightarrow> r | None \<Rightarrow> [])
           in if pw_header_ok w api_key \<and> pw_header_ok w tags
              then Some (header_insert ''x-datadog-additional-tags'' tags
                     (header_insert ''dd-api-key'' api_key []))
              else None))"

definition proxy_create_request ::
    "ProxyWorld \<Rightarrow> header_map \<Rightarrow> (header_map, bytes) ProxyRequest \<Rightarrow> Request" where
  "proxy_create_request w own pr =
     \<lparr>rq_url = target_url pr,
      rq_headers = header_extend own (header_remove ''content-length'' (header_remove ''host'' (pr_headers pr))),
      rq_timeout = pw_timeout w, rq_body = pr_body pr\<rparr>"

definition get_failed_requests :: "(Request \<Rightarrow> bool) \<Rightarrow> (Request SendError + unit) list \<Rightarrow> Request list option" where
  "get_failed_requests can_clone results =
     (let failed = filter can_clone (failed_requests results) in if failed = [] then None else Some failed)"

definition proxy_send_all :: "ProxyWorld \<Rightarrow> Request list \<Rightarrow> Request list option" where
  "proxy_send_all w reqs = get_failed_requests (pw_can_clone w) (pw_order w
     (map (\<lambda>(i, req). proxy_send (pw_can_clone w) (pw_net w i) req) (enumerate 0 reqs)))"

text \<open>The headers are asked for with the first request of a batch; an empty batch leaves them unset.\<close>

definition proxy_flush ::
    "ProxyWorld \<Rightarrow> Request list option \<Rightarrow> ProxyFlusher \<Rightarrow> (Request list option \<times> ProxyFlusher) option" where
  "proxy_flush w retry_requests pf =
     (case pw_api_key w of
        None \<Rightarrow> Some (None, pf\<lparr>pf_aggregator := pa_clear (pf_aggregator pf)\<rparr>)
      | Some key \<Rightarrow>
          (case retry_requests of
             Some (r # rs) \<Rightarrow> Some (proxy_send_all w (r # rs), pf)
           | _ \<Rightarrow>
               (let (batch, pa) = pa_get_batch (pf_aggregator pf);
                    pf' = pf\<lparr>pf_aggregator := pa\<rparr>
                in if batch = [] then Some (proxy_send_all w [], pf')
                   else map_option (\<lambda>own.
                          (proxy_send_all w (map (proxy_create_request w own) batch),
                           pf'\<lparr>pf_headers := Some own\<rparr>)) (proxy_headers w key pf'))))"

section \<open>Traces\<close>

definition S_TO_MS :: u64 where
  "S_TO_MS = 1000"

text \<open>The retry strategy of the trace library: attempts, delay in milliseconds, kind of backoff, jitter.\<close>

datatype RetryBackoffType = Linear | Constant | Exponential

type_synonym RetryStrategy = "nat \<times> nat \<times> RetryBackoffType \<times> nat option"

definition trace_retry_strategy :: RetryStrategy where
  "trace_retry_strategy = (FLUSH_RETRY_COUNT, 0, Constant, None)"

record Endpoint =
  ep_url :: string
  ep_api_key :: "string option"
  ep_timeout_ms :: u64

text \<open>
  One endpoint for every URL and key, in the order the map of the configuration is enumerated; a URL that
  does not parse is a panic.
\<close>

definition trace_additional_endpoints ::
    "(string \<Rightarrow> string) \<Rightarrow> (string \<Rightarrow> bool) \<Rightarrow> u64 \<Rightarrow> (string \<times> string list) list \<Rightarrow> Endpoint list option" where
  "trace_additional_endpoints prefixed uri_ok timeout eps =
     those (concat (map (\<lambda>(url, keys). map (\<lambda>key.
       if uri_ok (prefixed url)
       then Some \<lparr>ep_url = prefixed url, ep_api_key = Some key, ep_timeout_ms = timeout * S_TO_MS\<rparr>
       else None) keys) eps))"

text \<open>
  \<open>SendData\<close> is \<open>'d\<close>: how a builder makes one, how it is made again for another endpoint (\<open>None\<close> for a
  payload of another version), how a list of them is coalesced and whether a send ends without error are
  those of the library. \<open>tw_net t i\<close> is the outcome of payload \<open>i\<close> of task \<open>t\<close>.
\<close>

record ('b, 'g, 'd) TraceWorld =
  tw_api_key :: "string option"
  tw_build :: "string \<Rightarrow> RetryStrategy \<Rightarrow> 'b \<Rightarrow> 'd"
  tw_retarget :: "RetryStrategy \<Rightarrow> Endpoint \<Rightarrow> 'g OwnedTracerHeaderTags \<Rightarrow> 'd \<Rightarrow> 'd option"
  tw_coalesce :: "'d list \<Rightarrow> 'd list"
  tw_order :: "'d list option list \<Rightarrow> 'd list option list"
  tw_net :: "nat \<Rightarrow> nat \<Rightarrow> bool"
  tw_retry_net :: "nat \<Rightarrow> bool"
  tw_service :: bool

text \<open>The loop stops at the first error. Beside the outcome it gives the payloads that were accepted.\<close>

fun send_traces_loop :: "(nat \<Rightarrow> bool) \<Rightarrow> nat \<Rightarrow> 'd list \<Rightarrow> 'd list \<times> bool" where
  "send_traces_loop ok i [] = ([], True)"
| "send_traces_loop ok i (d # ds) =
     (if ok i then (let (sent, all) = send_traces_loop ok (i + 1) ds in (d # sent, all)) else ([], False))"

definition send_traces ::
    "('d list \<Rightarrow> 'd list) \<Rightarrow> (nat \<Rightarrow> bool) \<Rightarrow> 'd list \<Rightarrow> 'd list option \<times> 'd list" where
  "send_traces coalesce ok traces =
     (if traces = [] then (None, [])
      else let coalesced = coalesce traces;
               (sent, all) = send_traces_loop ok 0 coalesced
           in (if all then None else Some coalesced, sent))"

definition trace_tasks ::
    "('b, 'g, 'd) TraceWorld \<Rightarrow> string \<Rightarrow> Endpoint list \<Rightarrow> ('b, 'g) SendDataBuilderInfo list list
      \<Rightarrow> 'd list list" where
  "trace_tasks w key eps batches = concat (map (\<lambda>infos.
     (let traces = map (\<lambda>info. (tw_build w key trace_retry_strategy (builder info), header_tags info)) infos
      in map (\<lambda>ep. List.map_filter (\<lambda>(trace, tags). tw_retarget w trace_retry_strategy ep tags trace) traces) eps
         @ [map fst traces])) batches)"

definition trace_send_all ::
    "('b, 'g, 'd) TraceWorld \<Rightarrow> 'd list list \<Rightarrow> ('d list option \<times> 'd list) list" where
  "trace_send_all w tasks =
     map (\<lambda>(t, traces). send_traces (tw_coalesce w) (tw_net w t) traces) (enumerate 0 tasks)"

definition trace_flush ::
    "('b, 'g, 'd) TraceWorld \<Rightarrow> Endpoint list \<Rightarrow> 'd list option \<Rightarrow> ('b, 'g) TraceAggregator
      \<Rightarrow> ('d list option \<times> 'd list \<times> ('b, 'g) TraceAggregator) option" where
  "trace_flush w eps failed_traces ta =
     (case tw_api_key w of
        None \<Rightarrow> Some (None, [], if tw_service w then ta_clear ta else ta)
      | Some key \<Rightarrow>
          (let (retry_result, sent) = (case failed_traces of
                 Some traces \<Rightarrow> send_traces (tw_coalesce w) (tw_retry_net w) traces
               | None \<Rightarrow> (None, []))
           in if retry_result \<noteq> None then Some (retry_result, sent, ta)
              else if \<not> tw_service w then Some (None, sent, ta)
              else map_option (\<lambda>(batches, ta').
                     (let results = trace_send_all w (trace_tasks w key eps batches);
                          failed = concat (List.map_filter id (tw_order w (map fst results)))
                      in (if failed = [] then None else Some failed, sent @ concat (map snd results), ta')))
                   (ta_get_batches ta)))"

section \<open>Stats\<close>

definition BACKOFF_BASE_MS :: nat where
  "BACKOFF_BASE_MS = 50"

datatype Classification = Class_Success | Class_Retriable | Class_Permanent

datatype SendOutcome = Outcome_Success | Outcome_Retriable | Outcome_Permanent

datatype SendResult = Delivered | Retriable | Permanent

text \<open>Durations are nanoseconds below the greatest \<open>Duration\<close>; products and powers saturate.\<close>

definition DURATION_MAX :: nat where
  "DURATION_MAX = (2 ^ 64 - 1) * 1000000000 + 999999999"

definition upper_bound :: "nat \<Rightarrow> nat \<Rightarrow> nat" where
  "upper_bound base retry = min (base * min (2 ^ (retry - 1)) (2 ^ 32 - 1)) DURATION_MAX"

text \<open>\<open>rng retry upper\<close> is the number drawn from \<open>0..=upper\<close>; the delay is in milliseconds.\<close>

definition backoff_delay :: "(nat \<Rightarrow> nat \<Rightarrow> nat) \<Rightarrow> nat \<Rightarrow> nat \<Rightarrow> nat" where
  "backoff_delay rng base retry =
     (let upper_ms = upper_bound base retry div 1000000
      in rng retry (if upper_ms < 2 ^ 64 then upper_ms else 2 ^ 64 - 1))"

definition classify_status :: "nat \<Rightarrow> Classification" where
  "classify_status st =
     (if is_success st then Class_Success
      else if st = 408 \<or> st = 425 \<or> st = 429 \<or> is_server_error st then Class_Retriable
      else Class_Permanent)"

definition send_stats_payload :: "(string \<Rightarrow> bool) \<Rightarrow> string \<Rightarrow> Response \<Rightarrow> SendOutcome" where
  "send_stats_payload header_ok api_key resp =
     (if \<not> header_ok api_key then Outcome_Permanent
      else case resp of
        Client_error \<Rightarrow> Outcome_Retriable
      | Status_code st \<Rightarrow>
          (case classify_status st of
             Class_Success \<Rightarrow> Outcome_Success
           | Class_Retriable \<Rightarrow> Outcome_Retriable
           | Class_Permanent \<Rightarrow> Outcome_Permanent))"

text \<open>The attempts still to make, and the delays slept between them.\<close>

fun send_with_retry_loop ::
    "(nat \<Rightarrow> SendOutcome) \<Rightarrow> (nat \<Rightarrow> nat) \<Rightarrow> nat list \<Rightarrow> SendResult \<times> nat list" where
  "send_with_retry_loop outcome delay [] = (Retriable, [])"
| "send_with_retry_loop outcome delay (attempt # attempts) =
     (case outcome attempt of
        Outcome_Success \<Rightarrow> (Delivered, [])
      | Outcome_Permanent \<Rightarrow> (Permanent, [])
      | Outcome_Retriable \<Rightarrow>
          (let (result, delays) = send_with_retry_loop outcome delay attempts
           in (result, (if attempt < FLUSH_RETRY_COUNT then [delay attempt] else []) @ delays)))"

definition send_with_retry ::
    "(string \<Rightarrow> bool) \<Rightarrow> (nat \<Rightarrow> nat \<Rightarrow> nat) \<Rightarrow> string \<Rightarrow> nat \<Rightarrow> (nat \<Rightarrow> Response) \<Rightarrow> SendResult \<times> nat list" where
  "send_with_retry header_ok rng api_key base resp =
     send_with_retry_loop (\<lambda>attempt. send_stats_payload header_ok api_key (resp attempt))
       (backoff_delay rng base) [1..<FLUSH_RETRY_COUNT + 1]"

text \<open>
  \<open>sw_serialize\<close> builds and compresses the message of a list of payloads; \<open>sw_net s n\<close> answers attempt \<open>n\<close>
  of the \<open>s\<close>-th send of a flush; \<open>sw_concentrator force i\<close> is the \<open>i\<close>-th answer of the stats concentrator;
  \<open>sw_size\<close> is the size of the struct that \<open>get_batch\<close> adds up; \<open>sw_url_ok\<close> says that the URL parses.
\<close>

record 'p StatsWorld =
  sw_api_key :: "string option"
  sw_header_ok :: "string \<Rightarrow> bool"
  sw_url_ok :: bool
  sw_serialize :: "'p list \<Rightarrow> bytes option"
  sw_rng :: "nat \<Rightarrow> nat \<Rightarrow> nat"
  sw_net :: "nat \<Rightarrow> nat \<Rightarrow> Response"
  sw_size :: nat
  sw_concentrator :: "bool \<Rightarrow> nat \<Rightarrow> unit + 'p option"

definition stats_send :: "'p StatsWorld \<Rightarrow> nat \<Rightarrow> 'p list \<Rightarrow> 'p list option option" where
  "stats_send w s stats =
     (if stats = [] then Some None
      else case sw_api_key w of
        None \<Rightarrow> Some None
      | Some key \<Rightarrow>
          (if \<not> sw_url_ok w then None
           else case sw_serialize w stats of
             None \<Rightarrow> Some None
           | Some payload \<Rightarrow>
               (case fst (send_with_retry (sw_header_ok w) (sw_rng w) key (BACKOFF_BASE_MS * 1000000) (sw_net w s)) of
                  Retriable \<Rightarrow> Some (Some stats)
                | Delivered \<Rightarrow> Some None
                | Permanent \<Rightarrow> Some None)))"

partial_function (option) stats_batches ::
    "nat \<Rightarrow> (nat \<Rightarrow> unit + 'p option) \<Rightarrow> nat \<Rightarrow> 'p StatsAggregator \<Rightarrow> ('p list list \<times> 'p StatsAggregator) option" where
  "stats_batches sz flushed i sa =
     (let b = fst (sa_get_batch sz (flushed i) sa); sa' = snd (sa_get_batch sz (flushed i) sa)
      in if b = [] then Some ([], sa')
         else Option.bind (stats_batches sz flushed (i + 1) sa') (\<lambda>r. Some (b # fst r, snd r)))"

fun stats_send_all :: "'p StatsWorld \<Rightarrow> nat \<Rightarrow> 'p list list \<Rightarrow> 'p list option" where
  "stats_send_all w s [] = Some []"
| "stats_send_all w s (stats # batches) =
     Option.bind (stats_send w s stats) (\<lambda>failed. map_option
       (\<lambda>rest. unwrap_or_default failed @ rest) (stats_send_all w (s + 1) batches))"

text \<open>The payloads of an earlier flush are sent first, as send number 0.\<close>

definition stats_flush ::
    "'p StatsWorld \<Rightarrow> bool \<Rightarrow> 'p list option \<Rightarrow> 'p StatsAggregator
      \<Rightarrow> ('p list option \<times> 'p StatsAggregator) option" where
  "stats_flush w force_flush failed_stats sa =
     Option.bind (stats_send w 0 (unwrap_or_default failed_stats)) (\<lambda>still.
       Option.bind (stats_batches (sw_size w) (sw_concentrator w force_flush) 0 sa) (\<lambda>(batches, sa').
         map_option (\<lambda>failed.
           (let all_failed = unwrap_or_default still @ failed
            in (if all_failed = [] then None else Some all_failed, sa')))
           (stats_send_all w 1 batches)))"

section \<open>What a sender promises\<close>

text \<open>
  The senders of logs and of proxied requests differ in the answers they take as final. The locale states
  what they share: the request is settled when one of the first three answers is final, and is handed back
  unchanged otherwise.
\<close>

definition settled :: "(Response \<Rightarrow> bool) \<Rightarrow> (nat \<Rightarrow> Response) \<Rightarrow> bool" where
  "settled final resp \<longleftrightarrow> (\<exists>n \<in> {1..FLUSH_RETRY_COUNT}. final (resp n))"

lemma settled_unfold: "settled final resp \<longleftrightarrow> final (resp 1) \<or> final (resp 2) \<or> final (resp 3)"
proof -
  have "{1..FLUSH_RETRY_COUNT} = {1, 2, 3}"
    by (auto simp: FLUSH_RETRY_COUNT_def)
  then show ?thesis by (simp add: settled_def)
qed

definition unsettled :: "(Response \<Rightarrow> bool) \<Rightarrow> (nat \<Rightarrow> nat \<Rightarrow> Response) \<Rightarrow> 'r list \<Rightarrow> 'r list" where
  "unsettled final net reqs = map snd (filter (\<lambda>(i, req). \<not> settled final (net i)) (enumerate 0 reqs))"

locale retrying_sender =
  fixes send :: "('r \<Rightarrow> bool) \<Rightarrow> (nat \<Rightarrow> Response) \<Rightarrow> 'r \<Rightarrow> 'r SendError + unit"
    and final :: "Response \<Rightarrow> bool"
  assumes send_settles: "can_clone req \<Longrightarrow> settled final resp \<Longrightarrow> send can_clone resp req = Inr ()"
    and send_hands_back: "can_clone req \<Longrightarrow> \<not> settled final resp \<Longrightarrow>
      send can_clone resp req = Inl (FailedRequestError req)"
begin

lemma failed_of_sends:
  assumes "\<forall>p \<in> set ps. can_clone (snd p)"
  shows "failed_requests (map (\<lambda>(i, req). send can_clone (net i) req) ps)
    = map snd (filter (\<lambda>(i, req). \<not> settled final (net i)) ps)"
  using assms
proof (induction ps)
  case Nil
  then show ?case by (simp add: failed_requests_def List.map_filter_def)
next
  case (Cons p ps)
  then show ?case
    by (cases p; cases "settled final (net (fst p))")
       (simp_all add: failed_requests_def List.map_filter_def send_settles send_hands_back)
qed

lemma failed_of_all:
  assumes "\<forall>req \<in> set reqs. can_clone req"
  shows "failed_requests (map (\<lambda>(i, req). send can_clone (net i) req) (enumerate 0 reqs))
    = unsettled final net reqs"
proof -
  have "\<forall>p \<in> set (enumerate 0 reqs). can_clone (snd p)"
    using assms by (auto simp: in_set_enumerate_eq)
  from failed_of_sends [OF this] show ?thesis
    by (simp add: unsettled_def)
qed

end

fun logs_final :: "Response \<Rightarrow> bool" where
  "logs_final (Status_code st) \<longleftrightarrow> st = 403 \<or> is_success st"
| "logs_final Client_error \<longleftrightarrow> False"

fun proxy_final :: "Response \<Rightarrow> bool" where
  "proxy_final (Status_code st) \<longleftrightarrow> st = 202 \<or> st = 200"
| "proxy_final Client_error \<longleftrightarrow> False"

lemma logs_send_loop_step:
  assumes "can_clone req"
  shows "logs_send_loop can_clone resp req k =
    (if logs_final (resp (k + 1)) then Inr ()
     else if k + 1 \<ge> FLUSH_RETRY_COUNT then Inl (FailedRequestError req)
     else logs_send_loop can_clone resp req (k + 1))"
  using assms by (subst logs_send_loop.simps) (auto simp: Let_def split: Response.split)

lemma proxy_send_loop_step:
  assumes "can_clone req"
  shows "proxy_send_loop can_clone resp req k =
    (if proxy_final (resp (k + 1)) then Inr ()
     else if k + 1 \<ge> FLUSH_RETRY_COUNT then Inl (FailedRequestError req)
     else proxy_send_loop can_clone resp req (k + 1))"
  using assms by (subst proxy_send_loop.simps) (auto simp: Let_def split: Response.split)

lemma logs_send_closed:
  assumes "can_clone req"
  shows "logs_send can_clone resp req =
    (if settled logs_final resp then Inr () else Inl (FailedRequestError req))"
  using logs_send_loop_step [of can_clone req resp 0] logs_send_loop_step [of can_clone req resp 1]
    logs_send_loop_step [of can_clone req resp 2] assms
  by (simp add: logs_send_def settled_unfold FLUSH_RETRY_COUNT_def numeral_eq_Suc)

lemma proxy_send_closed:
  assumes "can_clone req"
  shows "proxy_send can_clone resp req =
    (if settled proxy_final resp then Inr () else Inl (FailedRequestError req))"
  using proxy_send_loop_step [of can_clone req resp 0] proxy_send_loop_step [of can_clone req resp 1]
    proxy_send_loop_step [of can_clone req resp 2] assms
  by (simp add: proxy_send_def settled_unfold FLUSH_RETRY_COUNT_def numeral_eq_Suc)

interpretation logs_sender: retrying_sender logs_send logs_final
  by unfold_locales (simp_all add: logs_send_closed)

interpretation proxy_sender: retrying_sender proxy_send proxy_final
  by unfold_locales (simp_all add: proxy_send_closed)

lemma mset_map_filter: "mset xs = mset ys \<Longrightarrow> mset (List.map_filter f xs) = mset (List.map_filter f ys)"
  by (simp add: List.map_filter_def)

lemma mset_failed_requests:
  "mset xs = mset ys \<Longrightarrow> mset (failed_requests xs) = mset (failed_requests ys)"
  unfolding failed_requests_def by (rule mset_map_filter)

section \<open>Whole flushes\<close>

lemma those_all: "\<forall>x \<in> set xs. f x = Some (g x) \<Longrightarrow> those (map f xs) = Some (map g xs)"
  by (induction xs) auto

lemma mset_concat_cong:
  "(\<And>x. x \<in> set xs \<Longrightarrow> mset (f x) = mset (g x)) \<Longrightarrow> mset (concat (map f xs)) = mset (concat (map g xs))"
  by (induction xs) auto

text \<open>The request of one batch for one endpoint.\<close>

definition logs_request :: "LogsFlushConfig \<Rightarrow> string \<Rightarrow> string \<Rightarrow> bytes \<Rightarrow> Request" where
  "logs_request cfg endpoint key data = the (logs_create_request cfg (\<lambda>s. True) endpoint key data)"

lemma logs_create_request_ok:
  "header_ok key \<Longrightarrow> logs_create_request cfg header_ok endpoint key data = Some (logs_request cfg endpoint key data)"
  by (simp add: logs_request_def logs_create_request_def logs_headers_def Let_def)

text \<open>
  What a flush relies on: the results of the tasks are collected in some order, requests can be cloned, and
  the API keys that are resolved are header values.
\<close>

definition logs_world_ok :: "LogsWorld \<Rightarrow> bool" where
  "logs_world_ok w \<longleftrightarrow> (\<forall>rs. mset (lw_order w rs) = mset rs) \<and> (\<forall>req. lw_can_clone w req)
     \<and> (\<forall>f key. lw_api_key w f = Some key \<longrightarrow> lw_header_ok w key)
     \<and> (\<forall>data out. lw_encode w data = Some out \<longrightarrow> out \<noteq> [])"

definition unsettled_of_flusher ::
    "LogsFlushConfig \<Rightarrow> LogsWorld \<Rightarrow> bytes list \<Rightarrow> nat \<times> string \<Rightarrow> Request list" where
  "unsettled_of_flusher cfg w batches = (\<lambda>(f, endpoint).
     (case lw_api_key w f of
        None \<Rightarrow> []
      | Some key \<Rightarrow> unsettled logs_final (lw_net w f) (map (logs_request cfg endpoint key) batches)))"

lemma flusher_flush_spec:
  assumes w: "logs_world_ok w" and "\<forall>b \<in> set batches. b \<noteq> []"
  obtains failed where "flusher_flush cfg w f endpoint batches = Some failed"
    and "mset failed = mset (unsettled_of_flusher cfg w batches (f, endpoint))"
proof (cases "lw_api_key w f")
  case None
  then show ?thesis
    using that [of "[]"] by (simp add: flusher_flush_def unsettled_of_flusher_def)
next
  case (Some key)
  let ?reqs = "map (logs_request cfg endpoint key) batches"
  have "those (map (logs_create_request cfg (lw_header_ok w) endpoint key) batches) = Some ?reqs"
    using w Some by (intro those_all) (simp add: logs_world_ok_def logs_create_request_ok)
  moreover have "filter (\<lambda>b. b \<noteq> []) batches = batches"
    using assms(2) by (simp add: filter_id_conv)
  moreover have "mset (failed_requests (lw_order w (logs_send_all w f ?reqs)))
      = mset (failed_requests (logs_send_all w f ?reqs))"
    using w by (intro mset_failed_requests) (simp add: logs_world_ok_def)
  moreover have "failed_requests (logs_send_all w f ?reqs) = unsettled logs_final (lw_net w f) ?reqs"
    unfolding logs_send_all_def using w by (intro logs_sender.failed_of_all) (simp add: logs_world_ok_def)
  ultimately show ?thesis
    using that Some by (simp add: flusher_flush_def unsettled_of_flusher_def)
qed

lemma flush_batches_spec:
  assumes "logs_world_ok w" and "\<forall>b \<in> set batches. b \<noteq> []"
  obtains failed where "flush_batches cfg w batches = Some failed"
    and "mset failed = mset (concat (map (unsettled_of_flusher cfg w batches) (enumerate 0 (logs_endpoints cfg))))"
proof -
  let ?g = "\<lambda>(f, endpoint). the (flusher_flush cfg w f endpoint batches)"
  have one: "flusher_flush cfg w f e batches = Some (?g (f, e))
      \<and> mset (?g (f, e)) = mset (unsettled_of_flusher cfg w batches (f, e))" for f e
    using flusher_flush_spec [OF assms, of cfg f e] by fastforce
  have "those (map (\<lambda>(f, e). flusher_flush cfg w f e batches) (enumerate 0 (logs_endpoints cfg)))
      = Some (map ?g (enumerate 0 (logs_endpoints cfg)))"
    using one by (intro those_all) auto
  moreover have "mset (concat (map ?g (enumerate 0 (logs_endpoints cfg))))
      = mset (concat (map (unsettled_of_flusher cfg w batches) (enumerate 0 (logs_endpoints cfg))))"
  proof (rule mset_concat_cong)
    fix x show "mset (?g x) = mset (unsettled_of_flusher cfg w batches x)"
      using one by (cases x) auto
  qed
  ultimately show ?thesis
    using that by (simp add: flush_batches_def)
qed

lemma logs_compress_nonempty:
  "logs_world_ok w \<Longrightarrow> b \<noteq> [] \<Longrightarrow> logs_compress cfg (lw_encode w) b \<noteq> []"
  by (auto simp: logs_compress_def logs_world_ok_def split: option.split)

lemma json_array_nonempty: "g \<noteq> [] \<Longrightarrow> json_array g \<noteq> []"
  by (simp add: json_array_def)

lemma logs_flush_spec:
  assumes "logs_world_ok w" and "lw_service w" and inv: "la_inv entries m la" "0 < entries"
  shows "\<exists>gs failed la'. logs_flush cfg w la = Some (failed, la')
    \<and> concat gs = takeWhile (fits m) (messages la) \<and> messages la' = dropWhile (fits m) (messages la)
    \<and> la_inv entries m la'
    \<and> mset failed = mset (concat (map (unsettled_of_flusher cfg w
        (map (logs_compress cfg (lw_encode w)) (map json_array gs))) (enumerate 0 (logs_endpoints cfg))))"
proof -
  obtain gs la' where get: "la_get_batches la = Some (map json_array gs, la')" "la_inv entries m la'"
      "concat gs = takeWhile (fits m) (messages la)" "messages la' = dropWhile (fits m) (messages la)"
      "\<forall>g \<in> set gs. g \<noteq> [] \<and> logs_batch_ok entries m g"
    using la_get_batches_exact [OF inv] by blast
  let ?bs = "map (logs_compress cfg (lw_encode w)) (map json_array gs)"
  have "\<forall>b \<in> set ?bs. b \<noteq> []"
    using get(5) by (auto simp: logs_compress_nonempty [OF assms(1)] json_array_nonempty)
  then obtain failed where "flush_batches cfg w ?bs = Some failed" "mset failed = mset (concat
      (map (unsettled_of_flusher cfg w ?bs) (enumerate 0 (logs_endpoints cfg))))"
    using flush_batches_spec [OF assms(1)] by blast
  with get assms(2) show ?thesis
    by (intro exI [of _ gs] exI [of _ failed] exI [of _ la']) (simp add: logs_flush_def)
qed

text \<open>Traces: which payloads are accepted, and which are handed back.\<close>

definition accepted :: "(nat \<Rightarrow> bool) \<Rightarrow> 'd list \<Rightarrow> 'd list" where
  "accepted ok ds = map snd (takeWhile (\<lambda>(i, d). ok i) (enumerate 0 ds))"

lemma send_traces_loop_spec:
  "send_traces_loop ok i ds =
    (map snd (takeWhile (\<lambda>(i, d). ok i) (enumerate i ds)), \<forall>j < length ds. ok (i + j))"
proof (induction ds arbitrary: i)
  case Nil
  then show ?case by simp
next
  case (Cons d ds)
  have "(\<forall>j < length (d # ds). ok (i + j)) \<longleftrightarrow> ok i \<and> (\<forall>j < length ds. ok (i + 1 + j))"
    by (auto simp: less_Suc_eq_0_disj)
  with Cons [of "i + 1"] show ?case by simp
qed

lemma send_traces_spec:
  "send_traces coalesce ok traces =
    (if traces = [] \<or> (\<forall>i < length (coalesce traces). ok i) then None else Some (coalesce traces),
     if traces = [] then [] else accepted ok (coalesce traces))"
  by (simp add: send_traces_def send_traces_loop_spec accepted_def Let_def)

definition task_fails :: "('b, 'g, 'd) TraceWorld \<Rightarrow> nat \<times> 'd list \<Rightarrow> bool" where
  "task_fails w = (\<lambda>(t, traces). traces \<noteq> [] \<and> (\<exists>i < length (tw_coalesce w traces). \<not> tw_net w t i))"

lemma failed_of_tasks:
  "concat (List.map_filter id (map fst (map (\<lambda>(t, ds). send_traces (tw_coalesce w) (tw_net w t) ds) ps)))
    = concat (map (\<lambda>(t, ds). tw_coalesce w ds) (filter (task_fails w) ps))"
proof (induction ps)
  case Nil
  then show ?case by (simp add: List.map_filter_def)
next
  case (Cons p ps)
  obtain t ds where p: "p = (t, ds)" by (cases p)
  have "fst (send_traces (tw_coalesce w) (tw_net w t) ds)
      = (if task_fails w (t, ds) then Some (tw_coalesce w ds) else None)"
    by (auto simp: send_traces_spec task_fails_def)
  then have step: "concat (List.map_filter id (map fst (map (\<lambda>(t, ds). send_traces (tw_coalesce w) (tw_net w t) ds) (p # ps))))
      = (if task_fails w p then tw_coalesce w ds else [])
        @ concat (List.map_filter id (map fst (map (\<lambda>(t, ds). send_traces (tw_coalesce w) (tw_net w t) ds) ps)))"
    by (simp add: p List.map_filter_def)
  show ?case
    unfolding step Cons.IH by (simp add: p)
qed

lemma accepted_of_tasks:
  "map snd (map (\<lambda>(t, ds). send_traces (tw_coalesce w) (tw_net w t) ds) ps)
    = map (\<lambda>(t, ds). if ds = [] then [] else accepted (tw_net w t) (tw_coalesce w ds)) ps"
  by (induction ps) (auto simp: send_traces_spec)

lemma mset_concat_mset: "mset xs = mset ys \<Longrightarrow> mset (concat xs) = mset (concat ys)"
proof -
  have "mset (concat zs) = sum_mset (image_mset mset (mset zs))" for zs :: "'a list list"
    by (induction zs) simp_all
  then show "mset xs = mset ys \<Longrightarrow> mset (concat xs) = mset (concat ys)" by simp
qed

lemma trace_flush_spec:
  assumes "tw_api_key w = Some key" and "tw_service w" and "\<And>rs. mset (tw_order w rs) = mset rs"
    and "ta_inv m ta"
  shows "\<exists>gs r sent ta'. trace_flush w eps None ta = Some (r, sent, ta')
    \<and> concat gs = ta_queue ta \<and> ta_queue ta' = [] \<and> ta_inv m ta'
    \<and> mset (unwrap_or_default r) = mset (concat (map (\<lambda>(t, ds). tw_coalesce w ds)
        (filter (task_fails w) (enumerate 0 (trace_tasks w key eps gs)))))
    \<and> sent = concat (map (\<lambda>(t, ds). if ds = [] then [] else accepted (tw_net w t) (tw_coalesce w ds))
        (enumerate 0 (trace_tasks w key eps gs)))"
proof -
  obtain gs ta' where get: "ta_get_batches ta = Some (gs, ta')" "ta_inv m ta'" "concat gs = ta_queue ta"
      "ta_queue ta' = []"
    using ta_get_batches_drains [OF assms(4)] by blast
  define results where "results = trace_send_all w (trace_tasks w key eps gs)"
  define failed where "failed = concat (List.map_filter id (tw_order w (map fst results)))"
  have flush: "trace_flush w eps None ta
      = Some (if failed = [] then None else Some failed, concat (map snd results), ta')"
    by (simp add: trace_flush_def assms get(1) results_def failed_def Let_def)
  have "mset failed = mset (concat (List.map_filter id (map fst results)))"
    unfolding failed_def by (intro mset_concat_mset mset_map_filter assms(3))
  also have "concat (List.map_filter id (map fst results)) = concat (map (\<lambda>(t, ds). tw_coalesce w ds)
        (filter (task_fails w) (enumerate 0 (trace_tasks w key eps gs))))"
    unfolding results_def trace_send_all_def by (rule failed_of_tasks)
  finally have "mset (unwrap_or_default (if failed = [] then None else Some failed)) = mset (concat
      (map (\<lambda>(t, ds). tw_coalesce w ds) (filter (task_fails w) (enumerate 0 (trace_tasks w key eps gs)))))"
    by (cases "failed = []") (simp_all add: unwrap_or_default_def)
  moreover have "map snd results = map (\<lambda>(t, ds). if ds = [] then [] else accepted (tw_net w t) (tw_coalesce w ds))
        (enumerate 0 (trace_tasks w key eps gs))"
    unfolding results_def trace_send_all_def by (rule accepted_of_tasks)
  ultimately show ?thesis
    by (intro exI [of _ gs] exI conjI) (rule flush get | simp only:)+
qed

text \<open>Stats: the attempts, the time slept between them, and the loop that collects the batches.\<close>

fun stats_final :: "Response \<Rightarrow> bool" where
  "stats_final Client_error \<longleftrightarrow> False"
| "stats_final (Status_code st) \<longleftrightarrow> classify_status st \<noteq> Class_Retriable"

lemma send_stats_payload_retriable:
  "send_stats_payload header_ok key resp = Outcome_Retriable \<longleftrightarrow> header_ok key \<and> \<not> stats_final resp"
  by (cases resp) (auto simp: send_stats_payload_def split: Classification.splits)

lemma attempts_list: "[1..<FLUSH_RETRY_COUNT + 1] = [1, 2, 3]"
  by (simp add: FLUSH_RETRY_COUNT_def upt_rec numeral_eq_Suc)

lemma send_with_retry_result:
  "fst (send_with_retry header_ok rng key base resp) = Retriable
    \<longleftrightarrow> header_ok key \<and> \<not> settled stats_final resp"
proof -
  let ?o = "\<lambda>n. send_stats_payload header_ok key (resp n)"
  have "fst (send_with_retry header_ok rng key base resp) = Retriable \<longleftrightarrow>
      ?o 1 = Outcome_Retriable \<and> ?o 2 = Outcome_Retriable \<and> ?o 3 = Outcome_Retriable"
    unfolding send_with_retry_def attempts_list
    by (cases "?o 1"; cases "?o 2"; cases "?o 3") simp_all
  then show ?thesis
    by (auto simp: send_stats_payload_retriable settled_unfold)
qed

lemma backoff_delay_le:
  assumes "\<And>retry upper. rng retry upper \<le> upper"
  shows "backoff_delay rng (BACKOFF_BASE_MS * 1000000) retry \<le> 50 * 2 ^ (retry - 1)"
proof -
  let ?u = "upper_bound (BACKOFF_BASE_MS * 1000000) retry div 1000000"
  have "upper_bound (BACKOFF_BASE_MS * 1000000) retry \<le> (50 * 2 ^ (retry - 1)) * 1000000"
    by (auto simp: upper_bound_def BACKOFF_BASE_MS_def intro: min.coboundedI1)
  then have "?u \<le> (50 * 2 ^ (retry - 1)) * 1000000 div 1000000"
    by (rule div_le_mono)
  then have "?u \<le> 50 * 2 ^ (retry - 1)" by simp
  moreover have "backoff_delay rng (BACKOFF_BASE_MS * 1000000) retry \<le> ?u"
    using assms [of retry ?u] assms [of retry "2 ^ 64 - 1"]
    by (simp add: backoff_delay_def Let_def)
  ultimately show ?thesis by (rule le_trans [rotated])
qed

lemma send_with_retry_delays:
  assumes "\<And>retry upper. rng retry upper \<le> upper"
  shows "sum_list (snd (send_with_retry header_ok rng key (BACKOFF_BASE_MS * 1000000) resp)) \<le> 150
    \<and> length (snd (send_with_retry header_ok rng key (BACKOFF_BASE_MS * 1000000) resp)) < FLUSH_RETRY_COUNT"
proof -
  let ?o = "\<lambda>n. send_stats_payload header_ok key (resp n)"
  let ?d = "backoff_delay rng (BACKOFF_BASE_MS * 1000000)"
  have "?d 1 \<le> 50" "?d 2 \<le> 100"
    using backoff_delay_le [OF assms, where retry = 1] backoff_delay_le [OF assms, where retry = 2] by simp_all
  then show ?thesis
    unfolding send_with_retry_def attempts_list
    by (cases "?o 1"; cases "?o 2"; cases "?o 3") (simp_all add: FLUSH_RETRY_COUNT_def)
qed

lemma sa_get_batch_take:
  assumes "0 < sz" and "sa_buffer sa = []"
  shows "sa_get_batch sz flushed sa =
    (let queue = sa_queue sa @ (case flushed of Inr (Some p) \<Rightarrow> [p] | _ \<Rightarrow> []);
         n = sa_max_content_size_bytes sa div sz
     in (take n queue, sa\<lparr>sa_queue := drop n queue, sa_buffer := []\<rparr>))"
proof -
  have fill: "sa_fill sz m 0 queue [] = (drop (m div sz) queue, take (m div sz) queue)" for m and queue :: "'a list"
    using sa_fill_take [OF assms(1), of 0 m queue "[]"] by simp
  show ?thesis
    by (cases flushed) (simp_all add: sa_get_batch_def Let_def assms(2) fill split: option.split)
qed

text \<open>The payloads the concentrator gives in the calls \<open>i\<close> to \<open>k - 1\<close>.\<close>

definition given :: "(nat \<Rightarrow> unit + 'p option) \<Rightarrow> nat \<Rightarrow> nat \<Rightarrow> 'p list" where
  "given flushed i k = concat (map (\<lambda>j. case flushed j of Inr (Some p) \<Rightarrow> [p] | _ \<Rightarrow> []) [i..<k])"

lemma given_step: "i < k \<Longrightarrow> given flushed i k = (case flushed i of Inr (Some p) \<Rightarrow> [p] | _ \<Rightarrow> []) @ given flushed (Suc i) k"
  by (simp add: given_def upt_conv_Cons)

lemma stats_batches_drain:
  assumes sz: "0 < sz" "sz \<le> sa_max_content_size_bytes sa"
    and dry: "\<And>j p. n \<le> j \<Longrightarrow> flushed j \<noteq> Inr (Some p)"
    and "sa_buffer sa = []"
  shows "\<exists>bs sa' k. stats_batches sz flushed i sa = Some (bs, sa') \<and> i < k
    \<and> concat bs = sa_queue sa @ given flushed i k \<and> sa_queue sa' = [] \<and> sa_buffer sa' = []
    \<and> sa_max_content_size_bytes sa' = sa_max_content_size_bytes sa \<and> (\<forall>b \<in> set bs. b \<noteq> [])"
  using sz(2) assms(4)
proof (induction "length (sa_queue sa) + (n - i)" arbitrary: sa i rule: less_induct)
  case less
  define new where "new = (case flushed i of Inr (Some p) \<Rightarrow> [p] | _ \<Rightarrow> [])"
  define c where "c = sa_max_content_size_bytes sa div sz"
  define sa1 where "sa1 = sa\<lparr>sa_queue := drop c (sa_queue sa @ new), sa_buffer := []\<rparr>"
  have get: "sa_get_batch sz (flushed i) sa = (take c (sa_queue sa @ new), sa1)"
    unfolding sa_get_batch_take [OF sz(1) less.prems(2)] by (simp add: Let_def c_def new_def sa1_def)
  have c: "0 < c"
    using sz(1) less.prems(1) by (simp add: c_def div_greater_zero_iff)
  show ?case
  proof (cases "sa_queue sa @ new = []")
    case True
    then have "stats_batches sz flushed i sa = Some ([], sa1)"
      by (subst stats_batches.simps) (simp add: get)
    moreover have "given flushed i (Suc i) = []"
      using True by (simp add: given_def new_def)
    ultimately show ?thesis
      using True by (intro exI [of _ "[]"] exI [of _ sa1] exI [of _ "Suc i"]) (auto simp: sa1_def)
  next
    case False
    have "new = [] \<or> i < n \<and> length new = 1"
    proof (cases "i < n")
      case True
      then show ?thesis by (simp add: new_def split: sum.split option.split)
    next
      case False
      then have "flushed i \<noteq> Inr (Some p)" for p using dry by simp
      then show ?thesis by (simp add: new_def split: sum.split option.split)
    qed
    with False c have "length (sa_queue sa1) + (n - Suc i) < length (sa_queue sa) + (n - i)"
      by (cases "sa_queue sa") (auto simp: sa1_def)
    then obtain bs sa' k where r: "stats_batches sz flushed (Suc i) sa1 = Some (bs, sa')" "Suc i < k"
        "concat bs = sa_queue sa1 @ given flushed (Suc i) k" "sa_queue sa' = []" "sa_buffer sa' = []"
        "sa_max_content_size_bytes sa' = sa_max_content_size_bytes sa" "\<forall>b \<in> set bs. b \<noteq> []"
      using less.hyps [of sa1 "Suc i"] less.prems(1) by (auto simp: sa1_def)
    have "take c (sa_queue sa @ new) \<noteq> []"
      using False c by (cases "sa_queue sa @ new") (auto simp del: append_is_Nil_conv)
    with r(1) have "stats_batches sz flushed i sa = Some (take c (sa_queue sa @ new) # bs, sa')"
      by (subst stats_batches.simps) (simp add: get)
    moreover have "concat (take c (sa_queue sa @ new) # bs) = sa_queue sa @ given flushed i k"
    proof -
      have "concat (take c (sa_queue sa @ new) # bs)
          = (take c (sa_queue sa @ new) @ drop c (sa_queue sa @ new)) @ given flushed (Suc i) k"
        by (simp only: concat.simps r(3) append_assoc) (simp add: sa1_def)
      also have "\<dots> = sa_queue sa @ (new @ given flushed (Suc i) k)"
        by (simp only: append_take_drop_id append_assoc)
      also have "new @ given flushed (Suc i) k = given flushed i k"
        using r(2) by (simp add: given_step [of i k] new_def)
      finally show ?thesis .
    qed
    ultimately show ?thesis
      using r \<open>take c (sa_queue sa @ new) \<noteq> []\<close> by (intro exI [of _ "take c (sa_queue sa @ new) # bs"] exI [of _ sa'] exI [of _ k]) auto
  qed
qed

text \<open>Proxied requests.\<close>

definition proxy_world_ok :: "ProxyWorld \<Rightarrow> bool" where
  "proxy_world_ok w \<longleftrightarrow> (\<forall>rs. mset (pw_order w rs) = mset rs) \<and> (\<forall>req. pw_can_clone w req)
     \<and> (\<forall>s. pw_header_ok w s)"

lemma proxy_send_all_spec:
  assumes "proxy_world_ok w"
  shows "mset (unwrap_or_default (proxy_send_all w reqs)) = mset (unsettled proxy_final (pw_net w) reqs)"
proof -
  define results where
    "results = map (\<lambda>(i, req). proxy_send (pw_can_clone w) (pw_net w i) req) (enumerate 0 reqs)"
  have "mset (failed_requests (pw_order w results)) = mset (failed_requests results)"
    using assms by (intro mset_failed_requests) (simp add: proxy_world_ok_def)
  also have "failed_requests results = unsettled proxy_final (pw_net w) reqs"
    unfolding results_def using assms by (intro proxy_sender.failed_of_all) (simp add: proxy_world_ok_def)
  finally show ?thesis
    using assms
    by (auto simp: proxy_send_all_def get_failed_requests_def proxy_world_ok_def unwrap_or_default_def Let_def
        simp flip: results_def)
qed

end
