(* ===== verification/Flushing.thy ===== *)
theory Flushing
  imports Flushers "HOL-Library.Monad_Syntax"
begin

text \<open>
  The flushing service (\<open>flushing/service.rs\<close>, \<open>flushing/handles.rs\<close>): it starts a flush of every kind of
  telemetry without waiting, later awaits the tasks and sends what they handed back once more, and makes the
  blocking flushes. The flushers work on separate aggregators, so the tasks of one flush are run in the order
  in which they are spawned. The metrics flushers and the metrics aggregator belong to another crate and are
  arguments. A panic ends the process (\<open>panic = "abort"\<close>) and is \<open>None\<close>.
\<close>

section \<open>Handles\<close>

text \<open>A task: whether it has ended, and its result, or \<open>None\<close> when it could not be joined.\<close>

record 'x JoinHandle =
  is_finished :: bool
  joined :: "'x option"

record ('s, 'k) MetricsRetryBatch =
  mb_flusher_id :: nat
  mb_series :: "'s list"
  mb_sketches :: "'k list"

record ('d, 's, 'k, 'p) FlushHandles =
  trace_flush_handles :: "'d list JoinHandle list"
  log_flush_handles :: "Request list JoinHandle list"
  metric_flush_handles :: "('s, 'k) MetricsRetryBatch JoinHandle list"
  proxy_flush_handles :: "Request list JoinHandle list"
  stats_flush_handles :: "'p list JoinHandle list"

definition FlushHandles_new :: "('d, 's, 'k, 'p) FlushHandles" where
  "FlushHandles_new =
     \<lparr>trace_flush_handles = [], log_flush_handles = [], metric_flush_handles = [],
      proxy_flush_handles = [], stats_flush_handles = []\<rparr>"

definition has_pending :: "('d, 's, 'k, 'p) FlushHandles \<Rightarrow> bool" where
  "has_pending h \<longleftrightarrow>
     list_ex (\<lambda>x. \<not> is_finished x) (trace_flush_handles h)
     \<or> list_ex (\<lambda>x. \<not> is_finished x) (log_flush_handles h)
     \<or> list_ex (\<lambda>x. \<not> is_finished x) (metric_flush_handles h)
     \<or> list_ex (\<lambda>x. \<not> is_finished x) (proxy_flush_handles h)
     \<or> list_ex (\<lambda>x. \<not> is_finished x) (stats_flush_handles h)"

definition handles_is_empty :: "('d, 's, 'k, 'p) FlushHandles \<Rightarrow> bool" where
  "handles_is_empty h \<longleftrightarrow>
     trace_flush_handles h = [] \<and> log_flush_handles h = [] \<and> metric_flush_handles h = []
     \<and> proxy_flush_handles h = [] \<and> stats_flush_handles h = []"

section \<open>The service\<close>

record ('b, 'g, 'd, 's, 'k, 'p) FlushingService =
  fs_logs :: LogsAggregator
  fs_traces :: "('b, 'g) TraceAggregator"
  fs_stats :: "'p StatsAggregator"
  fs_proxy :: ProxyFlusher
  fs_dsm :: "DsmProcessor option"
  fs_handles :: "('d, 's, 'k, 'p) FlushHandles"

record FlushConfig =
  logs_config :: LogsFlushConfig
  additional_endpoints :: "Endpoint list"
  metrics_flushers :: nat

text \<open>
  What one flush meets: the world of every flusher, the answer of the metrics aggregator (\<open>None\<close> when its
  task is gone), what \<open>flush_metrics\<close> of each metrics flusher gives back, and the libraries the data streams
  processor uses.
\<close>

record ('b, 'g, 'd, 's, 'k, 'p, 'v) FlushWorld =
  fw_logs :: LogsWorld
  fw_traces :: "('b, 'g, 'd) TraceWorld"
  fw_stats :: "'p StatsWorld"
  fw_proxy :: ProxyWorld
  fw_metrics :: "('s list \<times> 'k list) option"
  fw_flush_metrics :: "nat \<Rightarrow> 's list \<Rightarrow> 'k list \<Rightarrow> ('s list \<times> 'k list) option"
  fw_floats :: "'v Floats"
  fw_bucket_order :: "u64 set \<Rightarrow> u64 list"
  fw_point_order :: "u64 \<Rightarrow> u64 set \<Rightarrow> u64 list"
  fw_to_vec :: "StatsPayloadSer \<Rightarrow> bytes option"
  fw_gzip :: "bytes \<Rightarrow> bytes option"

definition FlushingService_new ::
    "LogsAggregator \<Rightarrow> ('b, 'g) TraceAggregator \<Rightarrow> 'p StatsAggregator \<Rightarrow> ProxyFlusher \<Rightarrow> DsmProcessor option
      \<Rightarrow> ('b, 'g, 'd, 's, 'k, 'p) FlushingService" where
  "FlushingService_new la ta sa pf dsm =
     \<lparr>fs_logs = la, fs_traces = ta, fs_stats = sa, fs_proxy = pf, fs_dsm = dsm, fs_handles = FlushHandles_new\<rparr>"

definition has_pending_handles :: "('b, 'g, 'd, 's, 'k, 'p) FlushingService \<Rightarrow> bool" where
  "has_pending_handles fs = has_pending (fs_handles fs)"

definition drain_dsm ::
    "('b, 'g, 'd, 's, 'k, 'p, 'v) FlushWorld \<Rightarrow> ('b, 'g, 'd, 's, 'k, 'p) FlushingService
      \<Rightarrow> ('b, 'g, 'd, 's, 'k, 'p) FlushingService" where
  "drain_dsm w fs =
     (case fs_dsm fs of
        None \<Rightarrow> fs
      | Some dsm \<Rightarrow>
          (let (dsm', pa) = drain_into_proxy (fw_floats w) (fw_bucket_order w) (fw_point_order w) (fw_to_vec w)
                 (fw_gzip w) dsm (pf_aggregator (fs_proxy fs))
           in fs\<lparr>fs_dsm := Some dsm', fs_proxy := (fs_proxy fs)\<lparr>pf_aggregator := pa\<rparr>\<rparr>))"

definition spawned :: "'x \<Rightarrow> 'x JoinHandle" where
  "spawned x = \<lparr>is_finished = False, joined = Some x\<rparr>"

definition metrics_task ::
    "('b, 'g, 'd, 's, 'k, 'p, 'v) FlushWorld \<Rightarrow> 's list \<Rightarrow> 'k list \<Rightarrow> nat \<Rightarrow> ('s, 'k) MetricsRetryBatch" where
  "metrics_task w series sketches idx =
     (let (retry_series, retry_sketches) = (case fw_flush_metrics w idx series sketches of
            Some r \<Rightarrow> r
          | None \<Rightarrow> ([], []))
      in \<lparr>mb_flusher_id = idx, mb_series = retry_series, mb_sketches = retry_sketches\<rparr>)"

definition spawn_non_blocking ::
    "FlushConfig \<Rightarrow> ('b, 'g, 'd, 's, 'k, 'p, 'v) FlushWorld \<Rightarrow> ('b, 'g, 'd, 's, 'k, 'p) FlushingService
      \<Rightarrow> ('b, 'g, 'd, 's, 'k, 'p) FlushingService option" where
  "spawn_non_blocking cfg w fs = do {
     (logs, la) \<leftarrow> logs_flush (logs_config cfg) (fw_logs w) (fs_logs fs);
     (traces, sent, ta) \<leftarrow> trace_flush (fw_traces w) (additional_endpoints cfg) None (fs_traces fs);
     (series, sketches) \<leftarrow> fw_metrics w;
     (stats, sa) \<leftarrow> stats_flush (fw_stats w) False None (fs_stats fs);
     let fs = drain_dsm w (fs\<lparr>fs_logs := la, fs_traces := ta, fs_stats := sa\<rparr>);
     (proxied, pf) \<leftarrow> proxy_flush (fw_proxy w) None (fs_proxy fs);
     let h = fs_handles fs;
     Some (fs\<lparr>fs_proxy := pf,
       fs_handles := h\<lparr>
         log_flush_handles := log_flush_handles h @ [spawned logs],
         trace_flush_handles := trace_flush_handles h @ [spawned (unwrap_or_default traces)],
         metric_flush_handles := metric_flush_handles h
           @ map (\<lambda>idx. spawned (metrics_task w series sketches idx)) [0..<metrics_flushers cfg],
         stats_flush_handles := stats_flush_handles h @ [spawned (unwrap_or_default stats)],
         proxy_flush_handles := proxy_flush_handles h @ [spawned (unwrap_or_default proxied)]\<rparr>\<rparr>)
   }"

section \<open>Awaiting the tasks\<close>

text \<open>
  Every redrive task meets a world of its own. What the redrive tasks return is dropped by the code; it is
  kept here beside the state, so that it can be spoken of.
\<close>

record ('d, 's, 'k, 'p) Dropped =
  dropped_stats :: "'p list"
  dropped_traces :: "'d list"
  dropped_logs :: "Request list"
  dropped_metrics :: "(nat \<times> 's list \<times> 'k list) list"
  dropped_proxy :: "Request list"

fun await_stats ::
    "(nat \<Rightarrow> ('b, 'g, 'd, 's, 'k, 'p, 'v) FlushWorld) \<Rightarrow> nat \<Rightarrow> 'p list JoinHandle list \<Rightarrow> 'p StatsAggregator
      \<Rightarrow> (bool \<times> 'p list \<times> 'p StatsAggregator) option" where
  "await_stats rw i [] sa = Some (False, [], sa)"
| "await_stats rw i (h # hs) sa =
     (case joined h of
        None \<Rightarrow> do {
          (err, dropped, sa) \<leftarrow> await_stats rw (i + 1) hs sa;
          Some (True, dropped, sa) }
      | Some retry \<Rightarrow>
          (if retry = [] then await_stats rw (i + 1) hs sa
           else do {
             (r, sa) \<leftarrow> stats_flush (fw_stats (rw i)) False (Some retry) sa;
             (err, dropped, sa) \<leftarrow> await_stats rw (i + 1) hs sa;
             Some (err, unwrap_or_default r @ dropped, sa) }))"

fun await_traces ::
    "Endpoint list \<Rightarrow> (nat \<Rightarrow> ('b, 'g, 'd, 's, 'k, 'p, 'v) FlushWorld) \<Rightarrow> nat \<Rightarrow> 'd list JoinHandle list
      \<Rightarrow> ('b, 'g) TraceAggregator \<Rightarrow> ('d list \<times> ('b, 'g) TraceAggregator) option" where
  "await_traces eps rw i [] ta = Some ([], ta)"
| "await_traces eps rw i (h # hs) ta =
     (case joined h of
        None \<Rightarrow> await_traces eps rw (i + 1) hs ta
      | Some retry \<Rightarrow>
          (if retry = [] then await_traces eps rw (i + 1) hs ta
           else do {
             (r, sent, ta) \<leftarrow> trace_flush (fw_traces (rw i)) eps (Some retry) ta;
             (dropped, ta) \<leftarrow> await_traces eps rw (i + 1) hs ta;
             Some (unwrap_or_default r @ dropped, ta) }))"

text \<open>Every request is redriven by a task of its own; \<open>lw_net (fw_logs (rw i)) 0 j\<close> answers the \<open>j\<close>-th.\<close>

definition redrive_logs :: "LogsWorld \<Rightarrow> Request list \<Rightarrow> Request list" where
  "redrive_logs w retry = concat (map (\<lambda>(j, item).
     if lw_can_clone w item then logs_retry w (lw_net w 0 j) item else []) (enumerate 0 retry))"

fun await_logs ::
    "(nat \<Rightarrow> ('b, 'g, 'd, 's, 'k, 'p, 'v) FlushWorld) \<Rightarrow> nat \<Rightarrow> Request list JoinHandle list \<Rightarrow> Request list" where
  "await_logs rw i [] = []"
| "await_logs rw i (h # hs) =
     (case joined h of None \<Rightarrow> [] | Some retry \<Rightarrow> redrive_logs (fw_logs (rw i)) retry) @ await_logs rw (i + 1) hs"

fun await_metrics ::
    "nat \<Rightarrow> (nat \<Rightarrow> ('b, 'g, 'd, 's, 'k, 'p, 'v) FlushWorld) \<Rightarrow> nat \<Rightarrow> ('s, 'k) MetricsRetryBatch JoinHandle list
      \<Rightarrow> (nat \<times> 's list \<times> 'k list) list" where
  "await_metrics flushers rw i [] = []"
| "await_metrics flushers rw i (h # hs) =
     (case joined h of
        None \<Rightarrow> []
      | Some b \<Rightarrow>
          (if mb_series b \<noteq> [] \<or> mb_sketches b \<noteq> [] then
             (if mb_flusher_id b < flushers then
                (case fw_flush_metrics (rw i) (mb_flusher_id b) (mb_series b) (mb_sketches b) of
                   Some (series, sketches) \<Rightarrow> [(mb_flusher_id b, series, sketches)]
                 | None \<Rightarrow> [])
              else [])
           else [])) @ await_metrics flushers rw (i + 1) hs"

text \<open>The proxy flusher is called also when its batch is empty; it then takes the requests of its aggregator.\<close>

fun await_proxy ::
    "(nat \<Rightarrow> ('b, 'g, 'd, 's, 'k, 'p, 'v) FlushWorld) \<Rightarrow> nat \<Rightarrow> Request list JoinHandle list \<Rightarrow> ProxyFlusher
      \<Rightarrow> (Request list \<times> ProxyFlusher) option" where
  "await_proxy rw i [] pf = Some ([], pf)"
| "await_proxy rw i (h # hs) pf =
     (case joined h of
        None \<Rightarrow> await_proxy rw (i + 1) hs pf
      | Some batch \<Rightarrow> do {
          (r, pf) \<leftarrow> proxy_flush (fw_proxy (rw i)) (Some batch) pf;
          (dropped, pf) \<leftarrow> await_proxy rw (i + 1) hs pf;
          Some (unwrap_or_default r @ dropped, pf) })"

definition await_handles ::
    "FlushConfig \<Rightarrow> (nat \<Rightarrow> ('b, 'g, 'd, 's, 'k, 'p, 'v) FlushWorld) \<Rightarrow> ('b, 'g, 'd, 's, 'k, 'p) FlushingService
      \<Rightarrow> (bool \<times> ('d, 's, 'k, 'p) Dropped \<times> ('b, 'g, 'd, 's, 'k, 'p) FlushingService) option" where
  "await_handles cfg rw fs = do {
     let h = fs_handles fs;
     (flush_error, stats, sa) \<leftarrow> await_stats rw 0 (stats_flush_handles h) (fs_stats fs);
     (traces, ta) \<leftarrow> await_traces (additional_endpoints cfg) rw 0 (trace_flush_handles h) (fs_traces fs);
     let logs = await_logs rw 0 (log_flush_handles h);
     let metrics = await_metrics (metrics_flushers cfg) rw 0 (metric_flush_handles h);
     (proxied, pf) \<leftarrow> await_proxy rw 0 (proxy_flush_handles h) (fs_proxy fs);
     Some (flush_error,
       \<lparr>dropped_stats = stats, dropped_traces = traces, dropped_logs = logs, dropped_metrics = metrics,
        dropped_proxy = proxied\<rparr>,
       fs\<lparr>fs_stats := sa, fs_traces := ta, fs_proxy := pf, fs_handles := FlushHandles_new\<rparr>)
   }"

section \<open>Blocking flushes\<close>

definition flush_blocking_inner ::
    "FlushConfig \<Rightarrow> ('b, 'g, 'd, 's, 'k, 'p, 'v) FlushWorld \<Rightarrow> bool \<Rightarrow> ('b, 'g, 'd, 's, 'k, 'p) FlushingService
      \<Rightarrow> (bool \<times> ('b, 'g, 'd, 's, 'k, 'p) FlushingService) option" where
  "flush_blocking_inner cfg w force_stats fs = do {
     let ((series, sketches), metrics_handle_failed) = (case fw_metrics w of
            Some response \<Rightarrow> (response, False)
          | None \<Rightarrow> (([], []), True));
     let fs = drain_dsm w fs;
     (logs, la) \<leftarrow> logs_flush (logs_config cfg) (fw_logs w) (fs_logs fs);
     let metrics = map (\<lambda>idx. fw_flush_metrics w idx series sketches) [0..<metrics_flushers cfg];
     (traces, sent, ta) \<leftarrow> trace_flush (fw_traces w) (additional_endpoints cfg) None (fs_traces fs);
     (stats, sa) \<leftarrow> stats_flush (fw_stats w) force_stats None (fs_stats fs);
     (proxied, pf) \<leftarrow> proxy_flush (fw_proxy w) None (fs_proxy fs);
     let failed = (logs \<noteq> []
       \<or> metrics_handle_failed
       \<or> list_ex (\<lambda>retry. case retry of Some (se, sk) \<Rightarrow> se \<noteq> [] \<or> sk \<noteq> [] | None \<Rightarrow> False) metrics
       \<or> unwrap_or_default traces \<noteq> []
       \<or> unwrap_or_default stats \<noteq> []
       \<or> unwrap_or_default proxied \<noteq> []);
     Some (failed, fs\<lparr>fs_logs := la, fs_traces := ta, fs_stats := sa, fs_proxy := pf\<rparr>)
   }"

definition flush_blocking ::
    "FlushConfig \<Rightarrow> ('b, 'g, 'd, 's, 'k, 'p, 'v) FlushWorld \<Rightarrow> ('b, 'g, 'd, 's, 'k, 'p) FlushingService
      \<Rightarrow> (bool \<times> ('b, 'g, 'd, 's, 'k, 'p) FlushingService) option" where
  "flush_blocking cfg w fs = flush_blocking_inner cfg w False fs"

definition flush_blocking_final ::
    "FlushConfig \<Rightarrow> ('b, 'g, 'd, 's, 'k, 'p, 'v) FlushWorld \<Rightarrow> ('b, 'g, 'd, 's, 'k, 'p) FlushingService
      \<Rightarrow> (bool \<times> ('b, 'g, 'd, 's, 'k, 'p) FlushingService) option" where
  "flush_blocking_final cfg w fs = flush_blocking_inner cfg w True fs"

section \<open>Frames\<close>

lemma drain_dsm_frame [simp]:
  "fs_logs (drain_dsm w fs) = fs_logs fs" "fs_traces (drain_dsm w fs) = fs_traces fs"
  "fs_stats (drain_dsm w fs) = fs_stats fs" "fs_handles (drain_dsm w fs) = fs_handles fs"
  "pf_headers (fs_proxy (drain_dsm w fs)) = pf_headers (fs_proxy fs)"
  by (simp_all add: drain_dsm_def Let_def split: option.split prod.split)

lemma flush_blocking_inner_handles:
  "flush_blocking_inner cfg w force fs = Some (failed, fs') \<Longrightarrow> fs_handles fs' = fs_handles fs"
  by (auto simp: flush_blocking_inner_def Let_def split: bind_splits prod.splits)

lemma spawn_non_blocking_handles:
  assumes "spawn_non_blocking cfg w fs = Some fs'"
  obtains logs traces stats proxied metrics where
    "log_flush_handles (fs_handles fs') = log_flush_handles (fs_handles fs) @ [spawned logs]"
    "trace_flush_handles (fs_handles fs') = trace_flush_handles (fs_handles fs) @ [spawned traces]"
    "metric_flush_handles (fs_handles fs') = metric_flush_handles (fs_handles fs) @ metrics"
    "stats_flush_handles (fs_handles fs') = stats_flush_handles (fs_handles fs) @ [spawned stats]"
    "proxy_flush_handles (fs_handles fs') = proxy_flush_handles (fs_handles fs) @ [spawned proxied]"
  using assms
  by (auto simp: spawn_non_blocking_def Let_def split: bind_splits prod.splits intro!: that)

lemma await_handles_empty:
  "await_handles cfg rw fs = Some (err, dropped, fs') \<Longrightarrow> fs_handles fs' = FlushHandles_new
    \<and> fs_logs fs' = fs_logs fs"
  by (auto simp: await_handles_def Let_def split: bind_splits prod.splits)

section \<open>Redrives\<close>

lemma await_stats_no_error:
  assumes "\<forall>h \<in> set hs. joined h \<noteq> None" and "await_stats rw i hs sa = Some (err, dropped, sa')"
  shows "\<not> err"
  using assms
proof (induction rw i hs sa arbitrary: err dropped sa' rule: await_stats.induct)
  case (1 rw i sa)
  then show ?case by simp
next
  case (2 rw i h hs sa)
  then obtain retry where "joined h = Some retry" by auto
  with 2 show ?case by (fastforce split: if_splits bind_splits)
qed

lemma redrive_logs_spec:
  assumes "logs_world_ok w"
  shows "redrive_logs w retry = unsettled logs_final (lw_net w 0) retry"
proof -
  have "(if lw_can_clone w item then logs_retry w resp item else [])
      = (if settled logs_final resp then [] else [item])" for item resp
    using assms by (simp add: logs_world_ok_def logs_retry_def logs_send_closed)
  moreover have "concat (map (\<lambda>(j, item). if settled logs_final (lw_net w 0 j) then [] else [item]) ps)
      = map snd (filter (\<lambda>(j, item). \<not> settled logs_final (lw_net w 0 j)) ps)" for ps :: "(nat \<times> Request) list"
    by (induction ps) auto
  ultimately show ?thesis
    by (simp add: redrive_logs_def unsettled_def)
qed

lemma await_logs_spec:
  assumes "\<And>j. logs_world_ok (fw_logs (rw j))"
  shows "await_logs rw i hs = concat (map (\<lambda>(j, h). unsettled logs_final (lw_net (fw_logs (rw j)) 0)
    (unwrap_or_default (joined h))) (enumerate i hs))"
proof (induction hs arbitrary: i)
  case Nil
  then show ?case by simp
next
  case (Cons h hs)
  then show ?case
    by (simp add: redrive_logs_spec [OF assms] unwrap_or_default_def unsettled_def split: option.split)
qed

lemma no_key_no_logs:
  assumes "\<And>f. lw_api_key w f = None" and "logs_flush cfg w la = Some (failed, la')"
  shows "failed = []"
proof -
  have "flush_batches cfg w batches = Some []" for batches
  proof -
    have "those (map (\<lambda>(f, endpoint). flusher_flush cfg w f endpoint batches) ps) = Some (map (\<lambda>_. []) ps)"
      for ps :: "(nat \<times> string) list"
      by (rule those_all) (auto simp: flusher_flush_def assms(1))
    then show ?thesis by (simp add: flush_batches_def)
  qed
  with assms(2) show ?thesis
    by (auto simp: logs_flush_def split: if_splits bind_splits)
qed

lemma no_key_no_stats:
  assumes "sw_api_key w = None" and "stats_flush w force failed sa = Some (r, sa')"
  shows "unwrap_or_default r = []"
proof -
  have send: "stats_send w s stats = Some None" for s stats
    by (simp add: stats_send_def assms(1))
  have "stats_send_all w s batches = Some []" for s batches
    by (induction batches arbitrary: s) (simp_all add: send unwrap_or_default_def)
  with send assms(2) show ?thesis
    by (auto simp: stats_flush_def unwrap_or_default_def split: bind_splits)
qed

section \<open>Every flush returns\<close>

text \<open>
  What the aggregators keep: the limits they were created with, and no left-over batch. What the world owes:
  the services answer, the texts that become headers are header values, the URL of the stats intake parses,
  and the stats concentrator runs dry when it is asked often enough. API keys may be missing and any request
  may fail.
\<close>

definition service_inv :: "nat \<Rightarrow> nat \<Rightarrow> nat \<Rightarrow> nat \<Rightarrow> ('b, 'g, 'd, 's, 'k, 'p) FlushingService \<Rightarrow> bool" where
  "service_inv entries m mt sz fs \<longleftrightarrow>
     la_inv entries m (fs_logs fs) \<and> 0 < entries \<and> ta_inv mt (fs_traces fs)
     \<and> sa_buffer (fs_stats fs) = [] \<and> 0 < sz \<and> sz \<le> sa_max_content_size_bytes (fs_stats fs)"

definition world_ok :: "nat \<Rightarrow> ('b, 'g, 'd, 's, 'k, 'p, 'v) FlushWorld \<Rightarrow> bool" where
  "world_ok sz w \<longleftrightarrow>
     logs_world_ok (fw_logs w) \<and> lw_service (fw_logs w) \<and> tw_service (fw_traces w)
     \<and> sw_url_ok (fw_stats w) \<and> sw_size (fw_stats w) = sz
     \<and> (\<exists>n. \<forall>force j p. n \<le> j \<longrightarrow> sw_concentrator (fw_stats w) force j \<noteq> Inr (Some p))
     \<and> (\<forall>txt. pw_header_ok (fw_proxy w) txt)"

lemma trace_flush_returns:
  assumes "tw_service w" and "ta_inv mt ta"
  shows "\<exists>r sent ta'. trace_flush w eps failed ta = Some (r, sent, ta') \<and> ta_inv mt ta'
    \<and> (failed = None \<longrightarrow> ta_queue ta' = [])"
proof (cases "tw_api_key w")
  case None
  then show ?thesis
    using assms by (simp add: trace_flush_def ta_clear_def ta_inv_def)
next
  case (Some key)
  obtain gs ta' where "ta_get_batches ta = Some (gs, ta')" "ta_inv mt ta'" "ta_queue ta' = []"
    using ta_get_batches_drains [OF assms(2)] by blast
  with Some assms show ?thesis
    by (cases failed) (auto simp: trace_flush_def Let_def split: prod.splits)
qed

lemma stats_send_returns: "sw_url_ok w \<Longrightarrow> \<exists>r. stats_send w s stats = Some r"
  by (auto simp: stats_send_def split: option.split SendResult.split)

lemma stats_send_all_returns: "sw_url_ok w \<Longrightarrow> \<exists>r. stats_send_all w s batches = Some r"
proof (induction batches arbitrary: s)
  case Nil
  then show ?case by simp
next
  case (Cons b batches)
  then show ?case using stats_send_returns [of w s b] by fastforce
qed

lemma stats_flush_returns:
  assumes "sw_url_ok w" and "0 < sw_size w" "sw_size w \<le> sa_max_content_size_bytes sa" "sa_buffer sa = []"
    and dry: "\<And>j p. n \<le> j \<Longrightarrow> sw_concentrator w force j \<noteq> Inr (Some p)"
  shows "\<exists>r sa'. stats_flush w force failed sa = Some (r, sa') \<and> sa_queue sa' = [] \<and> sa_buffer sa' = []
    \<and> sa_max_content_size_bytes sa' = sa_max_content_size_bytes sa"
proof -
  obtain bs sa' where b: "stats_batches (sw_size w) (sw_concentrator w force) 0 sa = Some (bs, sa')"
      "sa_queue sa' = []" "sa_buffer sa' = []" "sa_max_content_size_bytes sa' = sa_max_content_size_bytes sa"
    using stats_batches_drain [of "sw_size w" sa n "sw_concentrator w force" 0, OF assms(2,3) dry assms(4)] by auto
  obtain still where "stats_send w 0 (unwrap_or_default failed) = Some still"
    using stats_send_returns [OF assms(1)] by blast
  moreover obtain rest where "stats_send_all w 1 bs = Some rest"
    using stats_send_all_returns [OF assms(1)] by blast
  ultimately show ?thesis
    using b by (simp add: stats_flush_def Let_def)
qed

lemma proxy_flush_returns:
  assumes "\<forall>txt. pw_header_ok w txt"
  shows "\<exists>r pf'. proxy_flush w retry pf = Some (r, pf')
    \<and> (retry = None \<longrightarrow> pa_queue (pf_aggregator pf') = [])"
  using assms
  by (auto simp: proxy_flush_def proxy_headers_def pa_clear_def pa_get_batch_def Let_def
      split: option.split list.split)

lemma flush_blocking_returns:
  assumes w: "world_ok sz w" and inv: "service_inv entries m mt sz fs"
  shows "\<exists>failed fs'. flush_blocking_inner cfg w force fs = Some (failed, fs')
    \<and> service_inv entries m mt sz fs'
    \<and> messages (fs_logs fs') = dropWhile (fits m) (messages (fs_logs fs))
    \<and> ta_queue (fs_traces fs') = [] \<and> sa_queue (fs_stats fs') = [] \<and> pa_queue (pf_aggregator (fs_proxy fs')) = []"
proof -
  obtain logs la where l: "logs_flush (logs_config cfg) (fw_logs w) (fs_logs fs) = Some (logs, la)"
      "messages la = dropWhile (fits m) (messages (fs_logs fs))" "la_inv entries m la"
    using logs_flush_spec [of "fw_logs w" entries m "fs_logs fs" "logs_config cfg"] w inv
    by (auto simp: world_ok_def service_inv_def)
  obtain traces sent ta where t: "trace_flush (fw_traces w) (additional_endpoints cfg) None (fs_traces fs)
        = Some (traces, sent, ta)" "ta_inv mt ta" "ta_queue ta = []"
    using trace_flush_returns [of "fw_traces w" mt "fs_traces fs" "additional_endpoints cfg" None] w inv
    by (auto simp: world_ok_def service_inv_def)
  obtain n where "\<And>j p. n \<le> j \<Longrightarrow> sw_concentrator (fw_stats w) force j \<noteq> Inr (Some p)"
    using w unfolding world_ok_def by blast
  then obtain stats sa where s: "stats_flush (fw_stats w) force None (fs_stats fs) = Some (stats, sa)"
      "sa_queue sa = []" "sa_buffer sa = []" "sa_max_content_size_bytes sa = sa_max_content_size_bytes (fs_stats fs)"
    using stats_flush_returns [of "fw_stats w" "fs_stats fs" n force None] w inv
    by (auto simp: world_ok_def service_inv_def)
  obtain proxied pf where p: "proxy_flush (fw_proxy w) None (fs_proxy (drain_dsm w fs)) = Some (proxied, pf)"
      "pa_queue (pf_aggregator pf) = []"
    using proxy_flush_returns [of "fw_proxy w" None "fs_proxy (drain_dsm w fs)"] w by (auto simp: world_ok_def)
  obtain se sk mf where "(case fw_metrics w of Some response \<Rightarrow> (response, False) | None \<Rightarrow> (([], []), True))
      = ((se, sk), mf)"
    by (metis surj_pair)
  with l t s p inv show ?thesis
    by (simp add: flush_blocking_inner_def Let_def service_inv_def)
qed

lemma await_stats_returns:
  assumes "\<And>j. world_ok sz (rw j)" and "0 < sz"
    and "sz \<le> sa_max_content_size_bytes sa" "sa_buffer sa = []"
  shows "\<exists>err dropped sa'. await_stats rw i hs sa = Some (err, dropped, sa') \<and> sa_buffer sa' = []
    \<and> sa_max_content_size_bytes sa' = sa_max_content_size_bytes sa"
  using assms(3,4)
proof (induction hs arbitrary: i sa)
  case Nil
  then show ?case by (simp add: ex_bool_eq)
next
  case (Cons h hs)
  show ?case
  proof (cases "joined h = None \<or> joined h = Some []")
    case True
    then show ?thesis using Cons.IH [OF Cons.prems, of "Suc i"] by auto
  next
    case False
    then obtain retry where h: "joined h = Some retry" "retry \<noteq> []" by auto
    obtain n where "\<And>j p. n \<le> j \<Longrightarrow> sw_concentrator (fw_stats (rw i)) False j \<noteq> Inr (Some p)"
      using assms(1) [of i] unfolding world_ok_def by blast
    then obtain r sa1 where s: "stats_flush (fw_stats (rw i)) False (Some retry) sa = Some (r, sa1)"
        "sa_buffer sa1 = []" "sa_max_content_size_bytes sa1 = sa_max_content_size_bytes sa"
      using stats_flush_returns [of "fw_stats (rw i)" sa n False "Some retry"] assms(1) [of i] assms(2) Cons.prems
      by (auto simp: world_ok_def)
    then show ?thesis using Cons.IH [of sa1 "Suc i"] Cons.prems h by auto
  qed
qed

lemma await_traces_returns:
  assumes "\<And>j. world_ok sz (rw j)" and "ta_inv mt ta"
  shows "\<exists>dropped ta'. await_traces eps rw i hs ta = Some (dropped, ta') \<and> ta_inv mt ta'"
  using assms(2)
proof (induction hs arbitrary: i ta)
  case Nil
  then show ?case by simp
next
  case (Cons h hs)
  show ?case
  proof (cases "joined h = None \<or> joined h = Some []")
    case True
    then show ?thesis using Cons.IH [OF Cons.prems, of "Suc i"] by auto
  next
    case False
    then obtain retry where h: "joined h = Some retry" "retry \<noteq> []" by auto
    obtain r sent ta1 where "trace_flush (fw_traces (rw i)) eps (Some retry) ta = Some (r, sent, ta1)" "ta_inv mt ta1"
      using trace_flush_returns [of "fw_traces (rw i)" mt ta eps "Some retry"] assms(1) [of i] Cons.prems
      by (auto simp: world_ok_def)
    then show ?thesis using Cons.IH [of ta1 "Suc i"] h by auto
  qed
qed

lemma await_proxy_returns:
  assumes "\<And>j. world_ok sz (rw j)"
  shows "\<exists>dropped pf'. await_proxy rw i hs pf = Some (dropped, pf')"
proof (induction hs arbitrary: i pf)
  case Nil
  then show ?case by simp
next
  case (Cons h hs)
  show ?case
  proof (cases "joined h")
    case None
    then show ?thesis using Cons.IH [of "Suc i"] by simp
  next
    case (Some batch)
    obtain r pf1 where "proxy_flush (fw_proxy (rw i)) (Some batch) pf = Some (r, pf1)"
      using proxy_flush_returns [of "fw_proxy (rw i)" "Some batch" pf] assms [of i] by (auto simp: world_ok_def)
    then show ?thesis using Cons.IH [of "Suc i" pf1] Some by auto
  qed
qed

lemma await_handles_returns:
  assumes rw: "\<And>j. world_ok sz (rw j)" and inv: "service_inv entries m mt sz fs"
  shows "\<exists>err dropped fs'. await_handles cfg rw fs = Some (err, dropped, fs') \<and> service_inv entries m mt sz fs'"
proof -
  let ?h = "fs_handles fs"
  obtain err stats sa where "await_stats rw 0 (stats_flush_handles ?h) (fs_stats fs) = Some (err, stats, sa)"
      "sa_buffer sa = []" "sa_max_content_size_bytes sa = sa_max_content_size_bytes (fs_stats fs)"
    using await_stats_returns [of sz rw "fs_stats fs" 0 "stats_flush_handles ?h", OF rw] inv
    by (auto simp: service_inv_def)
  moreover obtain traces ta where "await_traces (additional_endpoints cfg) rw 0 (trace_flush_handles ?h) (fs_traces fs)
      = Some (traces, ta)" "ta_inv mt ta"
    using await_traces_returns [of sz rw mt "fs_traces fs" "additional_endpoints cfg" 0 "trace_flush_handles ?h", OF rw] inv
    by (auto simp: service_inv_def)
  moreover obtain proxied pf where "await_proxy rw 0 (proxy_flush_handles ?h) (fs_proxy fs) = Some (proxied, pf)"
    using await_proxy_returns [of sz rw 0, OF rw] by blast
  ultimately show ?thesis
    using inv by (simp add: await_handles_def Let_def service_inv_def)
qed

end
