(* ===== verification/EventLoop.thy ===== *)
theory EventLoop
  imports Flushing FlushControl InvocationProcessor "HOL-Library.Sublist"
begin

text \<open>
  The event loop of the extension (\<open>bin/bottlecap/main.rs\<close>): how events of the bus and answers of the
  Extensions API become commands of the invocation processor, and when the flushing service is called. The
  loop of the on-demand mode is a step relation over the alternatives of its \<open>select!\<close> blocks: an event of
  the bus, a tick of the flush interval, an answer of \<open>next\<close>. Which alternative is ready is the choice of the
  environment. The commands sent to the processor are collected in the state.
\<close>

section \<open>Choices at the start\<close>

definition DEFAULT_CONTINUOUS_FLUSH_INTERVAL :: u64 where
  "DEFAULT_CONTINUOUS_FLUSH_INTERVAL = 30 * 1000"

definition get_flush_strategy_for_mode :: "bool \<Rightarrow> FlushStrategy \<Rightarrow> FlushStrategy" where
  "get_flush_strategy_for_mode managed configured_strategy =
     (if \<not> managed then configured_strategy
      else case configured_strategy of
        Continuously p \<Rightarrow> configured_strategy
      | _ \<Rightarrow> Continuously DEFAULT_CONTINUOUS_FLUSH_INTERVAL)"

definition resolve_dsm_service :: "string option \<Rightarrow> string option \<Rightarrow> string" where
  "resolve_dsm_service configured_service canonical_name =
     (case configured_service of
        Some s \<Rightarrow> s
      | None \<Rightarrow> (case canonical_name of Some s \<Rightarrow> s | None \<Rightarrow> ''aws.lambda''))"

section \<open>Events of the bus\<close>

text \<open>The commands sent, and the event handed to the caller.\<close>

definition handle_telemetry_event ::
    "'f TelemetryEvent \<Rightarrow> ('f, 'ptr) ProcessorCommand list \<times> 'f TelemetryEvent option" where
  "handle_telemetry_event event =
     (case te_record event of
        PlatformInitStart it ph rv rva \<Rightarrow> ([InitStart (te_time event) rv], None)
      | PlatformInitReport it ph ms \<Rightarrow> ([InitReport it ms (time_secs (te_time event))], None)
      | PlatformRestoreStart \<Rightarrow> ([RestoreStart (te_time event)], None)
      | PlatformRestoreReport st et metrics \<Rightarrow>
          ((case metrics of Some ms \<Rightarrow> [RestoreReport ms (time_secs (te_time event))] | None \<Rightarrow> []), None)
      | TelemetryRecord.PlatformStart rid ver \<Rightarrow> ([ProcessorCommand.PlatformStart rid (te_time event)], None)
      | TelemetryRecord.PlatformRuntimeDone rid st et metrics \<Rightarrow>
          (case metrics of
             Some m \<Rightarrow> ([ProcessorCommand.PlatformRuntimeDone rid m st et (time_secs (te_time event))], Some event)
           | None \<Rightarrow> ([], None))
      | TelemetryRecord.PlatformReport rid st et metrics spans \<Rightarrow>
          ([ProcessorCommand.PlatformReport rid metrics (time_secs (te_time event)) st et spans], Some event)
      | _ \<Rightarrow> ([], None))"

fun handle_event_bus_event ::
    "'f BusEvent \<Rightarrow> ('f, 'ptr) ProcessorCommand list \<times> 'f TelemetryEvent option" where
  "handle_event_bus_event (OutOfMemory rid ts) = ([OnOutOfMemoryError rid ts], None)"
| "handle_event_bus_event (Telemetry event) = handle_telemetry_event event"
| "handle_event_bus_event Tombstone = ([], None)"

section \<open>Answers of the Extensions API\<close>

datatype NextEventResponse =
    NextInvoke u64 string string
  | NextShutdown string u64

text \<open>An error of the request is answered as a shutdown, but the processor is not told.\<close>

fun handle_next_invocation ::
    "'e + NextEventResponse \<Rightarrow> ('f, 'ptr) ProcessorCommand list \<times> NextEventResponse" where
  "handle_next_invocation (Inr (NextInvoke deadline_ms rid arn)) =
     ([InvokeEvent rid], NextInvoke deadline_ms rid arn)"
| "handle_next_invocation (Inr (NextShutdown reason deadline_ms)) =
     ([OnShutdownEvent], NextShutdown reason deadline_ms)"
| "handle_next_invocation (Inl e) = ([], NextShutdown ''panic'' 0)"

text \<open>
  The events that arrive, each within the time-out after the one before; the end of the list is the
  time-out.
\<close>

fun wait_for_tombstone_event :: "'f BusEvent list \<Rightarrow> ('f, 'ptr) ProcessorCommand list" where
  "wait_for_tombstone_event [] = []"
| "wait_for_tombstone_event (event # events) =
     (if event = Tombstone then []
      else fst (handle_event_bus_event event) @ wait_for_tombstone_event events)"

section \<open>The on-demand loop\<close>

text \<open>
  Where the loop waits: in the block of \<open>FlushDecision::End\<close> for the end of the invocation, then for
  \<open>next\<close>; or in the block of the other decisions. \<open>Exited\<close> is the return from the loop.
\<close>

datatype phase = AwaitRuntimeDone | AwaitNext | NextInvocation | Exited

record ('f, 'ptr, 'b, 'g, 'd, 's, 'k, 'p) LoopState =
  ls_control :: FlushControl
  ls_service :: "('b, 'g, 'd, 's, 'k, 'p) FlushingService"
  ls_commands :: "('f, 'ptr) ProcessorCommand list"
  ls_phase :: phase

text \<open>What the shutdown sequence meets: the redrives, the last events, the final flush.\<close>

record ('f, 'b, 'g, 'd, 's, 'k, 'p, 'v) ShutdownWorld =
  sh_redrive :: "nat \<Rightarrow> ('b, 'g, 'd, 's, 'k, 'p, 'v) FlushWorld"
  sh_events :: "'f BusEvent list"
  sh_final :: "('b, 'g, 'd, 's, 'k, 'p, 'v) FlushWorld"

definition send_commands ::
    "('f, 'ptr) ProcessorCommand list \<Rightarrow> ('f, 'ptr, 'b, 'g, 'd, 's, 'k, 'p) LoopState
      \<Rightarrow> ('f, 'ptr, 'b, 'g, 'd, 's, 'k, 'p) LoopState" where
  "send_commands cmds ls = ls\<lparr>ls_commands := ls_commands ls @ cmds\<rparr>"

definition loop_flush_blocking ::
    "FlushConfig \<Rightarrow> ('b, 'g, 'd, 's, 'k, 'p, 'v) FlushWorld \<Rightarrow> ('f, 'ptr, 'b, 'g, 'd, 's, 'k, 'p) LoopState
      \<Rightarrow> ('f, 'ptr, 'b, 'g, 'd, 's, 'k, 'p) LoopState option" where
  "loop_flush_blocking cfg w ls =
     map_option (\<lambda>(failed, fs). ls\<lparr>ls_service := fs\<rparr>) (flush_blocking cfg w (ls_service ls))"

text \<open>The head of the loop body: the decision, and the flush of the decisions other than \<open>End\<close>.\<close>

definition begin_round ::
    "FlushConfig \<Rightarrow> u64 \<Rightarrow> ('b, 'g, 'd, 's, 'k, 'p, 'v) FlushWorld \<Rightarrow> ('f, 'ptr, 'b, 'g, 'd, 's, 'k, 'p) LoopState
      \<Rightarrow> ('f, 'ptr, 'b, 'g, 'd, 's, 'k, 'p) LoopState option" where
  "begin_round cfg now w ls =
     (let (decision, fc) = evaluate_flush_decision (ls_control ls) now;
          ls = ls\<lparr>ls_control := fc\<rparr>
      in case decision of
           FlushEnd \<Rightarrow> Some (ls\<lparr>ls_phase := AwaitRuntimeDone\<rparr>)
         | Continuous \<Rightarrow>
             (if has_pending_handles (ls_service ls) then Some (ls\<lparr>ls_phase := NextInvocation\<rparr>)
              else map_option (\<lambda>fs. ls\<lparr>ls_service := fs, ls_phase := NextInvocation\<rparr>)
                     (spawn_non_blocking cfg w (ls_service ls)))
         | Periodic \<Rightarrow> map_option (\<lambda>ls. ls\<lparr>ls_phase := NextInvocation\<rparr>) (loop_flush_blocking cfg w ls)
         | Dont \<Rightarrow> Some (ls\<lparr>ls_phase := NextInvocation\<rparr>))"

definition shutdown_sequence ::
    "FlushConfig \<Rightarrow> ('f, 'b, 'g, 'd, 's, 'k, 'p, 'v) ShutdownWorld
      \<Rightarrow> ('f, 'ptr, 'b, 'g, 'd, 's, 'k, 'p) LoopState \<Rightarrow> ('f, 'ptr, 'b, 'g, 'd, 's, 'k, 'p) LoopState option" where
  "shutdown_sequence cfg sh ls = do {
     (flush_error, dropped, fs) \<leftarrow> await_handles cfg (sh_redrive sh) (ls_service ls);
     let ls = send_commands (wait_for_tombstone_event (sh_events sh)) ls;
     (failed, fs) \<leftarrow> flush_blocking_final cfg (sh_final sh) fs;
     Some (ls\<lparr>ls_service := fs, ls_phase := Exited\<rparr>)
   }"

text \<open>The tail of the loop body, and the head of the next round.\<close>

definition after_next ::
    "FlushConfig \<Rightarrow> 'e + NextEventResponse \<Rightarrow> u64 \<Rightarrow> ('b, 'g, 'd, 's, 'k, 'p, 'v) FlushWorld
      \<Rightarrow> ('f, 'b, 'g, 'd, 's, 'k, 'p, 'v) ShutdownWorld
      \<Rightarrow> ('f, 'ptr, 'b, 'g, 'd, 's, 'k, 'p) LoopState \<Rightarrow> ('f, 'ptr, 'b, 'g, 'd, 's, 'k, 'p) LoopState option" where
  "after_next cfg resp now w sh ls =
     (let (cmds, response) = handle_next_invocation resp;
          ls = send_commands cmds ls
      in case response of
           NextShutdown reason deadline_ms \<Rightarrow> shutdown_sequence cfg sh ls
         | NextInvoke deadline_ms rid arn \<Rightarrow> begin_round cfg now w ls)"

text \<open>The code before the loop: the first answer of \<open>next\<close> is handled, and its value is not used.\<close>

definition on_demand_start ::
    "FlushConfig \<Rightarrow> FlushControl \<Rightarrow> ('b, 'g, 'd, 's, 'k, 'p) FlushingService \<Rightarrow> 'e + NextEventResponse \<Rightarrow> u64
      \<Rightarrow> ('b, 'g, 'd, 's, 'k, 'p, 'v) FlushWorld \<Rightarrow> ('f, 'ptr, 'b, 'g, 'd, 's, 'k, 'p) LoopState option" where
  "on_demand_start cfg fc fs resp now w =
     begin_round cfg now w
       \<lparr>ls_control = fc, ls_service = fs, ls_commands = fst (handle_next_invocation resp), ls_phase = NextInvocation\<rparr>"

text \<open>The condition of \<open>break 'flush_end\<close>.\<close>

definition is_runtime_done :: "'f TelemetryEvent option \<Rightarrow> bool" where
  "is_runtime_done r \<longleftrightarrow> (case r of
     None \<Rightarrow> False
   | Some event \<Rightarrow> (case te_record event of TelemetryRecord.PlatformRuntimeDone rid st et m \<Rightarrow> True | _ \<Rightarrow> False))"

definition finish_tasks :: "('d, 's, 'k, 'p) FlushHandles \<Rightarrow> ('d, 's, 'k, 'p) FlushHandles" where
  "finish_tasks h =
     \<lparr>trace_flush_handles = map (\<lambda>x. x\<lparr>is_finished := True\<rparr>) (trace_flush_handles h),
      log_flush_handles = map (\<lambda>x. x\<lparr>is_finished := True\<rparr>) (log_flush_handles h),
      metric_flush_handles = map (\<lambda>x. x\<lparr>is_finished := True\<rparr>) (metric_flush_handles h),
      proxy_flush_handles = map (\<lambda>x. x\<lparr>is_finished := True\<rparr>) (proxy_flush_handles h),
      stats_flush_handles = map (\<lambda>x. x\<lparr>is_finished := True\<rparr>) (stats_flush_handles h)\<rparr>"

text \<open>
  The inputs of the loop. \<open>TasksEnd\<close> is the moment at which the last running flush task ends; the loop
  only asks whether one is still running.
\<close>

datatype ('f, 'e, 'w, 'sh) LoopInput =
    BusIn "'f BusEvent" 'w
  | TickIn 'w
  | NextIn "'e + NextEventResponse" u64 'w 'sh
  | TasksEnd

inductive loop_step ::
    "FlushConfig \<Rightarrow> ('f, 'ptr, 'b, 'g, 'd, 's, 'k, 'p) LoopState
      \<Rightarrow> ('f, 'e, ('b, 'g, 'd, 's, 'k, 'p, 'v) FlushWorld, ('f, 'b, 'g, 'd, 's, 'k, 'p, 'v) ShutdownWorld) LoopInput
      \<Rightarrow> ('f, 'ptr, 'b, 'g, 'd, 's, 'k, 'p) LoopState \<Rightarrow> bool" for cfg where
  end_event: "ls_phase ls = AwaitRuntimeDone \<Longrightarrow> handle_event_bus_event event = (cmds, r) \<Longrightarrow>
    \<not> is_runtime_done r \<Longrightarrow> loop_step cfg ls (BusIn event w) (send_commands cmds ls)"
| end_done: "ls_phase ls = AwaitRuntimeDone \<Longrightarrow> handle_event_bus_event event = (cmds, r) \<Longrightarrow>
    is_runtime_done r \<Longrightarrow> loop_flush_blocking cfg w (send_commands cmds ls) = Some ls' \<Longrightarrow>
    loop_step cfg ls (BusIn event w) (ls'\<lparr>ls_phase := AwaitNext\<rparr>)"
| end_tick: "ls_phase ls = AwaitRuntimeDone \<Longrightarrow> loop_flush_blocking cfg w ls = Some ls' \<Longrightarrow>
    loop_step cfg ls (TickIn w) ls'"
| end_next: "ls_phase ls = AwaitNext \<Longrightarrow> after_next cfg resp now w sh ls = Some ls' \<Longrightarrow>
    loop_step cfg ls (NextIn resp now w sh) ls'"
| inv_event: "ls_phase ls = NextInvocation \<Longrightarrow> handle_event_bus_event event = (cmds, r) \<Longrightarrow>
    loop_step cfg ls (BusIn event w) (send_commands cmds ls)"
| inv_tick: "ls_phase ls = NextInvocation \<Longrightarrow> flush_strategy (ls_control ls) = Default \<Longrightarrow>
    loop_flush_blocking cfg w ls = Some ls' \<Longrightarrow> loop_step cfg ls (TickIn w) ls'"
| inv_tick_skip: "ls_phase ls = NextInvocation \<Longrightarrow> flush_strategy (ls_control ls) \<noteq> Default \<Longrightarrow>
    loop_step cfg ls (TickIn w) ls"
| inv_next: "ls_phase ls = NextInvocation \<Longrightarrow> after_next cfg resp now w sh ls = Some ls' \<Longrightarrow>
    loop_step cfg ls (NextIn resp now w sh) ls'"
| tasks_end: "ls_phase ls \<noteq> Exited \<Longrightarrow> loop_step cfg ls TasksEnd
    (ls\<lparr>ls_service := (ls_service ls)\<lparr>fs_handles := finish_tasks (fs_handles (ls_service ls))\<rparr>\<rparr>)"

inductive loop_run ::
    "FlushConfig \<Rightarrow> ('f, 'ptr, 'b, 'g, 'd, 's, 'k, 'p) LoopState
      \<Rightarrow> ('f, 'e, ('b, 'g, 'd, 's, 'k, 'p, 'v) FlushWorld, ('f, 'b, 'g, 'd, 's, 'k, 'p, 'v) ShutdownWorld) LoopInput list
      \<Rightarrow> ('f, 'ptr, 'b, 'g, 'd, 's, 'k, 'p) LoopState \<Rightarrow> bool" for cfg where
  run_nil: "loop_run cfg ls [] ls"
| run_cons: "loop_step cfg ls i ls1 \<Longrightarrow> loop_run cfg ls1 is ls' \<Longrightarrow> loop_run cfg ls (i # is) ls'"

section \<open>The flusher task of the managed instance mode\<close>

definition managed_tick ::
    "FlushConfig \<Rightarrow> ('b, 'g, 'd, 's, 'k, 'p, 'v) FlushWorld \<Rightarrow> ('b, 'g, 'd, 's, 'k, 'p) FlushingService
      \<Rightarrow> ('b, 'g, 'd, 's, 'k, 'p) FlushingService option" where
  "managed_tick cfg w fs = (if has_pending_handles fs then Some fs else spawn_non_blocking cfg w fs)"

definition managed_cancelled ::
    "FlushConfig \<Rightarrow> (nat \<Rightarrow> ('b, 'g, 'd, 's, 'k, 'p, 'v) FlushWorld) \<Rightarrow> ('b, 'g, 'd, 's, 'k, 'p, 'v) FlushWorld
      \<Rightarrow> ('b, 'g, 'd, 's, 'k, 'p) FlushingService \<Rightarrow> ('b, 'g, 'd, 's, 'k, 'p) FlushingService option" where
  "managed_cancelled cfg rw w fs = do {
     (flush_error, dropped, fs) \<leftarrow> await_handles cfg rw fs;
     (failed, fs) \<leftarrow> flush_blocking_final cfg w fs;
     Some fs
   }"

text \<open>
  The task that waits for the shutdown event: whether it ends (and all other tasks with it) on an answer,
  and the commands it sends. \<open>transient\<close> says that the error is a time-out or a failed connection.
\<close>

fun managed_next :: "('e \<Rightarrow> bool) \<Rightarrow> 'e + NextEventResponse \<Rightarrow> ('f, 'ptr) ProcessorCommand list \<times> bool" where
  "managed_next transient (Inr (NextShutdown reason deadline_ms)) = ([OnShutdownEvent], True)"
| "managed_next transient (Inr (NextInvoke deadline_ms rid arn)) = ([], True)"
| "managed_next transient (Inl e) = ([], \<not> transient e)"

section \<open>Laws of the loop\<close>

lemma exited_stuck: "loop_step cfg ls i ls' \<Longrightarrow> ls_phase ls \<noteq> Exited"
  by (cases rule: loop_step.cases) auto

lemma send_commands_frame [simp]:
  "ls_control (send_commands cmds ls) = ls_control ls" "ls_service (send_commands cmds ls) = ls_service ls"
  "ls_phase (send_commands cmds ls) = ls_phase ls" "ls_commands (send_commands cmds ls) = ls_commands ls @ cmds"
  by (simp_all add: send_commands_def)

lemma loop_flush_blocking_frame:
  assumes "loop_flush_blocking cfg w ls = Some ls'"
  shows "ls_control ls' = ls_control ls" "ls_phase ls' = ls_phase ls" "ls_commands ls' = ls_commands ls"
    "fs_handles (ls_service ls') = fs_handles (ls_service ls)"
  using assms
  by (auto simp: loop_flush_blocking_def flush_blocking_def dest: flush_blocking_inner_handles)

lemma begin_round_frame:
  assumes "begin_round cfg now w ls = Some ls'"
  shows "ls_commands ls' = ls_commands ls" and "ls_phase ls' \<noteq> Exited"
  using assms
  by (auto simp: begin_round_def Let_def loop_flush_blocking_frame
      split: prod.splits FlushDecision.splits if_splits)

lemma shutdown_sequence_frame:
  assumes "shutdown_sequence cfg sh ls = Some ls'"
  shows "ls_commands ls' = ls_commands ls @ wait_for_tombstone_event (sh_events sh)" and "ls_phase ls' = Exited"
  using assms by (auto simp: shutdown_sequence_def Let_def split: bind_splits prod.splits)

text \<open>What the tasks have handed back stays with the handles.\<close>

definition results_kept :: "('d, 's, 'k, 'p) FlushHandles \<Rightarrow> ('d, 's, 'k, 'p) FlushHandles \<Rightarrow> bool" where
  "results_kept h h' \<longleftrightarrow>
     prefix (map joined (log_flush_handles h)) (map joined (log_flush_handles h'))
     \<and> prefix (map joined (trace_flush_handles h)) (map joined (trace_flush_handles h'))
     \<and> prefix (map joined (metric_flush_handles h)) (map joined (metric_flush_handles h'))
     \<and> prefix (map joined (stats_flush_handles h)) (map joined (stats_flush_handles h'))
     \<and> prefix (map joined (proxy_flush_handles h)) (map joined (proxy_flush_handles h'))"

lemma results_kept_refl [simp]: "results_kept h h"
  by (simp add: results_kept_def)

lemma results_kept_trans: "results_kept h h' \<Longrightarrow> results_kept h' h'' \<Longrightarrow> results_kept h h''"
  unfolding results_kept_def by (blast intro: prefix_order.trans)

lemma results_kept_finish: "results_kept h (finish_tasks h)"
  by (simp add: results_kept_def finish_tasks_def comp_def)

lemma results_kept_spawn:
  "spawn_non_blocking cfg w fs = Some fs' \<Longrightarrow> results_kept (fs_handles fs) (fs_handles fs')"
  by (erule spawn_non_blocking_handles) (simp add: results_kept_def)

lemma results_kept_begin_round:
  "begin_round cfg now w ls = Some ls' \<Longrightarrow>
     results_kept (fs_handles (ls_service ls)) (fs_handles (ls_service ls'))"
  by (auto simp: begin_round_def Let_def loop_flush_blocking_frame dest: results_kept_spawn
      split: prod.splits FlushDecision.splits if_splits)

lemma results_kept_after_next:
  assumes "after_next cfg resp now w sh ls = Some ls'" and "ls_phase ls' \<noteq> Exited"
  shows "results_kept (fs_handles (ls_service ls)) (fs_handles (ls_service ls'))"
  using assms
  by (auto simp: after_next_def Let_def shutdown_sequence_frame dest: results_kept_begin_round
      split: prod.splits NextEventResponse.splits)

lemma results_kept_step:
  assumes "loop_step cfg ls i ls'" and "ls_phase ls' \<noteq> Exited"
  shows "results_kept (fs_handles (ls_service ls)) (fs_handles (ls_service ls'))"
  using assms
  by (cases rule: loop_step.cases)
    (auto simp: loop_flush_blocking_frame results_kept_finish dest: results_kept_after_next)

lemma results_kept_run:
  assumes "loop_run cfg ls is ls'" and "ls_phase ls' \<noteq> Exited"
  shows "results_kept (fs_handles (ls_service ls)) (fs_handles (ls_service ls'))"
  using assms
proof (induction rule: loop_run.induct)
  case (run_nil ls)
  then show ?case by simp
next
  case (run_cons ls i ls1 "is" ls')
  have "ls_phase ls1 \<noteq> Exited"
    using run_cons.hyps(2) run_cons.prems by (cases rule: loop_run.cases) (auto dest: exited_stuck)
  with run_cons show ?case
    by (blast intro: results_kept_trans results_kept_step)
qed

text \<open>The commands sent are those of the inputs, in their order.\<close>

fun input_commands ::
    "('f, 'e, ('b, 'g, 'd, 's, 'k, 'p, 'v) FlushWorld, ('f, 'b, 'g, 'd, 's, 'k, 'p, 'v) ShutdownWorld) LoopInput
      \<Rightarrow> ('f, 'ptr) ProcessorCommand list" where
  "input_commands (BusIn event w) = fst (handle_event_bus_event event)"
| "input_commands (TickIn w) = []"
| "input_commands (NextIn resp now w sh) =
     fst (handle_next_invocation resp)
     @ (case snd (handle_next_invocation resp :: ('f, 'ptr) ProcessorCommand list \<times> NextEventResponse) of
          NextShutdown reason deadline_ms \<Rightarrow> wait_for_tombstone_event (sh_events sh)
        | NextInvoke deadline_ms rid arn \<Rightarrow> [])"
| "input_commands TasksEnd = []"

lemma after_next_commands:
  assumes "after_next cfg resp now w sh ls = Some ls'"
  shows "ls_commands ls' = ls_commands ls @ input_commands (NextIn resp now w sh)"
  using assms
  by (auto simp: after_next_def Let_def shutdown_sequence_frame begin_round_frame
      split: prod.splits NextEventResponse.splits)

lemma loop_step_commands: "loop_step cfg ls i ls' \<Longrightarrow> ls_commands ls' = ls_commands ls @ input_commands i"
  by (cases rule: loop_step.cases)
    (auto simp: loop_flush_blocking_frame after_next_commands simp del: input_commands.simps(3))

lemma loop_run_commands:
  "loop_run cfg ls is ls' \<Longrightarrow> ls_commands ls' = ls_commands ls @ concat (map input_commands is)"
  by (induction rule: loop_run.induct) (auto dest: loop_step_commands)

text \<open>The only event that ends the wait for the end of an invocation.\<close>

fun ends_invocation :: "'f BusEvent \<Rightarrow> bool" where
  "ends_invocation (Telemetry event) \<longleftrightarrow> (case te_record event of
     TelemetryRecord.PlatformRuntimeDone rid st et metrics \<Rightarrow> metrics \<noteq> None
   | _ \<Rightarrow> False)"
| "ends_invocation _ \<longleftrightarrow> False"

lemma runtime_done_iff:
  "handle_event_bus_event event = (cmds, r) \<Longrightarrow> is_runtime_done r \<longleftrightarrow> ends_invocation event"
  by (cases event)
    (auto simp: handle_telemetry_event_def is_runtime_done_def split: TelemetryRecord.splits option.splits)

lemma waits_for_runtime_done:
  assumes "loop_run cfg ls is ls'" and "\<forall>event w. BusIn event w \<in> set is \<longrightarrow> \<not> ends_invocation event"
    and "ls_phase ls = AwaitRuntimeDone"
  shows "ls_phase ls' = AwaitRuntimeDone"
  using assms
proof (induction rule: loop_run.induct)
  case (run_nil ls)
  then show ?case by simp
next
  case (run_cons ls i ls1 "is" ls')
  have "ls_phase ls1 = AwaitRuntimeDone"
    using run_cons.hyps(1) run_cons.prems
    by (cases rule: loop_step.cases) (auto simp: runtime_done_iff loop_flush_blocking_frame)
  with run_cons.IH run_cons.prems(1) show ?case by auto
qed

lemma first_decision_end: "fst (evaluate_flush_decision (fc_new t0 Default timeout) now) = FlushEnd"
proof -
  let ?it = "it_add it_new now"
  have "head ?it = 1" and "times ?it ! 1 = 0"
    by (simp_all add: it_add_def it_new_def LOOKBACK_COUNT_def)
  then have "list_ex (\<lambda>idx. times ?it ! idx = 0) [head ?it..<LOOKBACK_COUNT]"
    by (auto simp: list_ex_iff LOOKBACK_COUNT_def intro!: bexI [of _ 1])
  then have "evaluate_concrete_strategy ?it now timeout Default = CEnd"
    by (simp add: evaluate_concrete_strategy_def)
  then show ?thesis
    by (simp add: evaluate_flush_decision_def fc_new_def Let_def)
qed

end
