(* ===== verification/FlushProps.thy ===== *)
theory FlushProps
  imports EventLoop ProcessorProps
begin

text \<open>
  Properties of the flushers, of the flushing service and of the event loop, and of the loop together with
  the invocation processor.
\<close>

section \<open>Concrete worlds\<close>

text \<open>Requests are answered with the status \<open>st\<close>; \<open>key\<close> is the API key of every flusher.\<close>

definition sample_logs_config :: LogsFlushConfig where
  "sample_logs_config = \<lparr>opw_logs_enabled = False, opw_logs_url = [], logs_dd_url = ''https://intake'',
     logs_additional_endpoints = [(''other'', ''443'', ''k'')], logs_use_compression = False, logs_flush_timeout = 5\<rparr>"

definition sample_logs_world :: "nat \<Rightarrow> string option \<Rightarrow> LogsWorld" where
  "sample_logs_world st key = \<lparr>lw_can_clone = (\<lambda>_. True), lw_header_ok = (\<lambda>_. True), lw_order = rev,
     lw_encode = (\<lambda>_. None), lw_api_key = (\<lambda>_. key), lw_net = (\<lambda>_ _ _. Status_code st), lw_service = True\<rparr>"

text \<open>The first payload of a task is accepted; the others are refused.\<close>

definition sample_trace_world :: "string option \<Rightarrow> (unit, unit, nat) TraceWorld" where
  "sample_trace_world key = \<lparr>tw_api_key = key, tw_build = (\<lambda>_ _ _. 7), tw_retarget = (\<lambda>_ _ _ d. Some d),
     tw_coalesce = (\<lambda>ds. ds), tw_order = rev, tw_net = (\<lambda>_ i. i = 0), tw_retry_net = (\<lambda>_. False), tw_service = True\<rparr>"

definition sample_stats_world :: "nat \<Rightarrow> string option \<Rightarrow> nat StatsWorld" where
  "sample_stats_world st key = \<lparr>sw_api_key = key, sw_header_ok = (\<lambda>_. True), sw_url_ok = True,
     sw_serialize = (\<lambda>_. Some []), sw_rng = (\<lambda>_ upper. upper), sw_net = (\<lambda>_ _. Status_code st), sw_size = 1,
     sw_concentrator = (\<lambda>force j. if j = 0 then Inr (Some 9) else Inr None)\<rparr>"

definition sample_proxy_world :: "nat \<Rightarrow> string option \<Rightarrow> ProxyWorld" where
  "sample_proxy_world st key = \<lparr>pw_can_clone = (\<lambda>_. True), pw_header_ok = (\<lambda>_. True), pw_order = rev,
     pw_api_key = key, pw_net = (\<lambda>_ _. Status_code st), pw_resource_name = None, pw_timeout = 5\<rparr>"

definition sample_world :: "nat \<Rightarrow> string option \<Rightarrow> (unit, unit, nat, unit, unit, nat, int) FlushWorld" where
  "sample_world st key = \<lparr>fw_logs = sample_logs_world st key, fw_traces = sample_trace_world key,
     fw_stats = sample_stats_world st key, fw_proxy = sample_proxy_world st key, fw_metrics = Some ([], []),
     fw_flush_metrics = (\<lambda>_ _ _. None), fw_floats = sample_floats, fw_bucket_order = sorted_list_of_set,
     fw_point_order = (\<lambda>_. sorted_list_of_set), fw_to_vec = (\<lambda>_. None), fw_gzip = (\<lambda>_. None)\<rparr>"

definition sample_config :: FlushConfig where
  "sample_config = \<lparr>logs_config = sample_logs_config, additional_endpoints = [], metrics_flushers = 0\<rparr>"

definition sample_service :: "(unit, unit, nat, unit, unit, nat) FlushingService" where
  "sample_service = FlushingService_new (la_add_batch (la_new 10 100 50) [[1, 2], [3]])
     (ta_add (ta_add (ta_new 100) (sample_payload 3)) (sample_payload 4)) (sa_add (sa_new 10) 5)
     \<lparr>pf_headers = None, pf_aggregator = \<lparr>pa_queue = []\<rparr>\<rparr> None"

lemma sample_logs_world_ok: "logs_world_ok (sample_logs_world st key)"
  by (simp add: logs_world_ok_def sample_logs_world_def)

lemma sample_world_ok: "world_ok 1 (sample_world st key)"
proof -
  have "lw_service (sample_logs_world st key)"
    by (simp add: sample_logs_world_def)
  then show ?thesis
    by (auto simp: world_ok_def sample_world_def sample_logs_world_ok sample_trace_world_def sample_stats_world_def
        sample_proxy_world_def intro!: exI [of _ 1])
qed

lemma sample_service_inv: "service_inv 10 100 100 1 sample_service"
  by (simp add: service_inv_def sample_service_def FlushingService_new_def la_inv_def la_new_def ta_inv_def
      ta_add_def ta_new_def sa_add_def sa_new_def)

section \<open>Flushers\<close>

text \<open>
  C19. A flush of the logs takes exactly the fitting prefix of the pending logs, posts it in batches to every
  endpoint, and hands back exactly the requests that none of three attempts settled (a success, or the refusal
  of the API key), whatever the order in which the requests end. Nothing is handed back twice.
\<close>

theorem logs_flush_hands_back_unsettled:
  assumes "logs_world_ok w" and "lw_service w" and "la_inv entries m la" and "0 < entries"
  shows "\<exists>gs failed la'. logs_flush cfg w la = Some (failed, la')
    \<and> concat gs = takeWhile (fits m) (messages la) \<and> messages la' = dropWhile (fits m) (messages la)
    \<and> la_inv entries m la'
    \<and> mset failed = mset (concat (map (unsettled_of_flusher cfg w
        (map (logs_compress cfg (lw_encode w)) (map json_array gs))) (enumerate 0 (logs_endpoints cfg))))"
  using assms by (rule logs_flush_spec)

theorem logs_flush_hands_back_unsettled_witness:
  "\<exists>gs failed la'. logs_flush sample_logs_config (sample_logs_world 500 (Some ''k'')) (la_add_batch (la_new 10 100 50) [[1, 2]])
      = Some (failed, la')
    \<and> concat gs = [[1, 2 :: u8]] \<and> messages la' = []"
proof -
  have "la_inv 10 100 (la_add_batch (la_new 10 100 50) [[1, 2]])" and "lw_service (sample_logs_world 500 (Some ''k''))"
    by (simp_all add: la_inv_def la_new_def sample_logs_world_def)
  from logs_flush_hands_back_unsettled [OF sample_logs_world_ok this(2,1), of sample_logs_config]
  obtain gs failed la' where "logs_flush sample_logs_config (sample_logs_world 500 (Some ''k''))
        (la_add_batch (la_new 10 100 50) [[1, 2]]) = Some (failed, la')"
      "concat gs = takeWhile (fits 100) (messages (la_add_batch (la_new 10 100 50) [[1, 2]]))"
      "messages la' = dropWhile (fits 100) (messages (la_add_batch (la_new 10 100 50) [[1, 2]]))"
    by auto
  moreover have "messages (la_add_batch (la_new 10 100 50) [[1, 2]]) = [[1, 2]]" "fits 100 [1, 2]"
    by (simp_all add: la_new_def fits_def)
  ultimately show ?thesis by auto
qed



text \<open>
  Sending stats makes at most three attempts: the payload is handed back exactly when the request could be
  built and none of the first three answers is final (a success, or a status that is not worth retrying). At
  most two delays are slept, of at most 150 milliseconds together.
\<close>

theorem stats_send_bounded:
  assumes "\<And>retry upper. rng retry upper \<le> upper"
  shows "(fst (send_with_retry header_ok rng key (BACKOFF_BASE_MS * 1000000) resp) = Retriable
      \<longleftrightarrow> header_ok key \<and> \<not> settled stats_final resp)
    \<and> sum_list (snd (send_with_retry header_ok rng key (BACKOFF_BASE_MS * 1000000) resp)) \<le> 150
    \<and> length (snd (send_with_retry header_ok rng key (BACKOFF_BASE_MS * 1000000) resp)) < FLUSH_RETRY_COUNT"
  by (intro conjI send_with_retry_result) (simp_all only: send_with_retry_delays [OF assms])

theorem stats_send_bounded_witness:
  "fst (send_with_retry (\<lambda>_. True) (\<lambda>_ upper. upper) ''k'' (BACKOFF_BASE_MS * 1000000) (\<lambda>_. Status_code 503)) = Retriable
    \<and> sum_list (snd (send_with_retry (\<lambda>_. True) (\<lambda>_ upper. upper) ''k'' (BACKOFF_BASE_MS * 1000000) (\<lambda>_. Status_code 503))) \<le> 150"
  using stats_send_bounded [of "\<lambda>_ upper. upper" "\<lambda>_. True" "''k''" "\<lambda>_. Status_code 503"]
  by (simp add: settled_unfold classify_status_def is_success_def is_server_error_def)

text \<open>
  C25. The loop that collects the batches of stats ends as soon as the concentrator runs dry: it returns all
  queued payloads and all that the concentrator gave, in order, in non-empty batches, and leaves the queue
  empty.
\<close>

theorem stats_batches_terminate:
  assumes "0 < sz" "sz \<le> sa_max_content_size_bytes sa" and "sa_buffer sa = []"
    and "\<And>j p. n \<le> j \<Longrightarrow> flushed j \<noteq> Inr (Some p)"
  shows "\<exists>bs sa' k. stats_batches sz flushed 0 sa = Some (bs, sa') \<and> 0 < k
    \<and> concat bs = sa_queue sa @ given flushed 0 k \<and> sa_queue sa' = [] \<and> (\<forall>b \<in> set bs. b \<noteq> [])"
proof -
  obtain bs sa' k where "stats_batches sz flushed 0 sa = Some (bs, sa')" "0 < k"
      "concat bs = sa_queue sa @ given flushed 0 k" "sa_queue sa' = []" "\<forall>b \<in> set bs. b \<noteq> []"
    using stats_batches_drain [of sz sa n flushed 0, OF assms(1,2,4,3)] by blast
  then show ?thesis by blast
qed

theorem stats_batches_terminate_witness:
  "\<exists>bs sa' k. stats_batches 1 (\<lambda>j. if j = 0 then Inr (Some 9) else Inr None) 0 (sa_add (sa_new 10) (5 :: nat)) = Some (bs, sa')
    \<and> sa_queue sa' = []"
  using stats_batches_terminate [of 1 "sa_add (sa_new 10) (5 :: nat)" 1 "\<lambda>j. if j = 0 then Inr (Some 9) else Inr None"]
  by (auto simp: sa_add_def sa_new_def)

section \<open>The flushing service\<close>





section \<open>The event loop\<close>

text \<open>
  C26. A payload that a flush task hands back is not sent again before the shutdown. Along every run of the
  on-demand loop that has not exited, under every strategy, the results of all flush tasks ever started stay
  in the handles, in order: no handle is ever taken out, and their number grows with every continuous flush.
\<close>

theorem failed_payloads_wait_for_shutdown:
  assumes "loop_run cfg ls is ls'" and "ls_phase ls' \<noteq> Exited"
  shows "results_kept (fs_handles (ls_service ls)) (fs_handles (ls_service ls'))"
  using assms by (rule results_kept_run)

definition sample_loop :: "phase \<Rightarrow> (int, unit, unit, unit, nat, unit, unit, nat) LoopState" where
  "sample_loop ph = \<lparr>ls_control = fc_new 0 Default 60,
     ls_service = sample_service\<lparr>fs_handles := FlushHandles_new\<lparr>log_flush_handles := [spawned []]\<rparr>\<rparr>,
     ls_commands = [], ls_phase = ph\<rparr>"

theorem failed_payloads_wait_for_shutdown_witness:
  "\<exists>ls'. loop_run sample_config (sample_loop NextInvocation) [BusIn (OutOfMemory None 7) (sample_world 200 None), TasksEnd] ls'
    \<and> results_kept (fs_handles (ls_service (sample_loop NextInvocation))) (fs_handles (ls_service ls'))"
proof -
  let ?ls = "sample_loop NextInvocation"
  have "loop_step sample_config ?ls (BusIn (OutOfMemory None 7) (sample_world 200 None))
      (send_commands [OnOutOfMemoryError None 7] ?ls)"
    by (rule loop_step.inv_event) (simp_all add: sample_loop_def)
  moreover have "ls_phase (send_commands [OnOutOfMemoryError None 7] ?ls) \<noteq> Exited"
    by (simp add: sample_loop_def)
  ultimately have run: "loop_run sample_config ?ls [BusIn (OutOfMemory None 7) (sample_world 200 None), TasksEnd]
      ((send_commands [OnOutOfMemoryError None 7] ?ls)\<lparr>ls_service :=
        (ls_service ?ls)\<lparr>fs_handles := finish_tasks (fs_handles (ls_service ?ls))\<rparr>\<rparr>)" (is "loop_run _ _ _ ?ls'")
    using loop_step.tasks_end [of "send_commands [OnOutOfMemoryError None 7] ?ls" sample_config]
    by (auto intro!: loop_run.intros)
  then show ?thesis
    using failed_payloads_wait_for_shutdown [OF run] by (auto simp: sample_loop_def)
qed

text \<open>
  C27. An environment that is shut down before its first invocation never gets its final flush. When the first
  answer of the Extensions API is a shutdown (or an error), the loop of the default strategy still waits for
  the end of an invocation: whatever other events and ticks arrive, it neither asks for the next event nor
  exits. The same wait takes any \<open>platform.runtimeDone\<close> without metrics for no end at all.
\<close>

theorem first_shutdown_not_honoured:
  assumes "on_demand_start cfg (fc_new t0 Default timeout) fs resp now w = Some ls"
    and "resp = Inl e \<or> resp = Inr (NextShutdown reason deadline)"
    and "loop_run cfg ls is ls'"
    and "\<forall>event w. BusIn event w \<in> set is \<longrightarrow> \<not> ends_invocation event"
  shows "ls_phase ls' = AwaitRuntimeDone"
proof -
  have "fst (evaluate_flush_decision (fc_new t0 Default timeout) now) = FlushEnd"
    by (rule first_decision_end)
  with assms(1) have "ls_phase ls = AwaitRuntimeDone"
    by (auto simp: on_demand_start_def begin_round_def Let_def split: prod.splits)
  with assms(3,4) show ?thesis by (rule waits_for_runtime_done)
qed

theorem first_shutdown_not_honoured_witness:
  "\<exists>ls ls'. on_demand_start sample_config (fc_new 0 Default 60) sample_service
      (Inr (NextShutdown ''spindown'' 5) :: unit + NextEventResponse) 9 (sample_world 200 None)
      = Some (ls :: (int, unit, unit, unit, nat, unit, unit, nat) LoopState)
    \<and> loop_run sample_config ls
        [BusIn (Telemetry \<lparr>te_time = 1, te_record = TelemetryRecord.PlatformRuntimeDone ''a'' Success None None\<rparr>) (sample_world 200 None)] ls'
    \<and> ls_phase ls' = AwaitRuntimeDone"
proof -
  let ?e = "Telemetry \<lparr>te_time = 1, te_record = TelemetryRecord.PlatformRuntimeDone ''a'' Success None None\<rparr>"
  let ?resp = "Inr (NextShutdown ''spindown'' 5) :: unit + NextEventResponse"
  obtain fc where d: "evaluate_flush_decision (fc_new 0 Default 60) 9 = (FlushEnd, fc)"
    using first_decision_end [of 0 60 9] by (cases "evaluate_flush_decision (fc_new 0 Default 60) 9") auto
  obtain ls :: "(int, unit, unit, unit, nat, unit, unit, nat) LoopState" where
    start: "on_demand_start sample_config (fc_new 0 Default 60) sample_service ?resp 9 (sample_world 200 None) = Some ls"
      and ph: "ls_phase ls = AwaitRuntimeDone"
    using d by (auto simp: on_demand_start_def begin_round_def)
  have "loop_step sample_config ls (BusIn ?e (sample_world 200 None)) (send_commands [] ls)"
    using ph by (rule loop_step.end_event [where r = None]) (simp_all add: handle_telemetry_event_def is_runtime_done_def)
  then have run: "loop_run sample_config ls [BusIn ?e (sample_world 200 None)] (send_commands [] ls)"
    by (rule loop_run.run_cons) (rule loop_run.run_nil)
  have "\<forall>event w. BusIn event w \<in> set [BusIn ?e (sample_world 200 None)] \<longrightarrow> \<not> ends_invocation event"
    by simp
  from first_shutdown_not_honoured [OF start disjI2 [OF refl] run this] start run show ?thesis by blast
qed



section \<open>The loop and the invocation processor\<close>

definition is_invoke_answer :: "'e + NextEventResponse \<Rightarrow> bool" where
  "is_invoke_answer resp \<longleftrightarrow> (case resp of Inr (NextInvoke deadline_ms rid arn) \<Rightarrow> True | _ \<Rightarrow> False)"

definition next_answers :: "('f, 'e, 'w, 'sh) LoopInput list \<Rightarrow> ('e + NextEventResponse) list" where
  "next_answers is = List.map_filter (\<lambda>i. case i of NextIn resp now w sh \<Rightarrow> Some resp | _ \<Rightarrow> None) is"

lemma bus_opens_nothing:
  "\<not> is_managed_instance_mode env \<Longrightarrow> filter (opens env) (fst (handle_event_bus_event event)) = []"
  by (cases event) (auto simp: handle_telemetry_event_def split: TelemetryRecord.split option.split)

lemma tombstone_opens_nothing:
  "\<not> is_managed_instance_mode env \<Longrightarrow> filter (opens env) (wait_for_tombstone_event events) = []"
  by (induction events) (simp_all add: bus_opens_nothing)

lemma next_opens:
  "length (filter (opens env) (fst (handle_next_invocation resp))) = (if is_invoke_answer resp then 1 else 0)"
  by (cases resp rule: handle_next_invocation.cases) (simp_all add: is_invoke_answer_def)

lemma next_answers_simps:
  "next_answers [] = []"
  "next_answers (NextIn resp now w sh # is) = resp # next_answers is"
  "next_answers (BusIn event w # is) = next_answers is"
  "next_answers (TickIn w # is) = next_answers is"
  "next_answers (TasksEnd # is) = next_answers is"
  by (simp_all add: next_answers_def List.map_filter_def)

lemma input_opens:
  assumes "\<not> is_managed_instance_mode env"
  shows "length (filter (opens env) (input_commands i)) = length (filter is_invoke_answer (next_answers [i]))"
proof (cases i)
  case (NextIn resp now w sh)
  then show ?thesis
    by (cases resp rule: handle_next_invocation.cases)
      (simp_all add: next_answers_simps tombstone_opens_nothing [OF assms] is_invoke_answer_def)
qed (simp_all add: next_answers_simps bus_opens_nothing [OF assms])

lemma run_opens:
  assumes "\<not> is_managed_instance_mode env"
  shows "length (filter (opens env) (concat (map input_commands is)))
    = length (filter is_invoke_answer (next_answers is))"
proof (induction "is")
  case Nil
  then show ?case by (simp add: next_answers_simps)
next
  case (Cons i "is")
  have "next_answers (i # is) = next_answers [i] @ next_answers is"
    by (cases i) (simp_all add: next_answers_simps)
  with Cons input_opens [OF assms, of i] show ?case by simp
qed

text \<open>
  C7. Every invocation the Extensions API announces is counted once, from the loop to the metric. In the
  on-demand mode, for every run of the loop and every interleaving \<open>cs\<close> of its commands with commands of
  other senders that open no invocation, the processor returns, and the invocations metric has been emitted
  once for every \<open>Invoke\<close> answer, the first one included, up to the first one that may still be held back.
\<close>

theorem invocations_counted_end_to_end:
  assumes "env_ok env" and "dsm_fresh dsm" and "\<not> is_managed_instance_mode env"
    and "on_demand_start cfg fc fs resp now w = Some ls" and "loop_run cfg ls is ls'"
    and "filter (opens env) (map snd cs) = filter (opens env) (ls_commands ls')"
    and "\<forall>(tk, c) \<in> set cs. command_ok c \<and> c \<noteq> Shutdown"
  shows "\<exists>p. proc_run env cs (started env dsm) = Some p
    \<and> n_metric INVOCATIONS_METRIC (lambda_metrics p)
        + (case first_invocation_metric_status p of HeldBack _ \<Rightarrow> 1 | _ \<Rightarrow> 0)
      = length (filter is_invoke_answer (resp # next_answers is))"
proof -
  from assms(7) have no_shutdown: "Shutdown \<notin> snd ` set cs" by auto
  have "\<forall>c \<in> set (processed cs). command_ok c"
    using assms(7) by (auto simp: processed_all [OF no_shutdown])
  with assms(1,2) obtain p where p: "proc_run env cs (started env dsm) = Some p"
    "counted p = length (filter (opens env) (processed cs))" by (rule run_from_start)
  have "ls_commands ls = fst (handle_next_invocation resp)"
    using assms(4) by (auto simp: on_demand_start_def begin_round_frame)
  with loop_run_commands [OF assms(5)]
  have "ls_commands ls' = fst (handle_next_invocation resp) @ concat (map input_commands is)" by simp
  then have "length (filter (opens env) (ls_commands ls')) = length (filter is_invoke_answer (resp # next_answers is))"
    using run_opens [OF assms(3), of "is"] next_opens [of env resp] by simp
  with p assms(6) show ?thesis
    by (intro exI [of _ p]) (simp add: processed_all [OF no_shutdown] counted_def)
qed

theorem invocations_counted_end_to_end_witness:
  "\<exists>ls. on_demand_start sample_config (fc_new 0 Default 60) sample_service
      (Inr (NextInvoke 5 ''a'' ''arn'') :: unit + NextEventResponse) 9 (sample_world 200 None)
      = Some (ls :: (int, unit, unit, unit, nat, unit, unit, nat) LoopState)
    \<and> (\<exists>p. proc_run (sample_env ''on-demand'') [(sample_tick 1, SetColdStartSpanTraceId 3), (sample_tick 2, InvokeEvent ''a'')]
        (started (sample_env ''on-demand'') None) = Some p
      \<and> n_metric INVOCATIONS_METRIC (lambda_metrics p)
        + (case first_invocation_metric_status p of HeldBack _ \<Rightarrow> 1 | _ \<Rightarrow> 0) = 1)"
proof -
  let ?resp = "Inr (NextInvoke 5 ''a'' ''arn'') :: unit + NextEventResponse"
  obtain fc where d: "evaluate_flush_decision (fc_new 0 Default 60) 9 = (FlushEnd, fc)"
    using first_decision_end [of 0 60 9] by (cases "evaluate_flush_decision (fc_new 0 Default 60) 9") auto
  obtain ls :: "(int, unit, unit, unit, nat, unit, unit, nat) LoopState" where
    start: "on_demand_start sample_config (fc_new 0 Default 60) sample_service ?resp 9 (sample_world 200 None) = Some ls"
      and cmds: "ls_commands ls = [InvokeEvent ''a'']"
    using d by (auto simp: on_demand_start_def begin_round_def)
  have mode: "\<not> is_managed_instance_mode (sample_env ''on-demand'')"
    by (simp add: is_managed_instance_mode_def sample_env_def)
  have run: "loop_run sample_config ls ([] :: (int, unit, (unit, unit, nat, unit, unit, nat, int) FlushWorld,
      (int, unit, unit, nat, unit, unit, nat, int) ShutdownWorld) LoopInput list) ls"
    by (rule loop_run.run_nil)
  let ?cs = "[(sample_tick 1, SetColdStartSpanTraceId 3), (sample_tick 2, InvokeEvent ''a'')]"
  have same: "filter (opens (sample_env ''on-demand'')) (map snd ?cs) = filter (opens (sample_env ''on-demand'')) (ls_commands ls)"
    by (simp add: cmds)
  have ok: "\<forall>(tk, c) \<in> set ?cs. command_ok c \<and> c \<noteq> Shutdown" by simp
  from invocations_counted_end_to_end [OF sample_env_ok no_dsm_fresh mode start run same ok] start show ?thesis
    by (simp add: next_answers_simps is_invoke_answer_def del: proc_run.simps)
qed

end
