(* ===== verification/Spec2Isabelle.thy ===== *)
theory Spec2Isabelle
  imports FlushControl SpanDedup Aggregators LogsAggregator Stitch LogsLiveness DsmPathway
    ContextProps SpanProps ProcessorProps ProcessorOom FlushProps
begin

text \<open>
  Verification of the Datadog Lambda extension, the Rust program \<open>bottlecap\<close> (\<open>bottlecap/src\<close>; the
  paths below are relative to it).

  \<^bold>\<open>The program.\<close> The extension runs beside an AWS Lambda function. The Lambda service posts
  telemetry events to it (\<open>extension/telemetry\<close>); the logs agent turns them into log messages
  (\<open>logs\<close>) and puts the platform events on a bus. A main loop takes the invoke events and the events of
  the bus and sends commands to the invocation processor (\<open>lifecycle/invocation\<close>), which keeps a
  context per invocation, pairs the events of the platform with those of the tracer, builds the
  invocation span and the inferred spans, and emits the enhanced metrics (\<open>metrics/enhanced\<close>). Tracers
  send traces, statistics and data to be proxied (\<open>traces\<close>). All of these end in aggregators, services
  that own a queue and answer requests for batches, and the flush control decides when the batches
  are sent (\<open>lifecycle/flush_control.rs\<close>, \<open>lifecycle/invocation_times.rs\<close>). Data streams monitoring
  records checkpoints of the messages a function consumes (\<open>traces/data_streams\<close>).

  \<^bold>\<open>The theories.\<close> A service is a function over the list of its commands, in the order of its channel.

  \<^item> \<open>Prelude\<close>: the types of the model, \<open>i64\<close> arithmetic with its wrap-around, list lemmas, and the
    locale \<open>sliding_window\<close> of bounded queues that drop their oldest element.
  \<^item> \<open>FlushControl\<close>: \<open>InvocationTimes\<close> and \<open>FlushControl\<close> (which strategy is used, whether an
    interval has passed). Flushes are spaced, the default strategy adapts to the last invocations.
  \<^item> \<open>SpanDedup\<close>: the deduper and its service. A key is new exactly when it is not among the last
    accepted ones.
  \<^item> \<open>Batching\<close>: the loop that drains an aggregator and the locales \<open>batcher\<close> and \<open>live_batcher\<close> of a
    queue that is emptied in batches.
  \<^item> \<open>Aggregators\<close>: the trace, proxy and statistics aggregators and the trace service;
    \<open>LogsAggregator\<close>: the logs aggregator and its service. Each service refines a first-in first-out
    queue and never exceeds the caps, with the exceptions the statements name.
  \<^item> \<open>Stitch\<close>: \<open>extension/telemetry/stitch.rs\<close> and the request handler of the listener. A record cut
    across posts is delivered as if it had never been cut; splitting a payload is invertible.
  \<^item> \<open>Json\<close>, \<open>TelemetryEvents\<close>, \<open>DurableContext\<close>: JSON values, the telemetry events and the durable
    execution contexts that the logs and the invocation processor share.
  \<^item> \<open>LambdaLogs\<close>: the logs processor (\<open>logs/lambda/processor.rs\<close>, \<open>logs/processor.rs\<close>); \<open>HeldLogs\<close>:
    no log is lost or duplicated; \<open>LogsLiveness\<close>: the buffer of held logs is bounded and every call
    returns when the runtime is announced first, and the state in which \<open>hold_log\<close> does not return.
  \<^item> \<open>DsmSketch\<close>, \<open>DsmCodec\<close>, \<open>DsmPathway\<close>: the sketch, the encoded contexts, the pathway hashes, the
    aggregator and the processor of data streams monitoring. Every checkpoint is reported once.
  \<^item> \<open>Spans\<close>: spans, tags from JSON values and the span inferrer (\<open>mod.rs\<close>, \<open>span_inferrer.rs\<close> of
    \<open>lifecycle/invocation\<close>, and the provided methods of \<open>triggers/mod.rs\<close>).
  \<^item> \<open>ContextBuffer\<close>: \<open>lifecycle/invocation/context.rs\<close>; \<open>EventPairing\<close>: the locale \<open>event_pairing\<close> of two
    queues of which one is always empty; \<open>ContextProps\<close>: the events are paired in order, and the
    context found for a time.
  \<^item> \<open>EnhancedMetrics\<close>: \<open>metrics/enhanced/lambda.rs\<close> and \<open>usage_metrics.rs\<close>, every metric with its guard.
  \<^item> \<open>InvocationProcessor\<close>: every handler of \<open>lifecycle/invocation/processor.rs\<close> and the command loop of
    \<open>processor_service.rs\<close>; \<open>ProcessorFrames\<close>: what each handler leaves alone; \<open>ProcessorRuns\<close>: each handler
    returns, keeps the bounds of the buffers and what it adds to the tally of invocations;
    \<open>ProcessorProps\<close>: invocations and init durations are counted once over any run, and where a warm
    invocation is taken for a first one; \<open>ProcessorOom\<close>: an out-of-memory error is counted once;
    \<open>SpanProps\<close>: the spans form a chain; \<open>ProcessorSamples\<close>: a concrete environment for the instances.
  \<^item> \<open>Flushers\<close>: the flushers of logs, traces, statistics and proxied requests (\<open>logs/flusher.rs\<close>,
    \<open>traces/trace_flusher.rs\<close>, \<open>traces/stats_flusher.rs\<close>, \<open>traces/proxy_flusher.rs\<close>) and the locale
    \<open>retrying_sender\<close> of a sender that makes three attempts; \<open>Flushing\<close>: the flushing service
    (\<open>flushing/service.rs\<close>, \<open>flushing/handles.rs\<close>), every flush of which returns; \<open>EventLoop\<close>: the handlers
    of \<open>bin/bottlecap/main.rs\<close> and its on-demand loop as the step relation \<open>loop_step\<close>; \<open>FlushProps\<close>: what a
    flush hands back, what the shutdown empties, what the loop never redrives, and that every invocation is
    counted from the loop to the metric.

  \<^bold>\<open>Conventions.\<close> \<open>u64\<close> is \<open>64 word\<close>; \<open>usize\<close> counters bounded by memory are \<open>nat\<close>; \<open>i64\<close> is \<open>int\<close> with
  the wrap-around of the release build written out. Text is a list of characters, one per UTF-8 byte.
  A \<open>HashMap\<close> is a map, or an association list where its iteration order is observable, and then the
  order is a parameter. \<open>f64\<close> is a type parameter with a record of its operations. The clock, random
  span ids and the readings of \<open>/proc\<close> are arguments. A panic is \<open>None\<close>.

  \<^bold>\<open>Fuel and termination.\<close> No definition uses fuel. Loops are structural recursions or have a
  termination proof, except the draining of an aggregator and the eviction of held logs, which may run
  forever in the code: they are partial functions into \<open>option\<close>, and that they return is proved, with
  the states from which they do not. The loop that collects batches of statistics is a partial function
  too, and returns when the concentrator runs dry. The event loop is a step relation; its runs are finite
  sequences of inputs.

  \<^bold>\<open>Parameters.\<close> JSON parsing and printing, base64, SHA-256, regular expressions, the trace context
  propagator and the parser of metric tags are libraries outside the repository; they are arguments of
  the definitions that use them.

  \<^bold>\<open>Not modelled.\<close> Network servers and clients (the trace agent, the proxy, the Lambda API client, the
  lifecycle listener; the answers of the network are arguments of the flushers), process start, the code that
  drives \<open>libdatadog\<close> and \<open>libddwaf\<close> (trace processor, statistics, AppSec), the OTLP receiver, secrets,
  configuration and tags. The AWS event types behind the trait \<open>Trigger\<close> are represented by the record
  of its methods. The timer task that samples \<open>/proc\<close> is not modelled; the metrics that
  \<open>set_usage_enhanced_metrics\<close> emits from a spawned task are appended at the call.
\<close>

end
